(* ===== verification/Prelude.thy ===== *)
theory Prelude
  imports Main "HOL-Library.Word" "HOL-Library.Monad_Syntax"
begin

unbundle bit_operations_syntax

text \<open>
  What every component of the development shares: bytes and the little-endian
  image of machine words, slices of byte arrays, the C string primitives the
  code calls (each returns \<^term>\<open>None\<close> where the C function would run off the
  array it reads), and two interfaces as locales: fixed-size codecs (a struct
  and its object representation) and enumerations (a C enum and its integer
  codes).
\<close>

named_theorems layout_simps \<open>equations that evaluate struct layouts and slices\<close>
named_theorems c_string_simps \<open>equations of the C string primitives\<close>

type_synonym byte = "8 word"

section \<open>Little-endian words\<close>

primrec le_bytes :: "nat \<Rightarrow> 'a::len word \<Rightarrow> byte list" where
  "le_bytes 0 w = []"
| "le_bytes (Suc n) w = ucast w # le_bytes n (drop_bit 8 w)"

primrec le_word :: "byte list \<Rightarrow> 'a::len word" where
  "le_word [] = 0"
| "le_word (b # bs) = ucast b OR push_bit 8 (le_word bs)"

definition slice :: "nat \<Rightarrow> nat \<Rightarrow> 'a list \<Rightarrow> 'a list" where
  "slice off n xs = take n (drop off xs)"

text \<open>\<open>memcpy\<close> into an array: the elements from \<open>off\<close> on are replaced; a copy
  that does not fit is undefined behaviour.\<close>

definition store_at :: "nat \<Rightarrow> 'a list \<Rightarrow> 'a list \<Rightarrow> 'a list option" where
  "store_at off ys xs =
     (if off + length ys \<le> length xs
      then Some (take off xs @ ys @ drop (off + length ys) xs) else None)"

text \<open>Reading \<open>n\<close> elements at \<open>off\<close>; out of range is undefined behaviour.\<close>

definition load_at :: "nat \<Rightarrow> nat \<Rightarrow> 'a list \<Rightarrow> 'a list option" where
  "load_at off n xs = (if off + n \<le> length xs then Some (slice off n xs) else None)"

section \<open>C strings\<close>

text \<open>A C string lives in an array of bytes and ends at its first NUL.\<close>

fun c_strlen :: "byte list \<Rightarrow> nat option" where
  "c_strlen [] = None"
| "c_strlen (b # bs) = (if b = 0 then Some 0 else map_option Suc (c_strlen bs))"

text \<open>\<open>strcmp(a, b) == 0\<close>.\<close>

fun c_streq :: "byte list \<Rightarrow> byte list \<Rightarrow> bool option" where
  "c_streq [] bs = None"
| "c_streq (a # as) [] = None"
| "c_streq (a # as) (b # bs) =
     (if a \<noteq> b then Some False else if a = 0 then Some True else c_streq as bs)"

definition c_str :: "byte list \<Rightarrow> byte list" where
  "c_str bs = takeWhile (\<lambda>b. b \<noteq> 0) bs"

definition terminated :: "byte list \<Rightarrow> bool" where
  "terminated bs \<longleftrightarrow> 0 \<in> set bs"

text \<open>The bytes \<open>strncpy(dest, src, n)\<close> writes: at most \<open>n\<close> bytes of the source,
  filled up with NULs when the source is shorter.\<close>

fun strncpy_bytes :: "nat \<Rightarrow> byte list \<Rightarrow> byte list option" where
  "strncpy_bytes 0 src = Some []"
| "strncpy_bytes (Suc n) [] = None"
| "strncpy_bytes (Suc n) (b # bs) =
     (if b = 0 then Some (replicate (Suc n) 0)
      else map_option (\<lambda>r. b # r) (strncpy_bytes n bs))"

definition c_strncpy :: "byte list \<Rightarrow> byte list \<Rightarrow> nat \<Rightarrow> byte list option" where
  "c_strncpy dest src n =
     do { bs \<leftarrow> strncpy_bytes n src; store_at 0 bs dest }"

text \<open>A string literal as the bytes of its array, terminator included.\<close>

definition lit :: "string \<Rightarrow> byte list" where
  "lit s = map of_char s @ [0]"

section \<open>Lemmas: words and slices\<close>

lemma unat_byte_less: "unat (b :: byte) < 256"
  using unsigned_less [of b, where ?'a = nat] by simp

lemma sint64_bounds: "- (2 ^ 63) \<le> sint (w :: 64 word)" "sint (w :: 64 word) < 2 ^ 63"
  using sint_range_size [of w] by (simp_all add: word_size)

lemma sint64_of_int [simp]: "- (2 ^ 63) \<le> i \<Longrightarrow> i < 2 ^ 63 \<Longrightarrow> sint (word_of_int i :: 64 word) = i"
  by (simp add: sint_sbintrunc' signed_take_bit_int_eq_self)

lemma sint32_Suc: "sint (e :: 32 word) < 0 \<Longrightarrow> sint (e + 1) = sint e + 1"
  using sint_range_size [of e]
  by (simp add: word_size sint_word_ariths signed_take_bit_int_eq_self)

lemma length_le_bytes [simp, layout_simps]: "length (le_bytes n w) = n"
  by (induction n arbitrary: w) auto

lemma le_bytes_numeral:
  "le_bytes (numeral k) w = ucast w # le_bytes (pred_numeral k) (drop_bit 8 w)"
  by (simp add: numeral_eq_Suc)

lemma le_word_le_bytes_take_bit:
  "le_word (le_bytes n w) = take_bit (8 * n) (w :: 'a::len word)"
proof (induction n arbitrary: w)
  case 0
  then show ?case by simp
next
  case (Suc n)
  have "le_word (le_bytes (Suc n) w)
      = ucast (ucast w :: byte) OR push_bit 8 (take_bit (8 * n) (drop_bit 8 w))"
    by (simp add: Suc)
  also have "\<dots> = take_bit (8 * Suc n) w"
    by (rule bit_word_eqI) (auto simp: bit_simps)
  finally show ?case .
qed

lemma le_word_le_bytes [layout_simps]:
  "8 * n = LENGTH('a) \<Longrightarrow> le_word (le_bytes n (w :: 'a::len word)) = w"
  by (simp add: le_word_le_bytes_take_bit)

lemma le_word_bits: "bit (le_word bs :: 'a::len word) n \<Longrightarrow> n < 8 * length bs"
  by (induction bs arbitrary: n) (fastforce simp: bit_simps dest: bit_imp_le_length)+

lemma le_bytes_le_word:
  "8 * length bs \<le> LENGTH('a) \<Longrightarrow> le_bytes (length bs) (le_word bs :: 'a::len word) = bs"
proof (induction bs)
  case Nil
  then show ?case by simp
next
  case (Cons b bs)
  have lo: "ucast (ucast b OR push_bit 8 (le_word bs) :: 'a word) = b"
    using Cons.prems by (intro bit_word_eqI) (auto simp: bit_simps)
  have hi: "drop_bit 8 (ucast b OR push_bit 8 (le_word bs) :: 'a word) = le_word bs"
    using Cons.prems
    by (intro bit_word_eqI) (auto simp: bit_simps dest: bit_imp_le_length le_word_bits)
  show ?case
    using Cons by (simp only: le_word.simps list.size le_bytes.simps lo hi add_Suc_right add_0_right) simp
qed

lemma le_bytes_le_word_slice [layout_simps]:
  "length bs = n \<Longrightarrow> 8 * n \<le> LENGTH('a) \<Longrightarrow> le_bytes n (le_word bs :: 'a::len word) = bs"
  using le_bytes_le_word by blast

lemma length_slice [layout_simps]: "off + n \<le> length xs \<Longrightarrow> length (slice off n xs) = n"
  by (simp add: slice_def)

lemma slice_append_slice [layout_simps]:
  "b = a + n \<Longrightarrow> slice a n xs @ slice b m xs = slice a (n + m) xs"
  by (simp add: slice_def take_add add.commute [of a n])

lemma slice_all [layout_simps]: "length xs \<le> n \<Longrightarrow> slice 0 n xs = xs"
  by (simp add: slice_def)

lemma slice_0: "slice 0 n xs = take n xs"
  by (simp add: slice_def)

lemma slice_append_left [layout_simps]:
  "off + n \<le> length xs \<Longrightarrow> slice off n (xs @ ys) = slice off n xs"
  by (simp add: slice_def)

lemma slice_append_right [layout_simps]:
  "length xs \<le> off \<Longrightarrow> slice off n (xs @ ys) = slice (off - length xs) n ys"
  by (simp add: slice_def)

lemma slice_take: "off + n \<le> k \<Longrightarrow> slice off n (take k xs) = slice off n xs"
  by (simp add: slice_def drop_take min_def)

lemma length_store_at: "store_at off ys xs = Some zs \<Longrightarrow> length zs = length xs"
  by (auto simp: store_at_def split: if_splits)

lemma store_at_None_iff: "store_at off ys xs = None \<longleftrightarrow> length xs < off + length ys"
  by (auto simp: store_at_def)

lemma load_store_same:
  "store_at off ys xs = Some zs \<Longrightarrow> load_at off (length ys) zs = Some ys"
  by (auto simp: store_at_def load_at_def slice_def split: if_splits)

lemma load_store_other:
  assumes "store_at off ys xs = Some zs"
    and "a + n \<le> off \<or> off + length ys \<le> a"
  shows "load_at a n zs = load_at a n xs"
proof -
  from assms(1) have zs: "zs = take off xs @ ys @ drop (off + length ys) xs"
    and len: "off + length ys \<le> length xs"
    by (auto simp: store_at_def split: if_splits)
  from assms(2) show ?thesis
  proof
    assume "a + n \<le> off"
    with len show ?thesis
      by (simp add: load_at_def zs slice_append_left slice_take)
  next
    assume b: "off + length ys \<le> a"
    then have "slice a n zs = slice a n xs"
      using len by (simp add: zs slice_def)
    with len show ?thesis by (simp add: load_at_def zs)
  qed
qed

section \<open>Lemmas: C strings\<close>

lemma c_strlen_Some_iff [c_string_simps]:
  "c_strlen bs = Some n \<longleftrightarrow> terminated bs \<and> n = length (c_str bs)"
  by (induction bs arbitrary: n) (auto simp: terminated_def c_str_def)

lemma c_strlen_None_iff [c_string_simps]: "c_strlen bs = None \<longleftrightarrow> \<not> terminated bs"
  by (induction bs) (auto simp: terminated_def)

lemma c_streq_terminated [c_string_simps]:
  "terminated as \<Longrightarrow> terminated bs \<Longrightarrow> c_streq as bs = Some (c_str as = c_str bs)"
  by (induction as bs rule: c_streq.induct) (auto simp: terminated_def c_str_def)

lemma c_streq_refl: "terminated bs \<Longrightarrow> c_streq bs bs = Some True"
  by (simp add: c_streq_terminated)

lemma length_strncpy_bytes: "strncpy_bytes n src = Some bs \<Longrightarrow> length bs = n"
  by (induction n src arbitrary: bs rule: strncpy_bytes.induct) (auto split: if_splits)

lemma strncpy_bytes_terminated [c_string_simps]:
  "terminated src \<Longrightarrow>
   strncpy_bytes n src = Some (take n (c_str src) @ replicate (n - length (c_str src)) 0)"
  by (induction n src rule: strncpy_bytes.induct) (auto simp: terminated_def c_str_def)

lemma c_str_append_NUL [c_string_simps]:
  "0 \<notin> set bs \<Longrightarrow> c_str (bs @ 0 # cs) = bs"
  by (induction bs) (auto simp: c_str_def)

lemma NUL_not_in_c_str [c_string_simps]: "0 \<notin> set (c_str bs)"
  by (auto simp: c_str_def dest: set_takeWhileD)

lemma terminated_append [c_string_simps]:
  "terminated (xs @ ys) \<longleftrightarrow> terminated xs \<or> terminated ys"
  by (auto simp: terminated_def)

lemma terminated_lit [simp]: "terminated (lit s)"
  by (simp add: terminated_def lit_def)

section \<open>Fixed-size codecs\<close>

text \<open>
  The object representation of a struct: \<open>enc\<close> gives the bytes of a value, \<open>dec\<close>
  reads them back, and both are inverse on well-formed values and on byte lists
  of the struct's size (padding is part of the value, so no byte is lost).
\<close>

locale codec =
  fixes enc :: "'a \<Rightarrow> byte list"
    and dec :: "byte list \<Rightarrow> 'a"
    and sz :: nat
    and wf :: "'a \<Rightarrow> bool"
  assumes enc_length: "wf x \<Longrightarrow> length (enc x) = sz"
    and dec_enc: "wf x \<Longrightarrow> dec (enc x) = x"
    and wf_dec: "length bs = sz \<Longrightarrow> wf (dec bs)"
    and enc_dec: "length bs = sz \<Longrightarrow> enc (dec bs) = bs"
begin

lemma enc_inject: "wf x \<Longrightarrow> wf y \<Longrightarrow> enc x = enc y \<longleftrightarrow> x = y"
  by (metis dec_enc)

lemma dec_inject: "length bs = sz \<Longrightarrow> length cs = sz \<Longrightarrow> dec bs = dec cs \<longleftrightarrow> bs = cs"
  by (metis enc_dec)

lemma dec_prefix: "wf x \<Longrightarrow> dec (take sz (enc x @ rest)) = x"
  by (simp add: enc_length dec_enc)

lemma bij: "bij_betw enc {x. wf x} {bs. length bs = sz}"
  by (rule bij_betw_byWitness [where f' = dec]) (auto simp: enc_length dec_enc wf_dec enc_dec)

end

section \<open>Enumerations\<close>

text \<open>A C enum: its enumerators as a datatype, and the integers that stand for them.
  An object of enum type can hold any integer of its width, so reading one back is partial.\<close>

locale c_enum =
  fixes val :: "'e \<Rightarrow> 'i"
    and of_val :: "'i \<Rightarrow> 'e option"
  assumes of_val_val [simp]: "of_val (val e) = Some e"
    and val_of_val: "of_val i = Some e \<Longrightarrow> val e = i"
begin

lemma val_inject: "val a = val b \<longleftrightarrow> a = b"
  by (metis of_val_val option.inject)

lemma of_val_Some_iff: "of_val i = Some e \<longleftrightarrow> i = val e"
  using val_of_val by force

lemma of_val_None_iff: "of_val i = None \<longleftrightarrow> i \<notin> range val"
  by (metis of_val_Some_iff option.exhaust rangeE rangeI not_None_eq)

end

end
