(* ===== verification/Types.thy ===== *)
theory Types
  imports Prelude
begin

text \<open>
  The data model of \<open>include/common/types.h\<close> and the wire header of
  \<open>include/serialization/serialization.h\<close>: enumerations with their integer
  codes, the structs as records, and the object representation of each struct on
  the platform of the build (x86-64 Linux, gcc): little-endian integers, 8-byte
  alignment of 64-bit members, 4-byte enums. Padding bytes are explicit fields,
  so that \<open>memcpy\<close> of a struct moves every byte of it.

  Members of enum type are kept as 32-bit words: the code fills them by
  \<open>memcpy\<close> from the network, and nothing restricts them to enumerators.
\<close>

section \<open>Constants\<close>

definition MAX_SYMBOL_LENGTH :: nat where "MAX_SYMBOL_LENGTH = 16"
definition MAX_CLIENT_ID_LENGTH :: nat where "MAX_CLIENT_ID_LENGTH = 32"
definition MAX_ERROR_MSG_LENGTH :: nat where "MAX_ERROR_MSG_LENGTH = 256"
definition BUFFER_SIZE :: nat where "BUFFER_SIZE = 4096"
definition MAX_CLIENTS :: nat where "MAX_CLIENTS = 100"

lemmas size_constants =
  MAX_SYMBOL_LENGTH_def MAX_CLIENT_ID_LENGTH_def MAX_ERROR_MSG_LENGTH_def
  BUFFER_SIZE_def MAX_CLIENTS_def

section \<open>Enumerations\<close>

datatype ErrorCode =
    SUCCESS | ERROR_SOCKET_CREATE | ERROR_SOCKET_BIND | ERROR_SOCKET_LISTEN
  | ERROR_SOCKET_ACCEPT | ERROR_SOCKET_CONNECT | ERROR_THREAD_CREATE | ERROR_MEMORY_ALLOC
  | ERROR_INVALID_PARAM | ERROR_INVALID_STATE | ERROR_TIMEOUT | ERROR_SERIALIZATION
  | ERROR_DESERIALIZATION | ERROR_INVALID_MESSAGE | ERROR_INVALID_ORDER
  | ERROR_ORDER_NOT_FOUND | ERROR_MARKET_DATA

primrec code_of :: "ErrorCode \<Rightarrow> int" where
  "code_of SUCCESS = 0"
| "code_of ERROR_SOCKET_CREATE = -1"
| "code_of ERROR_SOCKET_BIND = -2"
| "code_of ERROR_SOCKET_LISTEN = -3"
| "code_of ERROR_SOCKET_ACCEPT = -4"
| "code_of ERROR_SOCKET_CONNECT = -5"
| "code_of ERROR_THREAD_CREATE = -6"
| "code_of ERROR_MEMORY_ALLOC = -7"
| "code_of ERROR_INVALID_PARAM = -8"
| "code_of ERROR_INVALID_STATE = -9"
| "code_of ERROR_TIMEOUT = -10"
| "code_of ERROR_SERIALIZATION = -11"
| "code_of ERROR_DESERIALIZATION = -12"
| "code_of ERROR_INVALID_MESSAGE = -13"
| "code_of ERROR_INVALID_ORDER = -14"
| "code_of ERROR_ORDER_NOT_FOUND = -15"
| "code_of ERROR_MARKET_DATA = -16"

definition ErrorCode_of :: "int \<Rightarrow> ErrorCode option" where
  "ErrorCode_of i = map_of
     [(0, SUCCESS), (-1, ERROR_SOCKET_CREATE), (-2, ERROR_SOCKET_BIND),
      (-3, ERROR_SOCKET_LISTEN), (-4, ERROR_SOCKET_ACCEPT), (-5, ERROR_SOCKET_CONNECT),
      (-6, ERROR_THREAD_CREATE), (-7, ERROR_MEMORY_ALLOC), (-8, ERROR_INVALID_PARAM),
      (-9, ERROR_INVALID_STATE), (-10, ERROR_TIMEOUT), (-11, ERROR_SERIALIZATION),
      (-12, ERROR_DESERIALIZATION), (-13, ERROR_INVALID_MESSAGE), (-14, ERROR_INVALID_ORDER),
      (-15, ERROR_ORDER_NOT_FOUND), (-16, ERROR_MARKET_DATA)] i"

datatype MessageType =
    MSG_NONE | MSG_HEARTBEAT | MSG_ORDER_NEW | MSG_ORDER_CANCEL | MSG_ORDER_MODIFY
  | MSG_ORDER_STATUS | MSG_MARKET_DATA | MSG_TRADE_EXEC | MSG_ERROR

primrec MessageType_val :: "MessageType \<Rightarrow> 32 word" where
  "MessageType_val MSG_NONE = 0"
| "MessageType_val MSG_HEARTBEAT = 1"
| "MessageType_val MSG_ORDER_NEW = 2"
| "MessageType_val MSG_ORDER_CANCEL = 3"
| "MessageType_val MSG_ORDER_MODIFY = 4"
| "MessageType_val MSG_ORDER_STATUS = 5"
| "MessageType_val MSG_MARKET_DATA = 6"
| "MessageType_val MSG_TRADE_EXEC = 7"
| "MessageType_val MSG_ERROR = 8"

definition MessageType_of :: "32 word \<Rightarrow> MessageType option" where
  "MessageType_of w = map_of
     [(0, MSG_NONE), (1, MSG_HEARTBEAT), (2, MSG_ORDER_NEW), (3, MSG_ORDER_CANCEL),
      (4, MSG_ORDER_MODIFY), (5, MSG_ORDER_STATUS), (6, MSG_MARKET_DATA),
      (7, MSG_TRADE_EXEC), (8, MSG_ERROR)] w"

datatype OrderType =
  ORDER_TYPE_MARKET | ORDER_TYPE_LIMIT | ORDER_TYPE_STOP | ORDER_TYPE_STOP_LIMIT

primrec OrderType_val :: "OrderType \<Rightarrow> 32 word" where
  "OrderType_val ORDER_TYPE_MARKET = 1"
| "OrderType_val ORDER_TYPE_LIMIT = 2"
| "OrderType_val ORDER_TYPE_STOP = 3"
| "OrderType_val ORDER_TYPE_STOP_LIMIT = 4"

definition OrderType_of :: "32 word \<Rightarrow> OrderType option" where
  "OrderType_of w = map_of
     [(1, ORDER_TYPE_MARKET), (2, ORDER_TYPE_LIMIT), (3, ORDER_TYPE_STOP),
      (4, ORDER_TYPE_STOP_LIMIT)] w"

datatype OrderSide = ORDER_SIDE_BUY | ORDER_SIDE_SELL

primrec OrderSide_val :: "OrderSide \<Rightarrow> 32 word" where
  "OrderSide_val ORDER_SIDE_BUY = 1"
| "OrderSide_val ORDER_SIDE_SELL = 2"

definition OrderSide_of :: "32 word \<Rightarrow> OrderSide option" where
  "OrderSide_of w = map_of [(1, ORDER_SIDE_BUY), (2, ORDER_SIDE_SELL)] w"

datatype OrderStatus =
    ORDER_STATUS_NEW | ORDER_STATUS_PARTIAL | ORDER_STATUS_FILLED
  | ORDER_STATUS_CANCELLED | ORDER_STATUS_REJECTED

primrec OrderStatus_val :: "OrderStatus \<Rightarrow> 32 word" where
  "OrderStatus_val ORDER_STATUS_NEW = 1"
| "OrderStatus_val ORDER_STATUS_PARTIAL = 2"
| "OrderStatus_val ORDER_STATUS_FILLED = 3"
| "OrderStatus_val ORDER_STATUS_CANCELLED = 4"
| "OrderStatus_val ORDER_STATUS_REJECTED = 5"

definition OrderStatus_of :: "32 word \<Rightarrow> OrderStatus option" where
  "OrderStatus_of w = map_of
     [(1, ORDER_STATUS_NEW), (2, ORDER_STATUS_PARTIAL), (3, ORDER_STATUS_FILLED),
      (4, ORDER_STATUS_CANCELLED), (5, ORDER_STATUS_REJECTED)] w"

datatype TimeInForce = TIF_DAY | TIF_IOC | TIF_FOK | TIF_GTC

primrec TimeInForce_val :: "TimeInForce \<Rightarrow> 32 word" where
  "TimeInForce_val TIF_DAY = 1"
| "TimeInForce_val TIF_IOC = 2"
| "TimeInForce_val TIF_FOK = 3"
| "TimeInForce_val TIF_GTC = 4"

definition TimeInForce_of :: "32 word \<Rightarrow> TimeInForce option" where
  "TimeInForce_of w = map_of [(1, TIF_DAY), (2, TIF_IOC), (3, TIF_FOK), (4, TIF_GTC)] w"

section \<open>Structs\<close>

text \<open>\<open>char\<close> arrays are byte lists; \<open>time_t\<close> is a 64-bit integer.\<close>

record Price =
  mantissa :: "64 word"
  exponent :: "32 word"
  price_pad :: "32 word"

record Order =
  order_id :: "64 word"
  order_symbol :: "byte list"
  client_id :: "byte list"
  order_type :: "32 word"
  side :: "32 word"
  status :: "32 word"
  time_in_force :: "32 word"
  order_price :: Price
  quantity :: "32 word"
  filled_quantity :: "32 word"
  remaining_quantity :: "32 word"
  order_pad :: "32 word"
  creation_time :: "64 word"
  modification_time :: "64 word"
  expiration_time :: "64 word"

record MarketData =
  md_symbol :: "byte list"
  last_price :: Price
  bid :: Price
  ask :: Price
  last_size :: "32 word"
  bid_size :: "32 word"
  ask_size :: "32 word"
  md_pad1 :: "32 word"
  volume :: "64 word"
  num_trades :: "32 word"
  md_pad2 :: "32 word"
  md_timestamp :: "64 word"

record TradeExecution =
  trade_id :: "64 word"
  trade_order_id :: "64 word"
  trade_symbol :: "byte list"
  trade_price :: Price
  trade_quantity :: "32 word"
  trade_pad :: "32 word"
  trade_timestamp :: "64 word"
  buyer_id :: "byte list"
  seller_id :: "byte list"

text \<open>The member \<open>data\<close> of a message is a union of an order, market data, a trade and
  an error: 264 bytes of storage that every member overlays from its first byte.\<close>

record Message =
  msg_type :: "32 word"
  sequence_num :: "64 word"
  msg_timestamp :: "64 word"
  msg_data :: "byte list"

record MessageHeader =
  h_version :: "32 word"
  message_size :: "32 word"
  h_type :: "32 word"
  payload_size :: "32 word"
  h_checksum :: "32 word"

definition sizeof_Price :: nat where "sizeof_Price = 16"
definition sizeof_Order :: nat where "sizeof_Order = 128"
definition sizeof_MarketData :: nat where "sizeof_MarketData = 104"
definition sizeof_TradeExecution :: nat where "sizeof_TradeExecution = 128"
definition sizeof_MessageHeader :: nat where "sizeof_MessageHeader = 20"
definition sizeof_data :: nat where "sizeof_data = 264"

lemmas sizeof_defs =
  sizeof_Price_def sizeof_Order_def sizeof_MarketData_def sizeof_TradeExecution_def
  sizeof_MessageHeader_def sizeof_data_def

section \<open>Object representations\<close>

definition enc_Price :: "Price \<Rightarrow> byte list" where
  "enc_Price p = le_bytes 8 (mantissa p) @ le_bytes 4 (exponent p) @ le_bytes 4 (price_pad p)"

definition dec_Price :: "byte list \<Rightarrow> Price" where
  "dec_Price bs =
     \<lparr>mantissa = le_word (slice 0 8 bs), exponent = le_word (slice 8 4 bs),
      price_pad = le_word (slice 12 4 bs)\<rparr>"

definition enc_Order :: "Order \<Rightarrow> byte list" where
  "enc_Order x =
     le_bytes 8 (order_id x) @ order_symbol x @ client_id x @
     le_bytes 4 (order_type x) @ le_bytes 4 (side x) @ le_bytes 4 (status x) @
     le_bytes 4 (time_in_force x) @ enc_Price (order_price x) @
     le_bytes 4 (quantity x) @ le_bytes 4 (filled_quantity x) @
     le_bytes 4 (remaining_quantity x) @ le_bytes 4 (order_pad x) @
     le_bytes 8 (creation_time x) @ le_bytes 8 (modification_time x) @
     le_bytes 8 (expiration_time x)"

definition dec_Order :: "byte list \<Rightarrow> Order" where
  "dec_Order bs =
     \<lparr>order_id = le_word (slice 0 8 bs), order_symbol = slice 8 16 bs,
      client_id = slice 24 32 bs, order_type = le_word (slice 56 4 bs),
      side = le_word (slice 60 4 bs), status = le_word (slice 64 4 bs),
      time_in_force = le_word (slice 68 4 bs), order_price = dec_Price (slice 72 16 bs),
      quantity = le_word (slice 88 4 bs), filled_quantity = le_word (slice 92 4 bs),
      remaining_quantity = le_word (slice 96 4 bs), order_pad = le_word (slice 100 4 bs),
      creation_time = le_word (slice 104 8 bs), modification_time = le_word (slice 112 8 bs),
      expiration_time = le_word (slice 120 8 bs)\<rparr>"

definition enc_MarketData :: "MarketData \<Rightarrow> byte list" where
  "enc_MarketData x =
     md_symbol x @ enc_Price (last_price x) @ enc_Price (bid x) @ enc_Price (ask x) @
     le_bytes 4 (last_size x) @ le_bytes 4 (bid_size x) @ le_bytes 4 (ask_size x) @
     le_bytes 4 (md_pad1 x) @ le_bytes 8 (volume x) @ le_bytes 4 (num_trades x) @
     le_bytes 4 (md_pad2 x) @ le_bytes 8 (md_timestamp x)"

definition dec_MarketData :: "byte list \<Rightarrow> MarketData" where
  "dec_MarketData bs =
     \<lparr>md_symbol = slice 0 16 bs, last_price = dec_Price (slice 16 16 bs),
      bid = dec_Price (slice 32 16 bs), ask = dec_Price (slice 48 16 bs),
      last_size = le_word (slice 64 4 bs), bid_size = le_word (slice 68 4 bs),
      ask_size = le_word (slice 72 4 bs), md_pad1 = le_word (slice 76 4 bs),
      volume = le_word (slice 80 8 bs), num_trades = le_word (slice 88 4 bs),
      md_pad2 = le_word (slice 92 4 bs), md_timestamp = le_word (slice 96 8 bs)\<rparr>"

definition enc_TradeExecution :: "TradeExecution \<Rightarrow> byte list" where
  "enc_TradeExecution x =
     le_bytes 8 (trade_id x) @ le_bytes 8 (trade_order_id x) @ trade_symbol x @
     enc_Price (trade_price x) @ le_bytes 4 (trade_quantity x) @ le_bytes 4 (trade_pad x) @
     le_bytes 8 (trade_timestamp x) @ buyer_id x @ seller_id x"

definition dec_TradeExecution :: "byte list \<Rightarrow> TradeExecution" where
  "dec_TradeExecution bs =
     \<lparr>trade_id = le_word (slice 0 8 bs), trade_order_id = le_word (slice 8 8 bs),
      trade_symbol = slice 16 16 bs, trade_price = dec_Price (slice 32 16 bs),
      trade_quantity = le_word (slice 48 4 bs), trade_pad = le_word (slice 52 4 bs),
      trade_timestamp = le_word (slice 56 8 bs), buyer_id = slice 64 32 bs,
      seller_id = slice 96 32 bs\<rparr>"

definition enc_MessageHeader :: "MessageHeader \<Rightarrow> byte list" where
  "enc_MessageHeader h =
     le_bytes 4 (h_version h) @ le_bytes 4 (message_size h) @ le_bytes 4 (h_type h) @
     le_bytes 4 (payload_size h) @ le_bytes 4 (h_checksum h)"

definition dec_MessageHeader :: "byte list \<Rightarrow> MessageHeader" where
  "dec_MessageHeader bs =
     \<lparr>h_version = le_word (slice 0 4 bs), message_size = le_word (slice 4 4 bs),
      h_type = le_word (slice 8 4 bs), payload_size = le_word (slice 12 4 bs),
      h_checksum = le_word (slice 16 4 bs)\<rparr>"

text \<open>Well-formed values: the arrays have the length of their declaration.\<close>

definition wf_Order :: "Order \<Rightarrow> bool" where
  "wf_Order x \<longleftrightarrow> length (order_symbol x) = MAX_SYMBOL_LENGTH
     \<and> length (client_id x) = MAX_CLIENT_ID_LENGTH"

definition wf_MarketData :: "MarketData \<Rightarrow> bool" where
  "wf_MarketData x \<longleftrightarrow> length (md_symbol x) = MAX_SYMBOL_LENGTH"

definition wf_TradeExecution :: "TradeExecution \<Rightarrow> bool" where
  "wf_TradeExecution x \<longleftrightarrow> length (trade_symbol x) = MAX_SYMBOL_LENGTH
     \<and> length (buyer_id x) = MAX_CLIENT_ID_LENGTH \<and> length (seller_id x) = MAX_CLIENT_ID_LENGTH"

definition wf_Message :: "Message \<Rightarrow> bool" where
  "wf_Message m \<longleftrightarrow> length (msg_data m) = sizeof_data"

text \<open>The members of the union, and a message made by a designated initialiser
  (the storage it does not name is zero).\<close>

definition data_order :: "Message \<Rightarrow> Order" where
  "data_order m = dec_Order (take sizeof_Order (msg_data m))"

definition data_market_data :: "Message \<Rightarrow> MarketData" where
  "data_market_data m = dec_MarketData (take sizeof_MarketData (msg_data m))"

definition data_trade :: "Message \<Rightarrow> TradeExecution" where
  "data_trade m = dec_TradeExecution (take sizeof_TradeExecution (msg_data m))"

definition data_error_code :: "Message \<Rightarrow> 32 word" where
  "data_error_code m = le_word (slice 0 4 (msg_data m))"

definition data_error_message :: "Message \<Rightarrow> byte list" where
  "data_error_message m = slice 4 MAX_ERROR_MSG_LENGTH (msg_data m)"

definition init_data :: "byte list \<Rightarrow> byte list" where
  "init_data bs = bs @ replicate (sizeof_data - length bs) 0"

definition zero_Price :: Price where
  "zero_Price = dec_Price (replicate sizeof_Price 0)"

definition zero_Order :: Order where
  "zero_Order = dec_Order (replicate sizeof_Order 0)"

definition zero_MarketData :: MarketData where
  "zero_MarketData = dec_MarketData (replicate sizeof_MarketData 0)"

definition zero_TradeExecution :: TradeExecution where
  "zero_TradeExecution = dec_TradeExecution (replicate sizeof_TradeExecution 0)"

section \<open>The enumerations are enumerations\<close>

interpretation error_code: c_enum code_of ErrorCode_of
proof unfold_locales
  fix e show "ErrorCode_of (code_of e) = Some e"
    by (cases e) (simp_all add: ErrorCode_of_def)
next
  fix i e assume "ErrorCode_of i = Some e"
  then show "code_of e = i" by (auto simp: ErrorCode_of_def split: if_splits)
qed

interpretation message_type: c_enum MessageType_val MessageType_of
proof unfold_locales
  fix e show "MessageType_of (MessageType_val e) = Some e"
    by (cases e) (simp_all add: MessageType_of_def)
next
  fix i e assume "MessageType_of i = Some e"
  then show "MessageType_val e = i" by (auto simp: MessageType_of_def split: if_splits)
qed

interpretation order_type: c_enum OrderType_val OrderType_of
proof unfold_locales
  fix e show "OrderType_of (OrderType_val e) = Some e"
    by (cases e) (simp_all add: OrderType_of_def)
next
  fix i e assume "OrderType_of i = Some e"
  then show "OrderType_val e = i" by (auto simp: OrderType_of_def split: if_splits)
qed

interpretation order_side: c_enum OrderSide_val OrderSide_of
proof unfold_locales
  fix e show "OrderSide_of (OrderSide_val e) = Some e"
    by (cases e) (simp_all add: OrderSide_of_def)
next
  fix i e assume "OrderSide_of i = Some e"
  then show "OrderSide_val e = i" by (auto simp: OrderSide_of_def split: if_splits)
qed

interpretation order_status: c_enum OrderStatus_val OrderStatus_of
proof unfold_locales
  fix e show "OrderStatus_of (OrderStatus_val e) = Some e"
    by (cases e) (simp_all add: OrderStatus_of_def)
next
  fix i e assume "OrderStatus_of i = Some e"
  then show "OrderStatus_val e = i" by (auto simp: OrderStatus_of_def split: if_splits)
qed

interpretation time_in_force: c_enum TimeInForce_val TimeInForce_of
proof unfold_locales
  fix e show "TimeInForce_of (TimeInForce_val e) = Some e"
    by (cases e) (simp_all add: TimeInForce_of_def)
next
  fix i e assume "TimeInForce_of i = Some e"
  then show "TimeInForce_val e = i" by (auto simp: TimeInForce_of_def split: if_splits)
qed

section \<open>The object representations are codecs\<close>

lemma length_enc_Price [simp, layout_simps]: "length (enc_Price p) = 16"
  by (simp add: enc_Price_def)

lemma dec_enc_Price [simp, layout_simps]: "dec_Price (enc_Price p) = p"
  by (simp add: dec_Price_def enc_Price_def layout_simps)

lemma enc_dec_Price [layout_simps]: "length bs = 16 \<Longrightarrow> enc_Price (dec_Price bs) = bs"
  by (simp add: dec_Price_def enc_Price_def layout_simps)

interpretation price_codec: codec enc_Price dec_Price sizeof_Price "\<lambda>_. True"
  by unfold_locales (simp_all add: sizeof_defs layout_simps)

interpretation order_codec: codec enc_Order dec_Order sizeof_Order wf_Order
proof unfold_locales
  fix x assume wf: "wf_Order x"
  then show "length (enc_Order x) = sizeof_Order"
    by (simp add: enc_Order_def wf_Order_def size_constants sizeof_defs)
  from wf show "dec_Order (enc_Order x) = x"
    by (simp add: enc_Order_def dec_Order_def wf_Order_def size_constants layout_simps)
next
  fix bs :: "byte list" assume len: "length bs = sizeof_Order"
  then show "wf_Order (dec_Order bs)"
    by (simp add: dec_Order_def wf_Order_def size_constants sizeof_defs layout_simps)
  from len show "enc_Order (dec_Order bs) = bs"
    by (simp add: enc_Order_def dec_Order_def sizeof_defs layout_simps)
qed

interpretation market_data_codec: codec enc_MarketData dec_MarketData sizeof_MarketData wf_MarketData
proof unfold_locales
  fix x assume wf: "wf_MarketData x"
  then show "length (enc_MarketData x) = sizeof_MarketData"
    by (simp add: enc_MarketData_def wf_MarketData_def size_constants sizeof_defs)
  from wf show "dec_MarketData (enc_MarketData x) = x"
    by (simp add: enc_MarketData_def dec_MarketData_def wf_MarketData_def size_constants layout_simps)
next
  fix bs :: "byte list" assume len: "length bs = sizeof_MarketData"
  then show "wf_MarketData (dec_MarketData bs)"
    by (simp add: dec_MarketData_def wf_MarketData_def size_constants sizeof_defs layout_simps)
  from len show "enc_MarketData (dec_MarketData bs) = bs"
    by (simp add: enc_MarketData_def dec_MarketData_def sizeof_defs layout_simps)
qed

interpretation trade_codec:
  codec enc_TradeExecution dec_TradeExecution sizeof_TradeExecution wf_TradeExecution
proof unfold_locales
  fix x assume wf: "wf_TradeExecution x"
  then show "length (enc_TradeExecution x) = sizeof_TradeExecution"
    by (simp add: enc_TradeExecution_def wf_TradeExecution_def size_constants sizeof_defs)
  from wf show "dec_TradeExecution (enc_TradeExecution x) = x"
    by (simp add: enc_TradeExecution_def dec_TradeExecution_def wf_TradeExecution_def
        size_constants layout_simps)
next
  fix bs :: "byte list" assume len: "length bs = sizeof_TradeExecution"
  then show "wf_TradeExecution (dec_TradeExecution bs)"
    by (simp add: dec_TradeExecution_def wf_TradeExecution_def size_constants sizeof_defs
        layout_simps)
  from len show "enc_TradeExecution (dec_TradeExecution bs) = bs"
    by (simp add: enc_TradeExecution_def dec_TradeExecution_def sizeof_defs layout_simps)
qed

interpretation header_codec:
  codec enc_MessageHeader dec_MessageHeader sizeof_MessageHeader "\<lambda>_. True"
  by unfold_locales
    (simp_all add: enc_MessageHeader_def dec_MessageHeader_def sizeof_defs layout_simps)

end
