(* ===== verification/Serialization.thy ===== *)
theory Serialization
  imports Types
begin

text \<open>
  \<open>src/serialization/serialization.c\<close>: the wire format, a 20-byte header followed by
  the object representation of the payload struct, with a multiplicative checksum.

  Pointers that the code tests against NULL are options. A buffer is the list of
  bytes of the whole array the pointer refers to; \<open>buffer_size\<close> is the argument of
  that name (a \<open>size_t\<close>; no sum of it can overflow, so it is a \<^typ>\<open>nat\<close>). The
  outer option is \<^term>\<open>None\<close> for undefined behaviour (an access outside the array).
\<close>

section \<open>Definitions\<close>

definition SERIALIZATION_VERSION :: "32 word" where "SERIALIZATION_VERSION = 1"
definition MAX_MESSAGE_SIZE :: "32 word" where "MAX_MESSAGE_SIZE = 8192"

datatype SerializationError =
    SERIAL_SUCCESS | SERIAL_ERROR_BUFFER_OVERFLOW | SERIAL_ERROR_INVALID_VERSION
  | SERIAL_ERROR_INVALID_TYPE | SERIAL_ERROR_CHECKSUM | SERIAL_ERROR_INCOMPLETE
  | SERIAL_ERROR_INVALID_MESSAGE

primrec serial_code :: "SerializationError \<Rightarrow> int" where
  "serial_code SERIAL_SUCCESS = 0"
| "serial_code SERIAL_ERROR_BUFFER_OVERFLOW = -1"
| "serial_code SERIAL_ERROR_INVALID_VERSION = -2"
| "serial_code SERIAL_ERROR_INVALID_TYPE = -3"
| "serial_code SERIAL_ERROR_CHECKSUM = -4"
| "serial_code SERIAL_ERROR_INCOMPLETE = -5"
| "serial_code SERIAL_ERROR_INVALID_MESSAGE = -6"

definition SerializationError_of :: "int \<Rightarrow> SerializationError option" where
  "SerializationError_of i = map_of
     [(0, SERIAL_SUCCESS), (-1, SERIAL_ERROR_BUFFER_OVERFLOW),
      (-2, SERIAL_ERROR_INVALID_VERSION), (-3, SERIAL_ERROR_INVALID_TYPE),
      (-4, SERIAL_ERROR_CHECKSUM), (-5, SERIAL_ERROR_INCOMPLETE),
      (-6, SERIAL_ERROR_INVALID_MESSAGE)] i"

text \<open>The loop of \<open>calculate_checksum\<close> from position \<open>data\<close> with \<open>size\<close> iterations left.\<close>

fun checksum_loop :: "byte list \<Rightarrow> nat \<Rightarrow> 32 word \<Rightarrow> 32 word option" where
  "checksum_loop data 0 checksum = Some checksum"
| "checksum_loop [] (Suc n) checksum = None"
| "checksum_loop (d # data) (Suc n) checksum =
     checksum_loop data n ((push_bit 5 checksum + checksum) + ucast d)"

definition calculate_checksum :: "byte list \<Rightarrow> nat \<Rightarrow> 32 word option" where
  "calculate_checksum data n = checksum_loop data n 0"

definition validate_message_header :: "MessageHeader option \<Rightarrow> int" where
  "validate_message_header header =
     (case header of
        None \<Rightarrow> serial_code SERIAL_ERROR_INVALID_MESSAGE
      | Some h \<Rightarrow>
          if h_version h \<noteq> SERIALIZATION_VERSION
          then serial_code SERIAL_ERROR_INVALID_VERSION
          else if unat (message_size h) < sizeof_MessageHeader
          then serial_code SERIAL_ERROR_INVALID_MESSAGE
          else if message_size h > MAX_MESSAGE_SIZE
          then serial_code SERIAL_ERROR_BUFFER_OVERFLOW
          else serial_code SERIAL_SUCCESS)"

text \<open>One branch of the switch of \<open>serialize_message\<close>, for a payload struct of \<open>psize\<close>
  bytes, and the code after the switch.\<close>

definition serialize_payload :: "nat \<Rightarrow> Message \<Rightarrow> byte list \<Rightarrow> nat \<Rightarrow> (int \<times> byte list option) option" where
  "serialize_payload psize m buf buffer_size =
     (if sizeof_MessageHeader + psize > buffer_size
      then Some (serial_code SERIAL_ERROR_BUFFER_OVERFLOW, Some buf)
      else do {
        buf1 \<leftarrow> store_at sizeof_MessageHeader (take psize (msg_data m)) buf;
        csum \<leftarrow> calculate_checksum (drop sizeof_MessageHeader buf1) psize;
        let header =
          \<lparr>h_version = SERIALIZATION_VERSION,
           message_size = of_nat (sizeof_MessageHeader + psize),
           h_type = msg_type m, payload_size = of_nat psize, h_checksum = csum\<rparr>;
        buf2 \<leftarrow> store_at 0 (enc_MessageHeader header) buf1;
        Some (sint (message_size header), Some buf2) })"

definition serialize_message :: "Message option \<Rightarrow> byte list option \<Rightarrow> nat \<Rightarrow> (int \<times> byte list option) option" where
  "serialize_message msg buffer buffer_size =
     (case (msg, buffer) of
        (Some m, Some buf) \<Rightarrow>
          if buffer_size < sizeof_MessageHeader
          then Some (serial_code SERIAL_ERROR_BUFFER_OVERFLOW, buffer)
          else
            (case MessageType_of (msg_type m) of
               Some MSG_ORDER_NEW \<Rightarrow> serialize_payload sizeof_Order m buf buffer_size
             | Some MSG_ORDER_MODIFY \<Rightarrow> serialize_payload sizeof_Order m buf buffer_size
             | Some MSG_ORDER_CANCEL \<Rightarrow> serialize_payload sizeof_Order m buf buffer_size
             | Some MSG_MARKET_DATA \<Rightarrow> serialize_payload sizeof_MarketData m buf buffer_size
             | Some MSG_TRADE_EXEC \<Rightarrow> serialize_payload sizeof_TradeExecution m buf buffer_size
             | _ \<Rightarrow> Some (serial_code SERIAL_ERROR_INVALID_TYPE, buffer))
      | _ \<Rightarrow> Some (serial_code SERIAL_ERROR_BUFFER_OVERFLOW, buffer))"

text \<open>One branch of the switch of \<open>deserialize_message\<close>.\<close>

definition deserialize_payload :: "nat \<Rightarrow> MessageHeader \<Rightarrow> byte list \<Rightarrow> Message \<Rightarrow> (int \<times> Message option) option" where
  "deserialize_payload psize header buf m =
     (if unat (payload_size header) \<noteq> psize
      then Some (serial_code SERIAL_ERROR_INVALID_MESSAGE, Some m)
      else do {
        payload \<leftarrow> load_at sizeof_MessageHeader psize buf;
        data' \<leftarrow> store_at 0 payload (msg_data m);
        Some (serial_code SERIAL_SUCCESS, Some (m\<lparr>msg_data := data'\<rparr>)) })"

definition deserialize_message :: "byte list option \<Rightarrow> nat \<Rightarrow> Message option \<Rightarrow> (int \<times> Message option) option" where
  "deserialize_message buffer buffer_size msg =
     (case (buffer, msg) of
        (Some buf, Some m) \<Rightarrow>
          if buffer_size < sizeof_MessageHeader
          then Some (serial_code SERIAL_ERROR_INCOMPLETE, msg)
          else do {
            hbytes \<leftarrow> load_at 0 sizeof_MessageHeader buf;
            let header = dec_MessageHeader hbytes;
            if validate_message_header (Some header) \<noteq> serial_code SERIAL_SUCCESS
            then Some (serial_code SERIAL_ERROR_INVALID_MESSAGE, msg)
            else if buffer_size < unat (message_size header)
            then Some (serial_code SERIAL_ERROR_INCOMPLETE, msg)
            else do {
              calc_checksum \<leftarrow> calculate_checksum (drop sizeof_MessageHeader buf)
                (unat (payload_size header));
              if calc_checksum \<noteq> h_checksum header
              then Some (serial_code SERIAL_ERROR_CHECKSUM, msg)
              else
                let m1 = m\<lparr>msg_type := h_type header\<rparr> in
                (case MessageType_of (msg_type m1) of
                   Some MSG_ORDER_NEW \<Rightarrow> deserialize_payload sizeof_Order header buf m1
                 | Some MSG_ORDER_MODIFY \<Rightarrow> deserialize_payload sizeof_Order header buf m1
                 | Some MSG_ORDER_CANCEL \<Rightarrow> deserialize_payload sizeof_Order header buf m1
                 | Some MSG_MARKET_DATA \<Rightarrow> deserialize_payload sizeof_MarketData header buf m1
                 | Some MSG_TRADE_EXEC \<Rightarrow> deserialize_payload sizeof_TradeExecution header buf m1
                 | _ \<Rightarrow> Some (serial_code SERIAL_ERROR_INVALID_TYPE, Some m1)) } }
      | _ \<Rightarrow> Some (serial_code SERIAL_ERROR_INCOMPLETE, msg))"

definition get_serialization_error :: "int \<Rightarrow> string" where
  "get_serialization_error error =
     (case SerializationError_of error of
        Some SERIAL_SUCCESS \<Rightarrow> ''Success''
      | Some SERIAL_ERROR_BUFFER_OVERFLOW \<Rightarrow> ''Buffer overflow''
      | Some SERIAL_ERROR_INVALID_VERSION \<Rightarrow> ''Invalid version''
      | Some SERIAL_ERROR_INVALID_TYPE \<Rightarrow> ''Invalid message type''
      | Some SERIAL_ERROR_CHECKSUM \<Rightarrow> ''Checksum mismatch''
      | Some SERIAL_ERROR_INCOMPLETE \<Rightarrow> ''Incomplete message''
      | Some SERIAL_ERROR_INVALID_MESSAGE \<Rightarrow> ''Invalid message format''
      | None \<Rightarrow> ''Unknown error'')"

section \<open>Specification\<close>

text \<open>What the two routines promise, without buffers: the payload length of a type, the
  checksum as a polynomial in 33, and the wire image of a message.\<close>

definition payload_len :: "32 word \<Rightarrow> nat option" where
  "payload_len t =
     (if t = MessageType_val MSG_ORDER_NEW \<or> t = MessageType_val MSG_ORDER_MODIFY
         \<or> t = MessageType_val MSG_ORDER_CANCEL then Some 128
      else if t = MessageType_val MSG_MARKET_DATA then Some 104
      else if t = MessageType_val MSG_TRADE_EXEC then Some 128
      else None)"

primrec checksum_poly :: "byte list \<Rightarrow> 32 word" where
  "checksum_poly [] = 0"
| "checksum_poly (b # bs) = ucast b * 33 ^ length bs + checksum_poly bs"

definition header_for :: "32 word \<Rightarrow> byte list \<Rightarrow> MessageHeader" where
  "header_for t payload =
     \<lparr>h_version = SERIALIZATION_VERSION, message_size = of_nat (20 + length payload),
      h_type = t, payload_size = of_nat (length payload),
      h_checksum = checksum_poly payload\<rparr>"

definition frame :: "32 word \<Rightarrow> byte list \<Rightarrow> byte list" where
  "frame t payload = enc_MessageHeader (header_for t payload) @ payload"

definition wire :: "Message \<Rightarrow> byte list option" where
  "wire m = map_option (\<lambda>n. frame (msg_type m) (take n (msg_data m))) (payload_len (msg_type m))"

section \<open>The checksum\<close>

interpretation serial_error: c_enum serial_code SerializationError_of
proof unfold_locales
  fix e show "SerializationError_of (serial_code e) = Some e"
    by (cases e) (simp_all add: SerializationError_of_def)
next
  fix i e assume "SerializationError_of i = Some e"
  then show "serial_code e = i" by (auto simp: SerializationError_of_def split: if_splits)
qed

lemma checksum_loop_poly:
  "checksum_loop data n c =
     (if n \<le> length data then Some (c * 33 ^ n + checksum_poly (take n data)) else None)"
  by (induction data n c rule: checksum_loop.induct)
    (auto simp: push_bit_eq_mult algebra_simps)

lemma calculate_checksum_poly:
  "calculate_checksum data n =
     (if n \<le> length data then Some (checksum_poly (take n data)) else None)"
  by (simp add: calculate_checksum_def checksum_loop_poly)

lemma checksum_poly_append:
  "checksum_poly (xs @ ys) = checksum_poly xs * 33 ^ length ys + checksum_poly ys"
  by (induction xs) (auto simp: algebra_simps power_add)

text \<open>33 is a unit modulo \<open>2 ^ 32\<close>, so multiplying by a power of it loses nothing.\<close>

lemma inverse_33: "(33 :: 32 word) * 1041204193 = 1"
  by simp

lemma mult_power_33_cancel: "a * 33 ^ k = b * 33 ^ k \<longleftrightarrow> a = (b :: 32 word)"
proof
  assume eq: "a * 33 ^ k = b * 33 ^ k"
  have unit: "33 ^ k * 1041204193 ^ k = (1 :: 32 word)"
    by (simp only: power_mult_distrib [symmetric] inverse_33 power_one)
  from eq have "a * 33 ^ k * 1041204193 ^ k = b * 33 ^ k * 1041204193 ^ k"
    by simp
  then show "a = b"
    by (simp only: mult.assoc unit mult_1_right)
qed simp

lemma unat_ucast_byte: "unat (ucast (b :: byte) :: 32 word) = unat b"
  using unat_byte_less [of b] by (simp add: unsigned_ucast_eq take_bit_eq_mod)

lemma ucast_byte_inject: "(ucast (a :: byte) :: 32 word) = ucast b \<longleftrightarrow> a = b"
  by (metis unat_ucast_byte word_unat_eq_iff)

lemma checksum_poly_single_byte:
  "a \<noteq> b \<Longrightarrow> checksum_poly (xs @ a # ys) \<noteq> checksum_poly (xs @ b # ys)"
  by (simp add: checksum_poly_append mult_power_33_cancel ucast_byte_inject)

lemma checksum_poly_swap:
  assumes "a \<noteq> b"
  shows "checksum_poly (xs @ a # b # ys) \<noteq> checksum_poly (xs @ b # a # ys)"
proof
  assume "checksum_poly (xs @ a # b # ys) = checksum_poly (xs @ b # a # ys)"
  then have "(ucast a * 33 + ucast b) * 33 ^ length ys
      = (ucast b * 33 + ucast a :: 32 word) * 33 ^ length ys"
    by (simp add: checksum_poly_append algebra_simps)
  then have "ucast a * 33 + ucast b = (ucast b * 33 + ucast a :: 32 word)"
    by (simp only: mult_power_33_cancel)
  then have "unat (ucast a * 33 + ucast b :: 32 word) = unat (ucast b * 33 + ucast a :: 32 word)"
    by (rule arg_cong)
  then have "33 * unat a + unat b = 33 * unat b + unat a"
    using unat_byte_less [of a] unat_byte_less [of b]
    by (simp add: unat_word_ariths unat_ucast_byte)
  then have "unat a = unat b" by simp
  with assms show False by (simp add: word_unat_eq_iff)
qed

section \<open>Headers and frames\<close>

lemma length_enc_MessageHeader [simp]: "length (enc_MessageHeader h) = 20"
  by (simp add: enc_MessageHeader_def)

lemma length_frame [simp]: "length (frame t p) = 20 + length p"
  by (simp add: frame_def)

lemma payload_len_cases: "payload_len t = Some n \<Longrightarrow> n = 104 \<or> n = 128"
  by (auto simp: payload_len_def split: if_splits)

lemma payload_len_MessageType_val:
  "payload_len (MessageType_val t) =
     (case t of MSG_ORDER_NEW \<Rightarrow> Some 128 | MSG_ORDER_MODIFY \<Rightarrow> Some 128
      | MSG_ORDER_CANCEL \<Rightarrow> Some 128 | MSG_MARKET_DATA \<Rightarrow> Some 104
      | MSG_TRADE_EXEC \<Rightarrow> Some 128 | _ \<Rightarrow> None)"
  by (cases t) (simp_all add: payload_len_def)

text \<open>The switch over the message type, once and for all.\<close>

lemma switch_payload:
  "(case MessageType_of t of
      Some MSG_ORDER_NEW \<Rightarrow> f sizeof_Order
    | Some MSG_ORDER_MODIFY \<Rightarrow> f sizeof_Order
    | Some MSG_ORDER_CANCEL \<Rightarrow> f sizeof_Order
    | Some MSG_MARKET_DATA \<Rightarrow> f sizeof_MarketData
    | Some MSG_TRADE_EXEC \<Rightarrow> f sizeof_TradeExecution
    | _ \<Rightarrow> d)
   = (case payload_len t of None \<Rightarrow> d | Some n \<Rightarrow> f n)"
proof (cases "MessageType_of t")
  case None
  then have "t \<notin> range MessageType_val"
    by (simp add: message_type.of_val_None_iff)
  then have "payload_len t = None"
    by (auto simp: payload_len_def simp del: MessageType_val.simps)
  with None show ?thesis by simp
next
  case (Some e)
  then have "t = MessageType_val e" by (simp add: message_type.of_val_Some_iff)
  with Some show ?thesis
    by (cases e) (simp_all add: payload_len_def sizeof_defs)
qed

lemma serialize_payload_frame:
  assumes "length (msg_data m) = sizeof_data" "payload_len t = Some n" "buffer_size \<le> length buf"
  shows "serialize_payload n m buf buffer_size =
    (if buffer_size < 20 + n then Some (-1, Some buf)
     else Some (int (20 + n), Some (frame (msg_type m) (take n (msg_data m)) @ drop (20 + n) buf)))"
proof (cases "buffer_size < 20 + n")
  case True
  then show ?thesis by (simp add: serialize_payload_def sizeof_defs)
next
  case False
  let ?p = "take n (msg_data m)"
  from assms(2) have n: "n = 104 \<or> n = 128" by (rule payload_len_cases)
  then have len: "length ?p = n" using assms(1) by (auto simp: sizeof_defs)
  have st: "store_at 20 ?p buf = Some (take 20 buf @ ?p @ drop (20 + n) buf)"
    using False assms(3) len by (simp add: store_at_def)
  have sz: "sint (20 + word_of_nat n :: 32 word) = 20 + int n"
    using n by auto
  show ?thesis
    using False assms(3) len
    by (simp add: serialize_payload_def sizeof_defs st calculate_checksum_poly store_at_def
        frame_def header_for_def Let_def sz)
qed

lemma serialize_message_wire:
  assumes "wf_Message m" "buffer_size \<le> length buf"
  shows "serialize_message (Some m) (Some buf) buffer_size =
    (if buffer_size < 20 then Some (-1, Some buf)
     else case wire m of
        None \<Rightarrow> Some (-3, Some buf)
      | Some w \<Rightarrow> if buffer_size < length w then Some (-1, Some buf)
                 else Some (int (length w), Some (w @ drop (length w) buf)))"
proof -
  have "serialize_message (Some m) (Some buf) buffer_size =
    (if buffer_size < 20 then Some (-1, Some buf)
     else case payload_len (msg_type m) of None \<Rightarrow> Some (-3, Some buf)
        | Some n \<Rightarrow> serialize_payload n m buf buffer_size)"
    by (simp add: serialize_message_def sizeof_MessageHeader_def
        switch_payload [where f = "\<lambda>n. serialize_payload n m buf buffer_size"]
        split: option.split)
  also have "\<dots> = (if buffer_size < 20 then Some (-1, Some buf)
     else case wire m of
        None \<Rightarrow> Some (-3, Some buf)
      | Some w \<Rightarrow> if buffer_size < length w then Some (-1, Some buf)
                 else Some (int (length w), Some (w @ drop (length w) buf)))"
  proof (cases "payload_len (msg_type m)")
    case None
    then show ?thesis by (simp add: wire_def)
  next
    case (Some n)
    have "length (msg_data m) = sizeof_data" using assms(1) by (simp add: wf_Message_def)
    moreover from this have "length (take n (msg_data m)) = n"
      using payload_len_cases [OF Some] by (auto simp: sizeof_defs)
    ultimately show ?thesis
      using assms(2) Some by (simp add: wire_def serialize_payload_frame [of m "msg_type m"])
  qed
  finally show ?thesis .
qed

lemma deserialize_message_framed:
  assumes "20 \<le> buffer_size"
  shows "deserialize_message (Some (enc_MessageHeader h @ body)) buffer_size (Some m) =
    (if validate_message_header (Some h) \<noteq> 0 then Some (-6, Some m)
     else if buffer_size < unat (message_size h) then Some (-5, Some m)
     else if length body < unat (payload_size h) then None
     else if checksum_poly (take (unat (payload_size h)) body) \<noteq> h_checksum h
     then Some (-4, Some m)
     else let m1 = m\<lparr>msg_type := h_type h\<rparr> in
       (case payload_len (h_type h) of None \<Rightarrow> Some (-3, Some m1)
        | Some n \<Rightarrow> deserialize_payload n h (enc_MessageHeader h @ body) m1))"
proof -
  have "load_at 0 20 (enc_MessageHeader h @ body) = Some (enc_MessageHeader h)"
    by (simp add: load_at_def slice_def)
  moreover have "dec_MessageHeader (enc_MessageHeader h) = h"
    by (simp add: header_codec.dec_enc)
  ultimately show ?thesis
    using assms
    by (auto simp: deserialize_message_def sizeof_MessageHeader_def calculate_checksum_poly Let_def
        switch_payload [where f = "\<lambda>n. deserialize_payload n (dec_MessageHeader (enc_MessageHeader h))
          (enc_MessageHeader h @ body) (m\<lparr>msg_type := h_type h\<rparr>)"] split: option.split)
qed

lemma deserialize_payload_body:
  assumes "length (msg_data m) = sizeof_data" "n \<le> 128" "n \<le> length body"
  shows "deserialize_payload n h (enc_MessageHeader h @ body) m =
    (if unat (payload_size h) \<noteq> n then Some (-6, Some m)
     else Some (0, Some (m\<lparr>msg_data := take n body @ drop n (msg_data m)\<rparr>)))"
  using assms
  by (auto simp: deserialize_payload_def sizeof_defs load_at_def store_at_def slice_def)

lemma header_for_valid:
  assumes "payload_len t = Some (length p)"
  shows "validate_message_header (Some (header_for t' p)) = 0"
    and "unat (message_size (header_for t' p)) = 20 + length p"
    and "unat (payload_size (header_for t' p)) = length p"
  using payload_len_cases [OF assms]
  by (auto simp: validate_message_header_def header_for_def sizeof_defs SERIALIZATION_VERSION_def
      MAX_MESSAGE_SIZE_def)

lemma deserialize_frame:
  assumes "payload_len t = Some (length p)" "20 + length p \<le> buffer_size" "wf_Message m"
  shows "deserialize_message (Some (frame t p @ rest)) buffer_size (Some m) =
    Some (0, Some (m\<lparr>msg_type := t, msg_data := p @ drop (length p) (msg_data m)\<rparr>))"
proof -
  have "length p \<le> 128" using payload_len_cases [OF assms(1)] by auto
  then have "deserialize_payload (length p) (header_for t p)
      (enc_MessageHeader (header_for t p) @ p @ rest) (m\<lparr>msg_type := t\<rparr>)
    = Some (0, Some (m\<lparr>msg_type := t, msg_data := p @ drop (length p) (msg_data m)\<rparr>))"
    using assms(3) header_for_valid(3) [OF assms(1), of t]
    by (simp add: deserialize_payload_body wf_Message_def)
  then show ?thesis
    using assms header_for_valid [OF assms(1), of t]
    by (simp add: frame_def deserialize_message_framed Let_def header_for_def)
qed

lemma length_wire: "wf_Message m \<Longrightarrow> wire m = Some w \<Longrightarrow>
    \<exists>n. payload_len (msg_type m) = Some n \<and> length w = 20 + n \<and> w = frame (msg_type m) (take n (msg_data m))"
  using payload_len_cases by (fastforce simp: wire_def wf_Message_def sizeof_defs)

lemma deserialize_wire:
  assumes "wf_Message m" "wf_Message m0" "wire m = Some w" "payload_len (msg_type m) = Some n"
  shows "deserialize_message (Some (w @ rest)) (length w) (Some m0) =
    Some (0, Some (m0\<lparr>msg_type := msg_type m,
      msg_data := take n (msg_data m) @ drop n (msg_data m0)\<rparr>))"
proof -
  from assms(1,4) have len: "length (take n (msg_data m)) = n"
    using payload_len_cases [OF assms(4)] by (auto simp: wf_Message_def sizeof_defs)
  then have "deserialize_message (Some (frame (msg_type m) (take n (msg_data m)) @ rest)) (20 + n) (Some m0)
    = Some (0, Some (m0\<lparr>msg_type := msg_type m,
        msg_data := take n (msg_data m) @ drop n (msg_data m0)\<rparr>))"
    using assms(2,4) deserialize_frame [of "msg_type m" "take n (msg_data m)" "20 + n" m0 rest]
    by simp
  with assms(3,4) len show ?thesis by (auto simp: wire_def)
qed

text \<open>The bytes of a buffer after its header, and the header in front of them.\<close>

lemma split_header:
  "20 \<le> length buf \<Longrightarrow> buf = enc_MessageHeader (dec_MessageHeader (take 20 buf)) @ drop 20 buf"
  using header_codec.enc_dec [of "take 20 buf"] by (simp add: sizeof_defs)

lemma deserialize_success:
  assumes "deserialize_message (Some buf) buffer_size (Some m) = Some (0, Some m')"
  shows "\<exists>n. payload_len (msg_type m') = Some n \<and> 20 \<le> buffer_size \<and> 20 + n \<le> length buf
    \<and> m' = m\<lparr>msg_type := h_type (dec_MessageHeader (take 20 buf)),
             msg_data := slice 20 n buf @ drop n (msg_data m)\<rparr>"
proof -
  from assms have bs: "20 \<le> buffer_size"
    by (auto simp: deserialize_message_def sizeof_defs split: if_splits)
  from assms bs have len: "20 \<le> length buf"
    by (auto simp: deserialize_message_def sizeof_defs load_at_def split: if_splits)
  define h where "h = dec_MessageHeader (take 20 buf)"
  define body where "body = drop 20 buf"
  have buf: "buf = enc_MessageHeader h @ body"
    using split_header [OF len] by (simp add: h_def body_def)
  from assms obtain n where n: "payload_len (h_type h) = Some n"
    and d: "deserialize_payload n h (enc_MessageHeader h @ body) (m\<lparr>msg_type := h_type h\<rparr>) = Some (0, Some m')"
    by (auto simp: buf deserialize_message_framed [OF bs] Let_def split: if_splits option.splits)
  from d show ?thesis
    using n bs unfolding h_def [symmetric]
    by (auto simp: deserialize_payload_def sizeof_defs load_at_def store_at_def buf length_slice
        bind_eq_Some_conv split: if_splits intro!: exI [of _ n])
qed

lemma deserialize_keeps_wf:
  assumes "deserialize_message (Some buf) buffer_size (Some m) = Some (r, Some m')" "wf_Message m"
  shows "wf_Message m'"
  using assms
  by (auto simp: deserialize_message_def deserialize_payload_def wf_Message_def Let_def
      bind_eq_Some_conv dest!: length_store_at split: if_splits option.splits MessageType.splits)

section \<open>The transport interface\<close>

text \<open>
  What the server and the client rely on: a message either has a wire image, which
  \<open>ser\<close> puts at the front of a buffer of \<open>BUFFER_SIZE\<close> bytes, or \<open>ser\<close> reports an error;
  \<open>deser\<close> recovers type and payload from a wire image and leaves the other members of the
  destination alone, and delivers no other kinds of message.
\<close>

locale transport =
  fixes ser :: "Message option \<Rightarrow> byte list option \<Rightarrow> nat \<Rightarrow> (int \<times> byte list option) option"
    and deser :: "byte list option \<Rightarrow> nat \<Rightarrow> Message option \<Rightarrow> (int \<times> Message option) option"
    and img :: "Message \<Rightarrow> byte list option"
    and plen :: "32 word \<Rightarrow> nat option"
  assumes img_None_iff: "img m = None \<longleftrightarrow> plen (msg_type m) = None"
    and img_length: "wf_Message m \<Longrightarrow> img m = Some w \<Longrightarrow> 0 < length w \<and> length w \<le> BUFFER_SIZE"
    and ser_None: "wf_Message m \<Longrightarrow> img m = None \<Longrightarrow> length buf = BUFFER_SIZE \<Longrightarrow>
      \<exists>r < 0. ser (Some m) (Some buf) BUFFER_SIZE = Some (r, Some buf)"
    and ser_Some: "wf_Message m \<Longrightarrow> img m = Some w \<Longrightarrow> length buf = BUFFER_SIZE \<Longrightarrow>
      ser (Some m) (Some buf) BUFFER_SIZE = Some (int (length w), Some (w @ drop (length w) buf))"
    and deser_img: "wf_Message m \<Longrightarrow> wf_Message m0 \<Longrightarrow> img m = Some w \<Longrightarrow>
      plen (msg_type m) = Some n \<Longrightarrow>
      deser (Some (w @ rest)) (length w) (Some m0) = Some (0, Some (m0\<lparr>msg_type := msg_type m,
        msg_data := take n (msg_data m) @ drop n (msg_data m0)\<rparr>))"
    and deser_type: "deser (Some buf) k (Some m) = Some (0, Some m') \<Longrightarrow> plen (msg_type m') \<noteq> None"
begin

lemma ser_total:
  assumes "wf_Message m" "length buf = BUFFER_SIZE"
  obtains r buf' where "ser (Some m) (Some buf) BUFFER_SIZE = Some (r, Some buf')"
    "length buf' = BUFFER_SIZE" "0 \<le> r \<longleftrightarrow> img m \<noteq> None" "0 \<le> r \<Longrightarrow> img m = Some (take (nat r) buf')"
proof (cases "img m")
  case None
  with ser_None [OF assms(1) _ assms(2)] obtain r
    where "r < 0" "ser (Some m) (Some buf) BUFFER_SIZE = Some (r, Some buf)" by blast
  then show ?thesis using that [of r buf] assms(2) None by simp
next
  case (Some w)
  then show ?thesis
    using that [OF ser_Some [OF assms(1) Some assms(2)]] img_length [OF assms(1) Some] assms(2)
    by simp
qed

end

interpretation tp: transport serialize_message deserialize_message wire payload_len
proof unfold_locales
  fix m show "wire m = None \<longleftrightarrow> payload_len (msg_type m) = None"
    by (simp add: wire_def)
next
  fix m w assume "wf_Message m" "wire m = Some w"
  then obtain n where n: "payload_len (msg_type m) = Some n" "length w = 20 + n"
    using length_wire by blast
  from payload_len_cases [OF n(1)] n(2) show "0 < length w \<and> length w \<le> BUFFER_SIZE"
    by (auto simp: BUFFER_SIZE_def)
next
  fix m and buf :: "byte list"
  assume "wf_Message m" "wire m = None" "length buf = BUFFER_SIZE"
  then show "\<exists>r < 0. serialize_message (Some m) (Some buf) BUFFER_SIZE = Some (r, Some buf)"
    by (simp add: serialize_message_wire)
next
  fix m w and buf :: "byte list"
  assume a: "wf_Message m" "wire m = Some w" "length buf = BUFFER_SIZE"
  then have "length w \<le> BUFFER_SIZE"
    using length_wire [OF a(1,2)] payload_len_cases by (force simp: BUFFER_SIZE_def)
  with a show "serialize_message (Some m) (Some buf) BUFFER_SIZE
      = Some (int (length w), Some (w @ drop (length w) buf))"
    by (simp add: serialize_message_wire BUFFER_SIZE_def)
next
  fix m m0 w n rest
  assume "wf_Message m" "wf_Message m0" "wire m = Some w" "payload_len (msg_type m) = Some n"
  then show "deserialize_message (Some (w @ rest)) (length w) (Some m0) =
    Some (0, Some (m0\<lparr>msg_type := msg_type m,
      msg_data := take n (msg_data m) @ drop n (msg_data m0)\<rparr>))"
    by (rule deserialize_wire)
next
  fix buf k m m'
  assume "deserialize_message (Some buf) k (Some m) = Some (0, Some m')"
  then show "payload_len (msg_type m') \<noteq> None" using deserialize_success by fastforce
qed

lemma serialize_then_deserialize:
  assumes "wf_Message m" "wf_Message m0"
    and "payload_len (msg_type m) = Some n" "20 + n \<le> buffer_size" "buffer_size \<le> length buf"
  shows "\<exists>buf'. serialize_message (Some m) (Some buf) buffer_size = Some (int (20 + n), Some buf')
    \<and> deserialize_message (Some buf') (20 + n) (Some m0) = Some (0, Some (m0\<lparr>msg_type := msg_type m,
        msg_data := take n (msg_data m) @ drop n (msg_data m0)\<rparr>))"
proof -
  from assms(3) obtain w where w: "wire m = Some w" by (auto simp: wire_def)
  then have len: "length w = 20 + n" using length_wire assms(1,3) by fastforce
  have "serialize_message (Some m) (Some buf) buffer_size
      = Some (int (20 + n), Some (w @ drop (20 + n) buf))"
    using assms(1,4,5) w len by (simp add: serialize_message_wire)
  moreover have "deserialize_message (Some (w @ drop (20 + n) buf)) (20 + n) (Some m0) =
    Some (0, Some (m0\<lparr>msg_type := msg_type m,
      msg_data := take n (msg_data m) @ drop n (msg_data m0)\<rparr>))"
    using deserialize_wire [OF assms(1,2) w assms(3)] len by simp
  ultimately show ?thesis by blast
qed

lemma wf_Message_init_data:
  "length p \<le> sizeof_data \<Longrightarrow> wf_Message \<lparr>msg_type = t, sequence_num = q, msg_timestamp = ts, msg_data = init_data p\<rparr>"
  by (simp add: wf_Message_def init_data_def)

lemma init_data_then_deserialize:
  assumes "wf_Message m0" "payload_len t = Some (length p)" "20 + length p \<le> length buf"
  shows "\<exists>b. serialize_message (Some \<lparr>msg_type = t, sequence_num = q, msg_timestamp = ts,
        msg_data = init_data p\<rparr>) (Some buf) (length buf) = Some (int (20 + length p), Some b)
    \<and> deserialize_message (Some b) (20 + length p) (Some m0) =
        Some (0, Some (m0\<lparr>msg_type := t, msg_data := p @ drop (length p) (msg_data m0)\<rparr>))"
proof -
  have "length p \<le> sizeof_data" using payload_len_cases [OF assms(2)] by (auto simp: sizeof_defs)
  from serialize_then_deserialize [OF wf_Message_init_data [OF this] assms(1) _ assms(3) order.refl,
      of t q ts] assms(2)
  show ?thesis by (simp add: init_data_def)
qed

lemma checksum_poly_sum:
  "checksum_poly bs = (\<Sum>i<length bs. ucast (bs ! i) * 33 ^ (length bs - 1 - i))"
  by (induction bs) (simp_all add: sum.lessThan_Suc_shift del: sum.lessThan_Suc)

lemma deserialize_None_framed:
  assumes "20 \<le> buffer_size" "wf_Message m"
  shows "deserialize_message (Some (enc_MessageHeader h @ body)) buffer_size (Some m) = None \<longleftrightarrow>
     validate_message_header (Some h) = 0 \<and> unat (message_size h) \<le> buffer_size
     \<and> length body < unat (payload_size h)"
proof -
  have "deserialize_payload n h (enc_MessageHeader h @ body) (m\<lparr>msg_type := t\<rparr>) \<noteq> None"
    if "payload_len t = Some n" "unat (payload_size h) \<le> length body" for n t
  proof (cases "unat (payload_size h) = n")
    case True
    with that show ?thesis
      using assms(2) payload_len_cases [OF that(1)]
      by (auto simp: deserialize_payload_body wf_Message_def)
  next
    case False
    then show ?thesis by (simp add: deserialize_payload_def)
  qed
  then show ?thesis
    by (auto simp: deserialize_message_framed [OF assms(1)] Let_def not_le not_less
        split: option.splits)
qed

section \<open>Properties\<close>

text \<open>C1. Round trip: a message of a payload type always serialises into a buffer that has
  room for it, and deserialising those bytes gives back the type and the payload bytes exactly.
  The sequence number and the timestamp are not on the wire: the destination keeps the values
  it had before the call.\<close>

theorem serialize_deserialize_roundtrip:
  assumes "wf_Message m" "wf_Message m0"
    and "payload_len (msg_type m) = Some n" "20 + n \<le> buffer_size" "buffer_size \<le> length buf"
  shows "\<exists>buf' m'. serialize_message (Some m) (Some buf) buffer_size = Some (int (20 + n), Some buf')
    \<and> deserialize_message (Some buf') (20 + n) (Some m0) = Some (serial_code SERIAL_SUCCESS, Some m')
    \<and> msg_type m' = msg_type m \<and> take n (msg_data m') = take n (msg_data m)
    \<and> sequence_num m' = sequence_num m0 \<and> msg_timestamp m' = msg_timestamp m0"
proof -
  have "length (take n (msg_data m)) = n"
    using assms(1) payload_len_cases [OF assms(3)] by (auto simp: wf_Message_def sizeof_defs)
  then show ?thesis using serialize_then_deserialize [OF assms] by auto
qed

theorem serialize_deserialize_roundtrip_witness:
  "\<exists>buf' m'. serialize_message
        (Some \<lparr>msg_type = 6, sequence_num = 7, msg_timestamp = 0, msg_data = replicate 264 5\<rparr>)
        (Some (replicate 4096 0)) 4096 = Some (124, Some buf')
    \<and> deserialize_message (Some buf') 124
        (Some \<lparr>msg_type = 0, sequence_num = 0, msg_timestamp = 0, msg_data = replicate 264 0\<rparr>)
      = Some (0, Some m')
    \<and> msg_type m' = 6 \<and> take 104 (msg_data m') = replicate 104 5
    \<and> sequence_num m' = 0 \<and> msg_timestamp m' = 0"
  using serialize_deserialize_roundtrip
    [of "\<lparr>msg_type = 6, sequence_num = 7, msg_timestamp = 0, msg_data = replicate 264 5\<rparr>"
        "\<lparr>msg_type = 0, sequence_num = 0, msg_timestamp = 0, msg_data = replicate 264 0\<rparr>"
        104 4096 "replicate 4096 0"]
  by (simp add: wf_Message_def sizeof_defs payload_len_def)

text \<open>The struct a receiver reads is the struct the sender stored: orders, market data and
  trades survive the trip through a buffer member for member.\<close>

theorem payload_structs_roundtrip:
  assumes "wf_Message m0" "148 \<le> length buf"
    and "wf_Order ord" "wf_MarketData md" "wf_TradeExecution tr"
    and "t \<in> {MSG_ORDER_NEW, MSG_ORDER_MODIFY, MSG_ORDER_CANCEL}"
  shows "(\<exists>b m'. serialize_message (Some \<lparr>msg_type = MessageType_val t, sequence_num = q,
        msg_timestamp = ts, msg_data = init_data (enc_Order ord)\<rparr>) (Some buf) (length buf) = Some (148, Some b)
      \<and> deserialize_message (Some b) 148 (Some m0) = Some (0, Some m') \<and> data_order m' = ord)
    \<and> (\<exists>b m'. serialize_message (Some \<lparr>msg_type = MessageType_val MSG_MARKET_DATA, sequence_num = q,
        msg_timestamp = ts, msg_data = init_data (enc_MarketData md)\<rparr>) (Some buf) (length buf) = Some (124, Some b)
      \<and> deserialize_message (Some b) 124 (Some m0) = Some (0, Some m') \<and> data_market_data m' = md)
    \<and> (\<exists>b m'. serialize_message (Some \<lparr>msg_type = MessageType_val MSG_TRADE_EXEC, sequence_num = q,
        msg_timestamp = ts, msg_data = init_data (enc_TradeExecution tr)\<rparr>) (Some buf) (length buf) = Some (148, Some b)
      \<and> deserialize_message (Some b) 148 (Some m0) = Some (0, Some m') \<and> data_trade m' = tr)"
proof (intro conjI)
  have len: "length (enc_Order ord) = 128" "length (enc_MarketData md) = 104"
      "length (enc_TradeExecution tr) = 128"
    using order_codec.enc_length [OF assms(3)] market_data_codec.enc_length [OF assms(4)]
      trade_codec.enc_length [OF assms(5)] by (simp_all add: sizeof_defs)
  have "payload_len (MessageType_val t) = Some (length (enc_Order ord))"
    using assms(6) len by (auto simp: payload_len_def)
  from init_data_then_deserialize [OF assms(1) this, of buf q ts] assms(2) len
  show "\<exists>b m'. serialize_message (Some \<lparr>msg_type = MessageType_val t, sequence_num = q,
        msg_timestamp = ts, msg_data = init_data (enc_Order ord)\<rparr>) (Some buf) (length buf) = Some (148, Some b)
      \<and> deserialize_message (Some b) 148 (Some m0) = Some (0, Some m') \<and> data_order m' = ord"
    using order_codec.dec_prefix [OF assms(3)] by (auto simp: data_order_def)
  have "payload_len (MessageType_val MSG_MARKET_DATA) = Some (length (enc_MarketData md))"
    using len by (simp add: payload_len_def)
  from init_data_then_deserialize [OF assms(1) this, of buf q ts] assms(2) len
  show "\<exists>b m'. serialize_message (Some \<lparr>msg_type = MessageType_val MSG_MARKET_DATA, sequence_num = q,
        msg_timestamp = ts, msg_data = init_data (enc_MarketData md)\<rparr>) (Some buf) (length buf) = Some (124, Some b)
      \<and> deserialize_message (Some b) 124 (Some m0) = Some (0, Some m') \<and> data_market_data m' = md"
    using market_data_codec.dec_prefix [OF assms(4)] by (auto simp: data_market_data_def)
  have "payload_len (MessageType_val MSG_TRADE_EXEC) = Some (length (enc_TradeExecution tr))"
    using len by (simp add: payload_len_def)
  from init_data_then_deserialize [OF assms(1) this, of buf q ts] assms(2) len
  show "\<exists>b m'. serialize_message (Some \<lparr>msg_type = MessageType_val MSG_TRADE_EXEC, sequence_num = q,
        msg_timestamp = ts, msg_data = init_data (enc_TradeExecution tr)\<rparr>) (Some buf) (length buf) = Some (148, Some b)
      \<and> deserialize_message (Some b) 148 (Some m0) = Some (0, Some m') \<and> data_trade m' = tr"
    using trade_codec.dec_prefix [OF assms(5)] by (auto simp: data_trade_def)
qed

lemma wf_zero_structs: "wf_Order zero_Order" "wf_MarketData zero_MarketData"
    "wf_TradeExecution zero_TradeExecution"
  by (simp_all add: zero_Order_def zero_MarketData_def zero_TradeExecution_def
      order_codec.wf_dec market_data_codec.wf_dec trade_codec.wf_dec)

theorem payload_structs_roundtrip_witness:
  "\<exists>b m'. serialize_message (Some \<lparr>msg_type = 4, sequence_num = 1, msg_timestamp = 2,
      msg_data = init_data (enc_Order (zero_Order\<lparr>order_id := 42\<rparr>))\<rparr>) (Some (replicate 200 9)) 200 = Some (148, Some b)
    \<and> deserialize_message (Some b) 148
        (Some \<lparr>msg_type = 0, sequence_num = 0, msg_timestamp = 0, msg_data = replicate 264 0\<rparr>) = Some (0, Some m')
    \<and> data_order m' = zero_Order\<lparr>order_id := 42\<rparr>"
  using payload_structs_roundtrip
    [of "\<lparr>msg_type = 0, sequence_num = 0, msg_timestamp = 0, msg_data = replicate 264 0\<rparr>"
        "replicate 200 9" "zero_Order\<lparr>order_id := 42\<rparr>" zero_MarketData zero_TradeExecution
        MSG_ORDER_MODIFY 1 2]
    wf_zero_structs
  by (simp add: wf_Message_def wf_Order_def sizeof_defs)

text \<open>C13. The wire format: a successful call writes, from the start of the buffer, the header
  (version 1, total size, type, payload size, checksum of the payload) and then the payload
  struct, and no byte after them; its result is the number of bytes written. When the payload
  does not fit, or the type has no payload, it reports the error and leaves the buffer alone.\<close>

theorem serialize_message_spec:
  assumes "wf_Message m" "buffer_size \<le> length buf"
  shows "serialize_message (Some m) (Some buf) buffer_size =
    (if buffer_size < 20 then Some (serial_code SERIAL_ERROR_BUFFER_OVERFLOW, Some buf)
     else case payload_len (msg_type m) of
        None \<Rightarrow> Some (serial_code SERIAL_ERROR_INVALID_TYPE, Some buf)
      | Some n \<Rightarrow>
          if buffer_size < 20 + n then Some (serial_code SERIAL_ERROR_BUFFER_OVERFLOW, Some buf)
          else Some (int (20 + n), Some
            (le_bytes 4 (1 :: 32 word) @ le_bytes 4 (of_nat (20 + n) :: 32 word) @
             le_bytes 4 (msg_type m) @ le_bytes 4 (of_nat n :: 32 word) @
             le_bytes 4 (\<Sum>i<n. ucast (msg_data m ! i) * 33 ^ (n - 1 - i) :: 32 word) @
             take n (msg_data m) @ drop (20 + n) buf)))"
proof -
  have "length (take n (msg_data m)) = n" if "payload_len (msg_type m) = Some n" for n
    using assms(1) payload_len_cases [OF that] by (auto simp: wf_Message_def sizeof_defs)
  then show ?thesis
    using assms by (auto simp: serialize_message_wire wire_def frame_def header_for_def
        enc_MessageHeader_def SERIALIZATION_VERSION_def checksum_poly_sum split: option.splits)
qed

theorem serialize_message_spec_witness:
  "serialize_message
     (Some \<lparr>msg_type = 7, sequence_num = 7, msg_timestamp = 0, msg_data = replicate 264 0\<rparr>)
     (Some (replicate 150 255)) 150 =
   Some (148, Some ([1, 0, 0, 0, 148, 0, 0, 0, 7, 0, 0, 0, 128, 0, 0, 0, 0, 0, 0, 0]
     @ replicate 128 0 @ [255, 255]))"
proof -
  have "(\<Sum>i<128. ucast (replicate 264 (0 :: byte) ! i) * 33 ^ (128 - 1 - i) :: 32 word) = 0"
    by (rule sum.neutral) simp
  moreover have "le_bytes 4 (1 :: 32 word) = [1, 0, 0, 0]" "le_bytes 4 (148 :: 32 word) = [148, 0, 0, 0]"
    "le_bytes 4 (7 :: 32 word) = [7, 0, 0, 0]" "le_bytes 4 (128 :: 32 word) = [128, 0, 0, 0]"
    "le_bytes 4 (0 :: 32 word) = [0, 0, 0, 0]"
    by (simp_all add: le_bytes_numeral)
  moreover have "replicate 2 (255 :: byte) = [255, 255]" by (simp add: numeral_eq_Suc)
  ultimately show ?thesis
    using serialize_message_spec
      [of "\<lparr>msg_type = 7, sequence_num = 7, msg_timestamp = 0, msg_data = replicate 264 0\<rparr>"
          150 "replicate 150 255"]
    by (simp add: wf_Message_def sizeof_defs payload_len_def)
qed

text \<open>C2. Memory safety of deserialising, exactly: given at least the header, the call stays
  inside the buffer unless the header is valid, its message size is covered by the received
  bytes, and its payload size exceeds what the array holds behind the header. The payload size
  is never compared with the message size or with the number of received bytes.\<close>

theorem deserialize_out_of_bounds_iff:
  assumes "wf_Message m" "20 \<le> buffer_size" "20 \<le> length buf"
    and "h = dec_MessageHeader (take 20 buf)"
  shows "deserialize_message (Some buf) buffer_size (Some m) = None \<longleftrightarrow>
     h_version h = 1 \<and> 20 \<le> unat (message_size h) \<and> unat (message_size h) \<le> 8192
     \<and> unat (message_size h) \<le> buffer_size \<and> length buf - 20 < unat (payload_size h)"
proof -
  have "deserialize_message (Some buf) buffer_size (Some m) = None \<longleftrightarrow>
    validate_message_header (Some h) = 0 \<and> unat (message_size h) \<le> buffer_size
     \<and> length (drop 20 buf) < unat (payload_size h)"
    using deserialize_None_framed [OF assms(2,1)] split_header [OF assms(3)]
    unfolding assms(4) by metis
  then show ?thesis
    by (auto simp: validate_message_header_def SERIALIZATION_VERSION_def MAX_MESSAGE_SIZE_def
        sizeof_defs word_le_nat_alt word_less_nat_alt)
qed

theorem deserialize_out_of_bounds_iff_witness:
  "deserialize_message (Some (enc_MessageHeader \<lparr>h_version = 1, message_size = 20, h_type = 2,
        payload_size = 4077, h_checksum = 0\<rparr> @ replicate 4076 0)) 20
     (Some \<lparr>msg_type = 0, sequence_num = 0, msg_timestamp = 0, msg_data = replicate 264 0\<rparr>) = None"
  by (subst deserialize_out_of_bounds_iff [OF _ _ _ refl])
    (simp_all add: wf_Message_def sizeof_defs header_codec.dec_enc)

text \<open>A 20-byte packet whose header is accepted makes the server read past its
  \<open>BUFFER_SIZE\<close> array, whatever the rest of the array holds: any payload size above
  \<open>BUFFER_SIZE - 20\<close> does it.\<close>

theorem deserialize_header_overread:
  assumes "wf_Message m" "length rest = BUFFER_SIZE - 20" "4076 < unat (payload_size h)"
    and "h_version h = SERIALIZATION_VERSION" "message_size h = 20"
  shows "deserialize_message (Some (enc_MessageHeader h @ rest)) 20 (Some m) = None"
  using assms
  by (simp add: deserialize_None_framed validate_message_header_def sizeof_defs
      BUFFER_SIZE_def MAX_MESSAGE_SIZE_def)

theorem deserialize_header_overread_witness:
  "deserialize_message (Some (enc_MessageHeader \<lparr>h_version = 1, message_size = 20, h_type = 6,
        payload_size = 4294967295, h_checksum = 0\<rparr> @ replicate 4076 7)) 20
     (Some \<lparr>msg_type = 0, sequence_num = 0, msg_timestamp = 0, msg_data = replicate 264 0\<rparr>) = None"
  by (rule deserialize_header_overread)
    (simp_all add: wf_Message_def sizeof_defs BUFFER_SIZE_def SERIALIZATION_VERSION_def)

text \<open>C39. A packet that carries only a header is accepted as a complete message when its
  header claims 20 bytes in total and a payload size equal to the payload struct: the payload is
  then whatever the receive buffer still holds behind the header.\<close>

theorem deserialize_accepts_stale_payload:
  assumes "wf_Message m" "payload_len t = Some (length stale)"
  shows "deserialize_message (Some (enc_MessageHeader
        \<lparr>h_version = 1, message_size = 20, h_type = t, payload_size = of_nat (length stale),
         h_checksum = checksum_poly stale\<rparr> @ stale @ rest)) 20 (Some m) =
     Some (serial_code SERIAL_SUCCESS,
       Some (m\<lparr>msg_type := t, msg_data := stale @ drop (length stale) (msg_data m)\<rparr>))"
proof -
  have len: "length stale = 104 \<or> length stale = 128" using payload_len_cases [OF assms(2)] .
  then have "unat (of_nat (length stale) :: 32 word) = length stale" by auto
  then show ?thesis
    using assms len
    by (auto simp: deserialize_message_framed validate_message_header_def sizeof_defs Let_def
        SERIALIZATION_VERSION_def MAX_MESSAGE_SIZE_def deserialize_payload_body wf_Message_def)
qed

theorem deserialize_accepts_stale_payload_witness:
  "deserialize_message (Some (enc_MessageHeader
        \<lparr>h_version = 1, message_size = 20, h_type = 6, payload_size = 104,
         h_checksum = checksum_poly (replicate 104 0)\<rparr> @ replicate 104 0 @ replicate 3972 1)) 20
     (Some \<lparr>msg_type = 0, sequence_num = 0, msg_timestamp = 0, msg_data = replicate 264 3\<rparr>) =
   Some (0, Some \<lparr>msg_type = 6, sequence_num = 0, msg_timestamp = 0,
       msg_data = replicate 104 0 @ replicate 160 3\<rparr>)"
  using deserialize_accepts_stale_payload
    [of "\<lparr>msg_type = 0, sequence_num = 0, msg_timestamp = 0, msg_data = replicate 264 3\<rparr>"
        6 "replicate 104 0" "replicate 3972 1"]
  by (simp add: wf_Message_def sizeof_defs payload_len_def)

text \<open>C12. The checksum catches every change of a single payload byte and every exchange of two
  adjacent payload bytes: the receiver reports a checksum error and its message is untouched.\<close>

theorem deserialize_detects_corruption:
  assumes "payload_len t = Some (length p)" "20 + length p \<le> buffer_size" "wf_Message m"
    and "(\<exists>xs a b ys. p = xs @ a # ys \<and> p' = xs @ b # ys \<and> a \<noteq> b)
       \<or> (\<exists>xs a b ys. p = xs @ a # b # ys \<and> p' = xs @ b # a # ys \<and> a \<noteq> b)"
  shows "deserialize_message (Some (enc_MessageHeader (header_for t p) @ p' @ rest)) buffer_size (Some m)
    = Some (serial_code SERIAL_ERROR_CHECKSUM, Some m)"
proof -
  have len: "length p' = length p" and "checksum_poly p \<noteq> checksum_poly p'"
    using assms(4) checksum_poly_single_byte checksum_poly_swap by auto
  then show ?thesis
    using assms(2) header_for_valid [OF assms(1), of t]
    by (simp add: deserialize_message_framed header_for_def)
qed

theorem deserialize_detects_corruption_witness:
  "deserialize_message (Some (enc_MessageHeader (header_for 2 (replicate 128 0))
        @ (1 # replicate 127 0) @ [])) 148
     (Some \<lparr>msg_type = 0, sequence_num = 0, msg_timestamp = 0, msg_data = replicate 264 0\<rparr>)
   = Some (-4, Some \<lparr>msg_type = 0, sequence_num = 0, msg_timestamp = 0, msg_data = replicate 264 0\<rparr>)"
proof -
  have "replicate 128 (0 :: byte) = [] @ 0 # replicate 127 0" by (simp add: numeral_eq_Suc)
  then have "\<exists>xs a b ys. replicate 128 (0 :: byte) = xs @ a # ys \<and> 1 # replicate 127 0 = xs @ b # ys \<and> a \<noteq> b"
    by (metis append_Nil zero_neq_one)
  then show ?thesis
    using deserialize_detects_corruption [of 2 "replicate 128 0" 148
        "\<lparr>msg_type = 0, sequence_num = 0, msg_timestamp = 0, msg_data = replicate 264 0\<rparr>"
        "1 # replicate 127 0" "[]"]
    by (simp add: payload_len_def wf_Message_def sizeof_defs)
qed

end
