(* ===== verification/Double.thy ===== *)
theory Double
  imports Prelude "HOL-Library.Log_Nat"
begin

text \<open>
  The C type \<open>double\<close> as the code uses it: IEEE 754 binary64 with rounding to nearest, ties
  to even. A finite value is a sign, a non-negative integer significand and a power of two, so
  all arithmetic is integer arithmetic and executable. Conversion from \<open>int64_t\<close>, product,
  quotient, sum, difference, comparison, truncation back to \<open>int64_t\<close> and the conversion \<open>%.6f\<close> are the operations
  of the sources. \<open>pow(10, e)\<close> comes from the C mathematics library, whose accuracy the
  language leaves open: it is a parameter \<open>pow10\<close> of the definitions that call it.
\<close>

section \<open>Definitions\<close>

datatype double = DNaN | DInf bool | DFin bool int int

text \<open>Division by \<open>2 ^ k\<close> (\<open>k > 0\<close>) rounded to the nearest integer, ties to even.\<close>

definition rne :: "int \<Rightarrow> nat \<Rightarrow> int" where
  "rne m k =
     (let q = m div 2 ^ k; r = m mod 2 ^ k; h = 2 ^ (k - 1)
      in if h < r \<or> (r = h \<and> odd q) then q + 1 else q)"

text \<open>The exponent of the last place of \<open>m * 2 powi e\<close> (\<open>m > 0\<close>), and the value in that unit.\<close>

definition rnd_exp :: "int \<Rightarrow> int \<Rightarrow> int" where
  "rnd_exp m e = max (e + bitlen m - 53) (-1074)"

definition rnd_sig :: "int \<Rightarrow> int \<Rightarrow> int" where
  "rnd_sig m e =
     (let t = rnd_exp m e
      in if t \<le> e then m * 2 ^ nat (e - t) else rne m (nat (t - e)))"

text \<open>The double nearest to \<open>m * 2 powi e\<close> (\<open>m \<ge> 0\<close>) with sign \<open>s\<close>.\<close>

definition round_double :: "bool \<Rightarrow> int \<Rightarrow> int \<Rightarrow> double" where
  "round_double s m e =
     (if m = 0 then DFin s 0 (-1074)
      else
        let t = rnd_exp m e;
            q = rnd_sig m e;
            q' = (if q = 2 ^ 53 then 2 ^ 52 else q);
            t' = (if q = 2 ^ 53 then t + 1 else t)
        in if 971 < t' then DInf s else DFin s q' t')"

definition d_of_int :: "int \<Rightarrow> double" where
  "d_of_int i = round_double (i < 0) \<bar>i\<bar> 0"

fun d_neg :: "double \<Rightarrow> bool" where
  "d_neg DNaN = False"
| "d_neg (DInf s) = s"
| "d_neg (DFin s m e) = s"

fun d_mul :: "double \<Rightarrow> double \<Rightarrow> double" where
  "d_mul (DFin s m e) (DFin s' m' e') = round_double (s \<noteq> s') (m * m') (e + e')"
| "d_mul (DInf s) (DInf s') = DInf (s \<noteq> s')"
| "d_mul (DInf s) (DFin s' m' e') = (if m' = 0 then DNaN else DInf (s \<noteq> s'))"
| "d_mul (DFin s m e) (DInf s') = (if m = 0 then DNaN else DInf (s \<noteq> s'))"
| "d_mul _ _ = DNaN"

definition signed :: "bool \<Rightarrow> int \<Rightarrow> int" where
  "signed s m = (if s then - m else m)"

fun d_add :: "double \<Rightarrow> double \<Rightarrow> double" where
  "d_add (DFin s m e) (DFin s' m' e') =
     (let t = min e e';
          v = signed s m * 2 ^ nat (e - t) + signed s' m' * 2 ^ nat (e' - t)
      in if v = 0 then DFin (s \<and> s') 0 (-1074) else round_double (v < 0) \<bar>v\<bar> t)"
| "d_add (DInf s) (DInf s') = (if s = s' then DInf s else DNaN)"
| "d_add (DInf s) (DFin s' m' e') = DInf s"
| "d_add (DFin s m e) (DInf s') = DInf s'"
| "d_add _ _ = DNaN"

fun d_uminus :: "double \<Rightarrow> double" where
  "d_uminus DNaN = DNaN"
| "d_uminus (DInf s) = DInf (\<not> s)"
| "d_uminus (DFin s m e) = DFin (\<not> s) m e"

definition d_sub :: "double \<Rightarrow> double \<Rightarrow> double" where
  "d_sub a b = d_add a (d_uminus b)"

text \<open>A quotient is computed to at least 67 bits, followed by a bit that tells whether anything was cut
  off; so it rounds as the exact quotient does.\<close>

fun d_div :: "double \<Rightarrow> double \<Rightarrow> double" where
  "d_div (DFin s m e) (DFin s' m' e') =
     (if m' = 0 then if m = 0 then DNaN else DInf (s \<noteq> s')
      else
        let q = m * 2 ^ 120 div m'; cut = (m * 2 ^ 120 mod m' \<noteq> 0)
        in round_double (s \<noteq> s') (2 * q + (if cut then 1 else 0)) (e - e' - 121))"
| "d_div (DInf s) (DFin s' m' e') = DInf (s \<noteq> s')"
| "d_div (DFin s m e) (DInf s') = DFin (s \<noteq> s') 0 (-1074)"
| "d_div _ _ = DNaN"

fun d_less :: "double \<Rightarrow> double \<Rightarrow> bool" where
  "d_less (DFin s m e) (DFin s' m' e') =
     (let t = min e e'
      in signed s m * 2 ^ nat (e - t) < signed s' m' * 2 ^ nat (e' - t))"
| "d_less (DInf s) (DInf s') = (s \<and> \<not> s')"
| "d_less (DInf s) (DFin s' m' e') = s"
| "d_less (DFin s m e) (DInf s') = (\<not> s')"
| "d_less _ _ = False"

text \<open>\<open>a >= b\<close>: false when an operand is a NaN.\<close>

definition d_ge :: "double \<Rightarrow> double \<Rightarrow> bool" where
  "d_ge a b \<longleftrightarrow> a \<noteq> DNaN \<and> b \<noteq> DNaN \<and> \<not> d_less a b"

text \<open>The cast \<open>(int64_t)\<close>: truncation; undefined when the result is not representable.\<close>

fun d_to_int64 :: "double \<Rightarrow> int option" where
  "d_to_int64 (DFin s m e) =
     (let a = (if 0 \<le> e then m * 2 ^ nat e else m div 2 ^ nat (- e)); i = signed s a
      in if - (2 ^ 63) \<le> i \<and> i < 2 ^ 63 then Some i else None)"
| "d_to_int64 _ = None"

text \<open>The literals \<open>0.01\<close>, \<open>0.0\<close> and \<open>1000000.0\<close>.\<close>

definition d_0_01 :: double where
  "d_0_01 = DFin False 5764607523034235 (-59)"

definition d_zero :: double where
  "d_zero = DFin False 0 (-1074)"

definition d_million :: double where
  "d_million = d_of_int 1000000"

text \<open>Decimal digits, least significant last.\<close>

function digits :: "int \<Rightarrow> string" where
  "digits n = (if n < 10 then [char_of (48 + n)] else digits (n div 10) @ [char_of (48 + n mod 10)])"
  by pat_completeness auto
termination
  by (relation "measure nat") auto

declare digits.simps [simp del]

text \<open>\<open>printf("%.6f")\<close>: the exact value scaled by a million, rounded half to even.\<close>

fun format_f6 :: "double \<Rightarrow> string" where
  "format_f6 DNaN = ''nan''"
| "format_f6 (DInf s) = (if s then ''-inf'' else ''inf'')"
| "format_f6 (DFin s m e) =
     (let v = (if 0 \<le> e then m * 1000000 * 2 ^ nat e else rne (m * 1000000) (nat (- e)));
          frac = digits (v mod 1000000)
      in (if s then ''-'' else '''') @ digits (v div 1000000) @ ''.''
         @ replicate (6 - length frac) (CHR ''0'') @ frac)"

text \<open>A correctly rounded power of ten, for instances of the parameter \<open>pow10\<close>. For a negative
  exponent the quotient carries more than 53 bits and a sticky bit.\<close>

definition pow10_rn :: "int \<Rightarrow> double" where
  "pow10_rn e =
     (if 0 \<le> e then round_double False (10 ^ nat e) 0
      else
        let d = 10 ^ nat (- e); n = nat (bitlen d) + 60;
            q = 2 ^ n div d; r = 2 ^ n mod d
        in round_double False (2 * q + (if r = 0 then 0 else 1)) (- int n - 1))"

section \<open>Canonical values and signs\<close>

text \<open>Results of rounding are in the format: 53-bit significands, normalised but for the
  smallest exponent.\<close>

fun canonical :: "double \<Rightarrow> bool" where
  "canonical (DFin s m e) \<longleftrightarrow> 0 \<le> m \<and> m < 2 ^ 53 \<and> -1074 \<le> e \<and> e \<le> 971 \<and> (e = -1074 \<or> 2 ^ 52 \<le> m)"
| "canonical _ = True"

lemma rne_nonneg: "0 \<le> m \<Longrightarrow> 0 \<le> rne m k"
  by (simp add: rne_def Let_def pos_imp_zdiv_nonneg_iff add_nonneg_nonneg)

lemma rne_exact: "0 < k \<Longrightarrow> rne (a * 2 ^ k) k = a"
  by (simp add: rne_def)

lemma rne_mono:
  assumes "0 < k" "m \<le> m'"
  shows "rne m k \<le> rne m' k"
proof -
  let ?q = "m div 2 ^ k" and ?q' = "m' div 2 ^ k"
  have q: "?q \<le> ?q'" using assms(2) by (simp add: zdiv_mono1)
  show ?thesis
  proof (cases "?q = ?q'")
    case True
    then have "m mod 2 ^ k \<le> m' mod 2 ^ k"
      using assms(2) by (metis add_le_cancel_left mult_div_mod_eq)
    with True show ?thesis by (auto simp: rne_def Let_def)
  next
    case False
    with q show ?thesis by (auto simp: rne_def Let_def)
  qed
qed

lemma rne_le: "0 < k \<Longrightarrow> m \<le> a * 2 ^ k \<Longrightarrow> rne m k \<le> a"
  using rne_mono [of k m "a * 2 ^ k"] by (simp add: rne_exact)

lemma rne_ge: "0 < k \<Longrightarrow> a * 2 ^ k \<le> m \<Longrightarrow> a \<le> rne m k"
  using rne_mono [of k "a * 2 ^ k" m] by (simp add: rne_exact)

lemma d_neg_round_double [simp]: "d_neg (round_double s m e) = s"
  by (simp add: round_double_def Let_def)

lemma round_double_not_NaN [simp]: "round_double s m e \<noteq> DNaN"
  by (simp add: round_double_def Let_def)

lemma rnd_sig_bounds:
  assumes "0 < m"
  shows "0 \<le> rnd_sig m e" "rnd_sig m e \<le> 2 ^ 53"
    "rnd_exp m e = -1074 \<or> 2 ^ 52 \<le> rnd_sig m e"
proof -
  let ?t = "rnd_exp m e" and ?b = "bitlen m"
  have b: "2 ^ nat (?b - 1) \<le> m" "m < 2 ^ nat ?b" "0 < ?b"
    using bitlen_bounds [OF assms] bitlen_eq_zero_iff [of m] bitlen_nonneg [of m] assms by linarith+
  have te: "e + ?b - 53 \<le> ?t" "-1074 \<le> ?t" and tc: "?t = -1074 \<or> ?t = e + ?b - 53"
    by (auto simp: rnd_exp_def)
  show "0 \<le> rnd_sig m e"
    using assms by (simp add: rnd_sig_def Let_def rne_nonneg)
  show "rnd_sig m e \<le> 2 ^ 53"
  proof (cases "?t \<le> e")
    case True
    have "m * 2 ^ nat (e - ?t) \<le> 2 ^ nat ?b * 2 ^ nat (e - ?t)" using b(2) by simp
    also have "\<dots> = 2 ^ (nat ?b + nat (e - ?t))" by (simp add: power_add)
    also have "\<dots> \<le> 2 ^ 53" using te(1) True b(3) by (intro power_increasing) auto
    finally show ?thesis using True by (simp add: rnd_sig_def)
  next
    case False
    have "m \<le> 2 ^ nat ?b" using b(2) by simp
    also have "\<dots> \<le> 2 ^ (53 + nat (?t - e))" using te(1) False b(3) by (intro power_increasing) auto
    finally have "m \<le> 2 ^ 53 * 2 ^ nat (?t - e)" by (simp add: power_add)
    from rne_le [OF _ this] False show ?thesis by (simp add: rnd_sig_def)
  qed
  show "?t = -1074 \<or> 2 ^ 52 \<le> rnd_sig m e"
  proof (cases "?t = -1074")
    case False
    with tc have t: "?t = e + ?b - 53" by simp
    show ?thesis
    proof (cases "?t \<le> e")
      case True
      have "(2 :: int) ^ 52 = 2 ^ (nat (?b - 1) + nat (e - ?t))"
        using t True b(3) by (intro arg_cong2 [where f = power]) auto
      also have "\<dots> = 2 ^ nat (?b - 1) * 2 ^ nat (e - ?t)" by (simp add: power_add)
      also have "\<dots> \<le> m * 2 ^ nat (e - ?t)" using b(1) by simp
      finally show ?thesis using True by (simp add: rnd_sig_def)
    next
      case False
      have "nat (?b - 1) = 52 + nat (?t - e)" using t False by auto
      then have "(2 :: int) ^ 52 * 2 ^ nat (?t - e) = 2 ^ nat (?b - 1)" by (simp add: power_add)
      with b(1) have "2 ^ 52 * 2 ^ nat (?t - e) \<le> m" by simp
      from rne_ge [OF _ this] False show ?thesis by (simp add: rnd_sig_def)
    qed
  qed simp
qed

lemma canonical_round_double: "0 \<le> m \<Longrightarrow> canonical (round_double s m e)"
  using rnd_sig_bounds [of m e] by (auto simp: round_double_def Let_def rnd_exp_def)

section \<open>Values and monotonicity\<close>

text \<open>The real number a finite double stands for.\<close>

definition scaled :: "int \<Rightarrow> int \<Rightarrow> real" where
  "scaled m e = of_int m * 2 powi e"

lemma scaled_shift: "t \<le> e \<Longrightarrow> of_int (m * 2 ^ nat (e - t)) * 2 powi t = scaled m e"
  by (simp add: scaled_def power_int_def [of 2 "e - t", symmetric] power_int_add [symmetric]
      flip: power_int_of_nat)

lemma d_less_scaled:
  "d_less (DFin s m e) (DFin s' m' e') \<longleftrightarrow> scaled (signed s m) e < scaled (signed s' m') e'"
proof -
  let ?t = "min e e'"
  have "scaled (signed s m) e < scaled (signed s' m') e' \<longleftrightarrow>
    of_int (signed s m * 2 ^ nat (e - ?t)) * 2 powi ?t < of_int (signed s' m' * 2 ^ nat (e' - ?t)) * (2 powi ?t :: real)"
    by (simp only: scaled_shift min.cobounded1 min.cobounded2)
  also have "\<dots> \<longleftrightarrow> signed s m * 2 ^ nat (e - ?t) < signed s' m' * 2 ^ nat (e' - ?t)"
    by (simp only: mult_less_cancel_right_pos zero_less_power_int of_int_less_iff zero_less_numeral)
  finally show ?thesis by (simp add: Let_def)
qed

lemma scaled_pow2: "t \<le> e + int n \<Longrightarrow> scaled (2 ^ nat (e + int n - t)) t = 2 powi (e + int n)"
  using scaled_shift [of t "e + int n" 1] by (simp add: scaled_def)

lemma scaled_mono: "m \<le> m' \<Longrightarrow> scaled m e \<le> scaled m' e"
  by (simp add: scaled_def)

text \<open>Rounding does not cross a power of two that is on the grid.\<close>

lemma rnd_pow2_bound:
  assumes "rnd_exp m e \<le> e + int n"
  shows "m \<le> 2 ^ n \<Longrightarrow> scaled (rnd_sig m e) (rnd_exp m e) \<le> 2 powi (e + int n)"
    and "2 ^ n \<le> m \<Longrightarrow> 2 powi (e + int n) \<le> scaled (rnd_sig m e) (rnd_exp m e)"
proof -
  let ?t = "rnd_exp m e"
  have pow: "scaled (2 ^ nat (e + int n - ?t)) ?t = 2 powi (e + int n)"
    using assms by (rule scaled_pow2)
  have exact: "(2 :: int) ^ nat (e + int n - ?t) = 2 ^ n * 2 ^ nat (e - ?t)" if "?t \<le> e"
    using that by (simp add: power_add [symmetric] nat_add_distrib [symmetric] add.commute diff_add_eq)
  have grid: "(2 :: int) ^ n = 2 ^ nat (e + int n - ?t) * 2 ^ nat (?t - e)" if "e < ?t"
    using that assms by (simp add: power_add [symmetric] nat_add_distrib [symmetric])
  show "scaled (rnd_sig m e) ?t \<le> 2 powi (e + int n)" if "m \<le> 2 ^ n"
  proof -
    have "rnd_sig m e \<le> 2 ^ nat (e + int n - ?t)"
      using that exact grid rne_le [of "nat (?t - e)" m "2 ^ nat (e + int n - ?t)"]
      by (auto simp: rnd_sig_def Let_def)
    with pow show ?thesis using scaled_mono by metis
  qed
  show "2 powi (e + int n) \<le> scaled (rnd_sig m e) ?t" if "2 ^ n \<le> m"
  proof -
    have "2 ^ nat (e + int n - ?t) \<le> rnd_sig m e"
      using that exact grid rne_ge [of "nat (?t - e)" "2 ^ nat (e + int n - ?t)" m]
      by (auto simp: rnd_sig_def Let_def)
    with pow show ?thesis using scaled_mono by metis
  qed
qed

lemma rnd_mono:
  assumes "0 < m" "m \<le> m'"
  shows "scaled (rnd_sig m e) (rnd_exp m e) \<le> scaled (rnd_sig m' e) (rnd_exp m' e)"
proof -
  let ?t = "rnd_exp m e" and ?t' = "rnd_exp m' e" and ?b = "bitlen m" and ?b' = "bitlen m'"
  have b: "m < 2 ^ nat ?b" "2 ^ nat (?b' - 1) \<le> m'" "0 < ?b" "0 < ?b'"
    using bitlen_bounds [of m] bitlen_bounds [of m'] bitlen_eq_zero_iff [of m]
      bitlen_eq_zero_iff [of m'] bitlen_nonneg [of m] bitlen_nonneg [of m'] assms by linarith+
  have bb: "?b \<le> ?b'"
    using assms b(3,4) bitlen_le_iff_power [of m ?b'] bitlen_bounds [of m'] by auto
  then have tt: "?t \<le> ?t'" by (simp add: rnd_exp_def)
  show ?thesis
  proof (cases "?t = ?t'")
    case True
    have "rnd_sig m e \<le> rnd_sig m' e"
      using True assms(2) by (auto simp: rnd_sig_def Let_def rne_mono)
    with True show ?thesis by (simp add: scaled_def)
  next
    case False
    with tt bb have lt: "?b < ?b'" and t': "?t' = e + ?b' - 53" and t: "?t < ?t'"
      by (auto simp: rnd_exp_def split: if_splits)
    have "m \<le> 2 ^ nat ?b" using b(1) by simp
    also have "\<dots> \<le> 2 ^ nat (?b' - 1)" using lt by (intro power_increasing) auto
    finally have m: "m \<le> 2 ^ nat (?b' - 1)" .
    have n: "int (nat (?b' - 1)) = ?b' - 1" using b(4) by simp
    have "scaled (rnd_sig m e) ?t \<le> 2 powi (e + int (nat (?b' - 1)))"
      using m t t' by (intro rnd_pow2_bound(1)) (simp_all add: n)
    also have "\<dots> \<le> scaled (rnd_sig m' e) ?t'"
      using b(2) t' by (intro rnd_pow2_bound(2)) (simp_all add: n)
    finally show ?thesis .
  qed
qed

text \<open>The result of rounding a positive magnitude: its value is the rounded one, and it
  overflows exactly from \<open>2 ^ 1024\<close> on.\<close>

lemma round_double_cases:
  assumes "0 < m"
  obtains (inf) "round_double s m e = DInf s" "2 powi 1024 \<le> scaled (rnd_sig m e) (rnd_exp m e)"
  | (fin) q t where "round_double s m e = DFin s q t" "0 \<le> q"
      "scaled q t = scaled (rnd_sig m e) (rnd_exp m e)" "scaled q t < 2 powi 1024"
proof -
  let ?q = "rnd_sig m e" and ?t = "rnd_exp m e"
  define q where "q = (if ?q = 2 ^ 53 then 2 ^ 52 else ?q)"
  define t where "t = (if ?q = 2 ^ 53 then ?t + 1 else ?t)"
  have r: "round_double s m e = (if 971 < t then DInf s else DFin s q t)"
    using assms by (simp add: round_double_def q_def t_def Let_def)
  have v: "scaled q t = scaled ?q ?t"
    by (simp add: q_def t_def scaled_def power_int_add)
  have c: "0 \<le> q" "q < 2 ^ 53" "t = -1074 \<or> 2 ^ 52 \<le> q"
    using rnd_sig_bounds [OF assms, of e] by (auto simp: q_def t_def)
  show ?thesis
  proof (cases "971 < t")
    case True
    with c have "2 ^ 52 \<le> q" by simp
    have "(2 :: real) powi 1024 = 2 ^ 52 * 2 powi 972" by (simp add: power_int_def)
    also have "\<dots> \<le> of_int (2 ^ 52) * 2 powi t"
      using power_int_increasing [of 972 t "2 :: real"] True by (simp only: of_int_power) simp
    also have "\<dots> \<le> scaled q t"
      unfolding scaled_def using \<open>2 ^ 52 \<le> q\<close> by (intro mult_right_mono) simp_all
    finally show ?thesis using inf r True v by simp
  next
    case False
    have "scaled q t < of_int (2 ^ 53) * 2 powi t"
      unfolding scaled_def using c(2) by (intro mult_strict_right_mono) simp_all
    also have "\<dots> \<le> 2 ^ 53 * 2 powi 971"
      using power_int_increasing [of t 971 "2 :: real"] False by (simp only: of_int_power) simp
    also have "\<dots> = 2 powi 1024" by (simp add: power_int_def)
    finally show ?thesis using fin [of q t] r False v c(1) by simp
  qed
qed

lemma rne_shift: "0 < k \<Longrightarrow> rne (m * 2 ^ j) (k + j) = rne m k"
  by (cases k) (simp_all add: rne_def Let_def power_add mult.assoc [symmetric])

lemma rnd_shift:
  assumes "0 < m"
  shows "rnd_exp (m * 2 ^ j) (e - int j) = rnd_exp m e"
    and "rnd_sig (m * 2 ^ j) (e - int j) = rnd_sig m e"
proof -
  show t: "rnd_exp (m * 2 ^ j) (e - int j) = rnd_exp m e"
    using assms by (simp add: rnd_exp_def)
  let ?t = "rnd_exp m e"
  consider "?t \<le> e - int j" | "e - int j < ?t" "?t \<le> e" | "e < ?t" by linarith
  then show "rnd_sig (m * 2 ^ j) (e - int j) = rnd_sig m e"
  proof cases
    case 1
    then have "nat (e - ?t) = j + nat (e - int j - ?t)" by simp
    with 1 show ?thesis by (simp add: rnd_sig_def t power_add)
  next
    case 2
    then have "j = nat (e - ?t) + nat (?t - (e - int j))" by simp
    then have eq: "m * 2 ^ j = (m * 2 ^ nat (e - ?t)) * 2 ^ nat (?t - (e - int j))"
      by (metis mult.assoc power_add)
    have "rne (m * 2 ^ j) (nat (?t - (e - int j))) = m * 2 ^ nat (e - ?t)"
      unfolding eq using 2(1) by (intro rne_exact) simp
    with 2 show ?thesis by (simp add: rnd_sig_def t)
  next
    case 3
    then have "nat (?t - (e - int j)) = nat (?t - e) + j" by simp
    with 3 show ?thesis by (simp add: rnd_sig_def t rne_shift)
  qed
qed

lemma rnd_mono_scaled:
  assumes "0 < m" "scaled m e \<le> scaled m' e'"
  shows "scaled (rnd_sig m e) (rnd_exp m e) \<le> scaled (rnd_sig m' e') (rnd_exp m' e')"
proof -
  let ?t = "min e e'"
  define a where "a = m * 2 ^ nat (e - ?t)"
  define a' where "a' = m' * 2 ^ nat (e' - ?t)"
  have "0 < scaled m e" using assms(1) by (simp add: scaled_def)
  with assms(2) have "0 < m'" by (smt (verit) scaled_def of_int_0_less_iff power_int_eq_0_iff zero_less_mult_iff zero_less_power_int)
  have "of_int a * 2 powi ?t \<le> of_int a' * (2 powi ?t :: real)"
    using assms(2) by (simp only: a_def a'_def scaled_shift min.cobounded1 min.cobounded2)
  then have "a \<le> a'" by simp
  then have "scaled (rnd_sig a ?t) (rnd_exp a ?t) \<le> scaled (rnd_sig a' ?t) (rnd_exp a' ?t)"
    using assms(1) by (intro rnd_mono) (simp_all add: a_def)
  moreover have "rnd_exp a ?t = rnd_exp m e" "rnd_sig a ?t = rnd_sig m e"
    using rnd_shift [OF assms(1), of "nat (e - ?t)" e] by (simp_all add: a_def)
  moreover have "rnd_exp a' ?t = rnd_exp m' e'" "rnd_sig a' ?t = rnd_sig m' e'"
    using rnd_shift [OF \<open>0 < m'\<close>, of "nat (e' - ?t)" e'] by (simp_all add: a'_def)
  ultimately show ?thesis by simp
qed

lemma round_double_mono_pos:
  assumes "0 < m" "scaled m e \<le> scaled m' e'" "0 < m'"
  shows "\<not> d_less (round_double False m' e') (round_double False m e)"
    and "\<not> d_less (round_double True m e) (round_double True m' e')"
proof -
  have le: "scaled (rnd_sig m e) (rnd_exp m e) \<le> scaled (rnd_sig m' e') (rnd_exp m' e')"
    using assms(1,2) by (rule rnd_mono_scaled)
  have n: "scaled (- q) t = - scaled q t" for q t by (simp add: scaled_def)
  show "\<not> d_less (round_double False m' e') (round_double False m e)"
    by (cases rule: round_double_cases [OF assms(1), of False e];
        cases rule: round_double_cases [OF assms(3), of False e'])
      (use le in \<open>auto simp: d_less_scaled signed_def simp del: d_less.simps(1)\<close>)
  show "\<not> d_less (round_double True m e) (round_double True m' e')"
    by (cases rule: round_double_cases [OF assms(1), of True e];
        cases rule: round_double_cases [OF assms(3), of True e'])
      (use le in \<open>auto simp: d_less_scaled signed_def n simp del: d_less.simps(1)\<close>)
qed

lemma signed_simps [simp]: "signed False m = m" "signed True m = - m" "signed s 0 = 0"
  by (simp_all add: signed_def)

lemma scaled_sign [simp]:
  "scaled m e < 0 \<longleftrightarrow> m < 0" "0 < scaled m e \<longleftrightarrow> 0 < m" "scaled m e = 0 \<longleftrightarrow> m = 0"
  "scaled 0 e = 0" "scaled (- m) e = - scaled m e"
proof -
  have "0 < (2 :: real) powi e" by simp
  then have np: "\<not> (2 :: real) powi e < 0" by linarith
  show "scaled m e < 0 \<longleftrightarrow> m < 0" "0 < scaled m e \<longleftrightarrow> 0 < m" "scaled m e = 0 \<longleftrightarrow> m = 0"
    "scaled 0 e = 0" "scaled (- m) e = - scaled m e"
    by (simp_all add: np scaled_def mult_less_0_iff zero_less_mult_iff)
qed

lemma scaled_mult: "scaled a e * scaled b f = scaled (a * b) (e + f)"
  by (simp add: scaled_def power_int_add)

lemma signed_mult: "signed s a * b = signed s (a * b)"
  by (simp add: signed_def)

lemma d_less_zero_iff:
  "canonical x \<Longrightarrow> d_less x (DFin s 0 t) \<longleftrightarrow> d_neg x \<and> (\<forall>s' e. x \<noteq> DFin s' 0 e)"
  by (cases x) (auto simp: d_less_scaled signed_def simp del: d_less.simps(1))

lemma zero_d_less_iff:
  "canonical x \<Longrightarrow> x \<noteq> DNaN \<Longrightarrow> d_less (DFin s 0 t) x \<longleftrightarrow> \<not> d_neg x \<and> (\<forall>s' e. x \<noteq> DFin s' 0 e)"
  by (cases x) (auto simp: d_less_scaled signed_def simp del: d_less.simps(1))

lemma d_less_opposite:
  "canonical x \<Longrightarrow> canonical y \<Longrightarrow> \<not> d_neg x \<Longrightarrow> d_neg y \<Longrightarrow> \<not> d_less x y"
proof (cases x)
  case (DFin s m e)
  assume *: "canonical x" "canonical y" "\<not> d_neg x" "d_neg y"
  show ?thesis
  proof (cases y)
    case (DFin s' m' e')
    with * \<open>x = DFin s m e\<close> have "\<not> scaled m e < 0" "\<not> 0 < scaled (- m') e'" by simp_all
    with * DFin \<open>x = DFin s m e\<close> show ?thesis
      by (simp add: d_less_scaled del: d_less.simps(1) scaled_sign)
  qed (use * DFin in simp_all)
qed (cases y; simp)+

lemma round_double_0: "round_double s 0 e = DFin s 0 (-1074)"
  by (simp add: round_double_def)

lemma round_double_mono:
  assumes "0 \<le> m" "0 \<le> m'" "scaled (signed s m) e \<le> scaled (signed s' m') e'"
  shows "\<not> d_less (round_double s' m' e') (round_double s m e)"
proof -
  consider "m = 0" | "m' = 0" "m \<noteq> 0" | "s" "\<not> s'" "m \<noteq> 0" "m' \<noteq> 0" | "s = s'" "m \<noteq> 0" "m' \<noteq> 0"
    | "\<not> s" "s'" "m \<noteq> 0" "m' \<noteq> 0" by blast
  then show ?thesis
  proof cases
    case 1
    with assms(2,3) have "\<not> s' \<or> m' = 0" by (auto simp flip: not_less split: if_splits)
    with 1 assms(2) show ?thesis
      by (auto simp: round_double_0 d_less_zero_iff canonical_round_double)
  next
    case 2
    with assms have "s" by (cases s) (auto simp flip: not_less)
    with 2 assms(1) show ?thesis
      by (simp add: round_double_0 zero_d_less_iff canonical_round_double)
  next
    case 3
    with assms(1,2) show ?thesis by (simp add: d_less_opposite canonical_round_double)
  next
    case 4
    with assms round_double_mono_pos [of m e m' e'] round_double_mono_pos [of m' e' m e] show ?thesis
      by (cases s) auto
  next
    case 5
    then have "0 < scaled m e" "0 < scaled m' e'" using assms(1,2) by simp_all
    with 5 assms(3) show ?thesis by simp
  qed
qed

lemma d_of_int_finite:
  assumes "\<bar>i\<bar> \<le> 2 ^ 63"
  shows "\<exists>q t. d_of_int i = DFin (i < 0) q t \<and> 0 \<le> q \<and> (q = 0 \<longleftrightarrow> i = 0)"
proof (cases "i = 0")
  case False
  then have pos: "0 < \<bar>i\<bar>" by simp
  have "bitlen \<bar>i\<bar> \<le> 64" using assms by (simp add: bitlen_le_iff_power)
  then have t: "rnd_exp \<bar>i\<bar> 0 \<le> 11" by (simp add: rnd_exp_def)
  have "rnd_exp \<bar>i\<bar> 0 \<le> 0 + int 63" using t by simp
  from rnd_pow2_bound(1) [OF this] assms
  have le: "scaled (rnd_sig \<bar>i\<bar> 0) (rnd_exp \<bar>i\<bar> 0) \<le> 2 powi 63" by simp
  have "rnd_exp \<bar>i\<bar> 0 \<noteq> -1074" using bitlen_nonneg [of "\<bar>i\<bar>"] by (simp add: rnd_exp_def)
  then have "2 ^ 52 \<le> rnd_sig \<bar>i\<bar> 0" using rnd_sig_bounds(3) [OF pos, of 0] by blast
  then have "0 < scaled (rnd_sig \<bar>i\<bar> 0) (rnd_exp \<bar>i\<bar> 0)" by simp
  then show ?thesis
    by (cases rule: round_double_cases [OF pos, of "i < 0" 0])
      (use le False in \<open>auto simp: d_of_int_def power_int_def\<close>)
qed (simp add: d_of_int_def round_double_0)

lemma d_of_int_mono: "a \<le> b \<Longrightarrow> \<not> d_less (d_of_int b) (d_of_int a)"
  unfolding d_of_int_def by (rule round_double_mono) (simp_all add: signed_def scaled_def)

text \<open>Conversion followed by a multiplication with a positive factor keeps the order.\<close>

lemma d_mul_of_int_mono:
  assumes "a \<le> b" "\<bar>a\<bar> \<le> 2 ^ 63" "\<bar>b\<bar> \<le> 2 ^ 63" "0 < mp"
  shows "\<not> d_less (d_mul (d_of_int b) (DFin False mp ep)) (d_mul (d_of_int a) (DFin False mp ep))"
proof -
  obtain q t where a: "d_of_int a = DFin (a < 0) q t" "0 \<le> q" using d_of_int_finite [OF assms(2)] by blast
  obtain q' t' where b: "d_of_int b = DFin (b < 0) q' t'" "0 \<le> q'" using d_of_int_finite [OF assms(3)] by blast
  have "scaled (signed (a < 0) q) t \<le> scaled (signed (b < 0) q') t'"
    using d_of_int_mono [OF assms(1)] by (simp add: a b d_less_scaled not_less del: d_less.simps(1))
  then have "scaled (signed (a < 0) q) t * scaled mp ep \<le> scaled (signed (b < 0) q') t' * scaled mp ep"
    using assms(4) by (intro mult_right_mono) (simp_all add: scaled_def)
  then have "scaled (signed (a < 0) (q * mp)) (t + ep) \<le> scaled (signed (b < 0) (q' * mp)) (t' + ep)"
    by (simp only: scaled_mult signed_mult)
  then show ?thesis
    using a b assms(4) by (simp add: round_double_mono)
qed

section \<open>Sums\<close>

lemma round_canonical: "canonical (DFin s m e) \<Longrightarrow> round_double s m e = DFin s m e"
proof (cases "m = 0")
  case False
  assume c: "canonical (DFin s m e)"
  then have m: "0 < m" "m < 2 ^ 53" using False by auto
  then have "bitlen m \<le> 53" by (simp add: bitlen_le_iff_power)
  moreover have "53 \<le> bitlen m" if "2 ^ 52 \<le> m"
  proof -
    have "\<not> bitlen m \<le> 52" using that by (simp add: bitlen_le_iff_power)
    then show ?thesis by linarith
  qed
  ultimately have "rnd_exp m e = e" using c by (auto simp: rnd_exp_def)
  then show ?thesis using c m by (auto simp: round_double_def rnd_sig_def Let_def)
qed (simp add: round_double_0)

text \<open>Adding something that is not negative never gives less.\<close>

lemma d_add_not_less:
  assumes "canonical a" "canonical x" "\<And>s m e. x = DFin s m e \<Longrightarrow> s \<Longrightarrow> m = 0" "x \<noteq> DInf True"
  shows "\<not> d_less (d_add a x) a"
proof (cases a)
  case a: (DFin s m e)
  show ?thesis
  proof (cases x)
    case x: (DFin s' m' e')
    let ?t = "min e e'"
    define v where "v = signed s m * 2 ^ nat (e - ?t) + signed s' m' * 2 ^ nat (e' - ?t)"
    have "scaled v ?t = of_int (signed s m * 2 ^ nat (e - ?t)) * 2 powi ?t
        + of_int (signed s' m' * 2 ^ nat (e' - ?t)) * 2 powi ?t"
      by (simp only: v_def scaled_def of_int_add distrib_right)
    also have "\<dots> = scaled (signed s m) e + scaled (signed s' m') e'"
      by (simp only: scaled_shift min.cobounded1 min.cobounded2)
    finally have "scaled v ?t = scaled (signed s m) e + scaled (signed s' m') e'" .
    moreover have "0 \<le> scaled (signed s' m') e'"
      using assms(2,3) x by (cases s') (auto simp: scaled_def)
    ultimately have le: "scaled (signed s m) e \<le> scaled v ?t" by simp
    have c: "0 \<le> m" "round_double s m e = a" using assms(1) a round_canonical by auto
    have "\<not> d_less (round_double (v < 0) \<bar>v\<bar> ?t) (round_double s m e)"
      using le c(1) by (intro round_double_mono) (auto simp: signed_def abs_if)
    moreover have "d_add a x = (if v = 0 then DFin (s \<and> s') 0 (-1074) else round_double (v < 0) \<bar>v\<bar> ?t)"
      by (simp add: a x v_def Let_def)
    moreover have "\<not> d_less (DFin (s \<and> s') 0 (-1074)) a" if "v = 0"
      using le that a by (simp add: d_less_scaled flip: not_less del: d_less.simps(1))
    ultimately show ?thesis using c(2) by simp
  qed (use a assms(4) in auto)
next
  case (DInf s)
  then show ?thesis using assms(4) by (cases x) auto
qed simp

end
