(* ===== verification/Price.thy ===== *)
theory Price
  imports Types Double "HOL-Library.Signed_Division"
begin

text \<open>
  The price helpers: the inline functions of \<open>include/common/types.h\<close> and the price and
  market-data routines of \<open>src/common/utils.c\<close>. A price is a decimal floating-point number
  \<open>mantissa * 10 ^ exponent\<close>; the code compares prices through \<open>double\<close>. The argument
  \<open>pow10\<close> is \<open>pow(10, \<cdot>)\<close> of the C library on integral arguments, the argument \<open>pad\<close> is
  the content of the padding of a freshly made \<open>Price\<close>.
\<close>

section \<open>Definitions\<close>

definition create_price :: "32 word \<Rightarrow> 64 word \<Rightarrow> 32 word \<Rightarrow> Price" where
  "create_price pad m e = \<lparr>mantissa = m, exponent = e, price_pad = pad\<rparr>"

definition price_to_double :: "(int \<Rightarrow> double) \<Rightarrow> Price \<Rightarrow> double" where
  "price_to_double pow10 p = d_mul (d_of_int (sint (mantissa p))) (pow10 (sint (exponent p)))"

definition double_to_price :: "(int \<Rightarrow> double) \<Rightarrow> 32 word \<Rightarrow> double \<Rightarrow> Price option" where
  "double_to_price pow10 pad value =
     (let e = (-6 :: 32 word)
      in map_option (\<lambda>i. \<lparr>mantissa = word_of_int i, exponent = e, price_pad = pad\<rparr>)
           (d_to_int64 (d_mul value (pow10 (- sint e)))))"

definition compare_prices :: "(int \<Rightarrow> double) \<Rightarrow> Price option \<Rightarrow> Price option \<Rightarrow> int" where
  "compare_prices pow10 p1 p2 =
     (case (p1, p2) of
        (Some p1, Some p2) \<Rightarrow>
          let price1 = price_to_double pow10 p1; price2 = price_to_double pow10 p2
          in if d_less price1 price2 then -1
             else if d_less price2 price1 then 1
             else 0
      | _ \<Rightarrow> 0)"

text \<open>The loop of \<open>normalize_price\<close>; \<open>%\<close> and \<open>/\<close> of C truncate.\<close>

function normalize_loop :: "Price \<Rightarrow> Price" where
  "normalize_loop p =
     (if sint (mantissa p) smod 10 = 0 \<and> sint (exponent p) < 0
      then normalize_loop (p\<lparr>mantissa := word_of_int (sint (mantissa p) sdiv 10),
                             exponent := exponent p + 1\<rparr>)
      else p)"
  by pat_completeness auto

termination normalize_loop
  by (relation "measure (\<lambda>p. nat (- sint (exponent p)))") (auto simp: sint32_Suc)

declare normalize_loop.simps [simp del]

definition normalize_price :: "Price option \<Rightarrow> Price option" where
  "normalize_price price = map_option normalize_loop price"

text \<open>\<open>snprintf\<close> of a rendered text: at most \<open>n - 1\<close> characters and a NUL.\<close>

definition snprintf_bytes :: "string \<Rightarrow> nat \<Rightarrow> byte list" where
  "snprintf_bytes s n = take (n - 1) (map of_char s) @ [0]"

definition price_to_string :: "(int \<Rightarrow> double) \<Rightarrow> Price option \<Rightarrow> byte list option \<Rightarrow> nat \<Rightarrow> (byte list option) option" where
  "price_to_string pow10 price buffer buffer_size =
     (case (price, buffer) of
        (Some p, Some buf) \<Rightarrow>
          if buffer_size = 0 then Some None
          else do {
            let value = price_to_double pow10 p;
            buf' \<leftarrow> store_at 0 (snprintf_bytes (format_f6 value) buffer_size) buf;
            Some (Some buf') }
      | _ \<Rightarrow> Some None)"

section \<open>Lemmas\<close>

lemma smod_10_iff: "i smod 10 = 0 \<longleftrightarrow> 10 dvd (i :: int)"
  by (auto simp: signed_modulo_int_def sgn_0_0)

lemma sdiv_10: "10 dvd i \<Longrightarrow> (i :: int) sdiv 10 = i div 10"
  by (simp add: signed_divide_int_eq_divide_int)

lemma normalize_loop_spec:
  "\<exists>k. sint (mantissa p) = sint (mantissa (normalize_loop p)) * 10 ^ k
     \<and> sint (exponent (normalize_loop p)) = sint (exponent p) + int k
     \<and> price_pad (normalize_loop p) = price_pad p
     \<and> \<not> (10 dvd sint (mantissa (normalize_loop p)) \<and> sint (exponent (normalize_loop p)) < 0)"
proof (induction p rule: normalize_loop.induct)
  case (1 p)
  show ?case
  proof (cases "sint (mantissa p) smod 10 = 0 \<and> sint (exponent p) < 0")
    case False
    then show ?thesis by (auto simp: normalize_loop.simps [of p] smod_10_iff intro: exI [of _ 0])
  next
    case True
    let ?m = "sint (mantissa p)"
    let ?p' = "p\<lparr>mantissa := word_of_int (?m sdiv 10), exponent := exponent p + 1\<rparr>"
    from True have d: "10 dvd ?m" by (simp add: smod_10_iff)
    then obtain c where c: "?m = 10 * c" by blast
    then have "sint (mantissa ?p') = c"
      using sint64_bounds [of "mantissa p"] by (simp add: sdiv_10)
    moreover have "normalize_loop p = normalize_loop ?p'"
      using True by (simp add: normalize_loop.simps [of p])
    moreover obtain k where "sint (mantissa ?p') = sint (mantissa (normalize_loop ?p')) * 10 ^ k"
      "sint (exponent (normalize_loop ?p')) = sint (exponent ?p') + int k"
      "price_pad (normalize_loop ?p') = price_pad ?p'"
      "\<not> (10 dvd sint (mantissa (normalize_loop ?p')) \<and> sint (exponent (normalize_loop ?p')) < 0)"
      using 1 True by blast
    ultimately show ?thesis
      using True c by (intro exI [of _ "Suc k"]) (auto simp: sint32_Suc)
  qed
qed

lemma normalize_loop_normal:
  "\<not> (10 dvd sint (mantissa p) \<and> sint (exponent p) < 0) \<Longrightarrow> normalize_loop p = p"
  by (auto simp: normalize_loop.simps [of p] smod_10_iff)

lemma d_less_asym: "d_less x y \<Longrightarrow> \<not> d_less y x"
  by (cases "(x, y)" rule: d_less.cases) (auto simp: Let_def min.commute)

lemma sint_abs_64: "\<bar>sint (w :: 64 word)\<bar> \<le> 2 ^ 63"
  using sint64_bounds [of w] by linarith

section \<open>Properties\<close>


text \<open>C34. Comparing prices of the same exponent is sound whatever the accuracy of \<open>pow\<close>, as long as
  it returns a positive finite factor: a reported order is the order of the mantissas, equal
  mantissas compare equal, and swapping the arguments negates the result.\<close>

theorem compare_prices_sound:
  assumes "exponent p1 = exponent p2"
    and "pow10 (sint (exponent p1)) = DFin False mp ep" "0 < mp"
  shows "(compare_prices pow10 (Some p1) (Some p2) = -1 \<longrightarrow> sint (mantissa p1) < sint (mantissa p2))
    \<and> (compare_prices pow10 (Some p1) (Some p2) = 1 \<longrightarrow> sint (mantissa p2) < sint (mantissa p1))
    \<and> (mantissa p1 = mantissa p2 \<longrightarrow> compare_prices pow10 (Some p1) (Some p2) = 0)
    \<and> compare_prices pow10 (Some p2) (Some p1) = - compare_prices pow10 (Some p1) (Some p2)"
proof -
  let ?d1 = "price_to_double pow10 p1" and ?d2 = "price_to_double pow10 p2"
  have "\<not> d_less ?d2 ?d1" if "sint (mantissa p1) \<le> sint (mantissa p2)"
    using d_mul_of_int_mono [OF that sint_abs_64 sint_abs_64 assms(3)] assms(1,2)
    by (simp add: price_to_double_def)
  moreover have "\<not> d_less ?d1 ?d2" if "sint (mantissa p2) \<le> sint (mantissa p1)"
    using d_mul_of_int_mono [OF that sint_abs_64 sint_abs_64 assms(3)] assms(1,2)
    by (simp add: price_to_double_def)
  ultimately show ?thesis
    using d_less_asym [of ?d1 ?d2] d_less_asym [of ?d2 ?d1] linorder_less_linear
    by (auto simp: compare_prices_def Let_def not_le [symmetric])
qed

theorem compare_prices_sound_witness:
  "compare_prices pow10_rn (Some \<lparr>mantissa = 100, exponent = -2, price_pad = 0\<rparr>)
     (Some \<lparr>mantissa = 100, exponent = -2, price_pad = 7\<rparr>) = 0"
proof -
  have "pow10_rn (-2) = DFin False 5764607523034235 (-59)" by code_simp
  then show ?thesis
    using compare_prices_sound
      [of "\<lparr>mantissa = 100, exponent = -2, price_pad = 0\<rparr>"
          "\<lparr>mantissa = 100, exponent = -2, price_pad = 7\<rparr>" pow10_rn 5764607523034235 "-59"]
    by simp
qed

text \<open>Comparison depends on the representation: with correctly rounded powers of ten, 30 cents
  written as 30 hundredths compares as less than the same price written as 3 tenths, although
  normalising turns the one into the other.\<close>

theorem compare_prices_depends_on_representation:
  "normalize_price (Some \<lparr>mantissa = 30, exponent = -2, price_pad = 0\<rparr>)
     = Some \<lparr>mantissa = 3, exponent = -1, price_pad = 0\<rparr>
   \<and> compare_prices pow10_rn (Some \<lparr>mantissa = 30, exponent = -2, price_pad = 0\<rparr>)
       (Some \<lparr>mantissa = 3, exponent = -1, price_pad = 0\<rparr>) = -1"
proof
  show "normalize_price (Some \<lparr>mantissa = 30, exponent = -2, price_pad = 0\<rparr>)
     = Some \<lparr>mantissa = 3, exponent = -1, price_pad = 0\<rparr>"
    by (simp add: normalize_price_def normalize_loop.simps)
  show "compare_prices pow10_rn (Some \<lparr>mantissa = 30, exponent = -2, price_pad = 0\<rparr>)
       (Some \<lparr>mantissa = 3, exponent = -1, price_pad = 0\<rparr>) = -1"
    by code_simp
qed

text \<open>Converting a price to \<open>double\<close> and back can lose a unit in the last place: the cast in
  \<open>double_to_price\<close> truncates. With correctly rounded powers of ten 15 millionths come back as 14.\<close>

theorem double_to_price_truncates:
  "double_to_price pow10_rn 0 (price_to_double pow10_rn \<lparr>mantissa = 15, exponent = -6, price_pad = 0\<rparr>)
     = Some \<lparr>mantissa = 14, exponent = -6, price_pad = 0\<rparr>"
  by code_simp

end
