(* ===== verification/Runtime.thy ===== *)
theory Runtime
  imports Types Double
begin

text \<open>
  The world around the program. Every call into the C library or the operating system is a
  value of \<open>sys_call\<close>; the environment is a parameter \<open>os\<close> that answers each call with a
  reply that may depend on everything that happened before. The trace of the world records
  every call with its reply, in order, so it is the complete observable behaviour.
  Mutex operations are calls too, which makes the lock discipline a property of traces.
  \<open>EnvSignal\<close> is no call of the program: it asks the environment whether a signal has been
  delivered since the last time, and its reply is the number of that signal or 0.
\<close>

section \<open>Definitions\<close>

text \<open>Arguments of a log line; the \<open>%s\<close> of a byte array reads it up to its terminator.\<close>

datatype log_arg =
  LInt int | LStr "byte list" | LLit string | LDbl double | LErrno int | LAddr "byte list"

datatype sys_call =
    SysTime
  | SysClock
  | SysStrftime "64 word"
  | SysStdout string "byte list" string string "log_arg list"
  | SysFileWrite int "byte list" string string "log_arg list"
  | SysPrint string "log_arg list"
  | SysStderr string "log_arg list"
  | SysFopen "byte list"
  | SysFclose int
  | SysExit int
  | SysLock string
  | SysUnlock string
  | SysMutexInit string
  | SysMutexDestroy string
  | SysAlloc int
  | SysFree string
  | SysSigaction int
  | SysSocket
  | SysSetsockopt int
  | SysBind int "16 word"
  | SysListen int nat
  | SysFcntl int
  | SysAccept int
  | SysInetPton "byte list"
  | SysConnect int "byte list" "16 word"
  | SysSend int "byte list"
  | SysRecv int nat
  | SysShutdown int
  | SysClose int
  | SysUsleep nat
  | SysThreadCreate
  | SysThreadJoin nat
  | SysCallback string "byte list"
  | SysGets nat
  | EnvSignal

record sys_reply =
  ret :: int
  err :: int
  rbytes :: "byte list"

type_synonym history = "(sys_call \<times> sys_reply) list"
type_synonym os = "history \<Rightarrow> sys_call \<Rightarrow> sys_reply"

datatype LogLevel = LOG_TRACE | LOG_DEBUG | LOG_INFO | LOG_WARN | LOG_ERROR | LOG_FATAL

text \<open>\<open>static FILE* log_file\<close>: NULL, \<open>stderr\<close> or an opened file.\<close>

datatype log_target = NoFile | Stderr | File int

record world =
  log_file :: log_target
  minimum_level :: LogLevel
  errno :: int
  trace :: history

text \<open>The calls whose failure the code reports through \<open>errno\<close>.\<close>

fun sets_errno :: "sys_call \<Rightarrow> bool" where
  "sets_errno SysSocket = True"
| "sets_errno (SysSetsockopt _) = True"
| "sets_errno (SysBind _ _) = True"
| "sets_errno (SysListen _ _) = True"
| "sets_errno (SysAccept _) = True"
| "sets_errno (SysConnect _ _ _) = True"
| "sets_errno (SysSend _ _) = True"
| "sets_errno (SysRecv _ _) = True"
| "sets_errno _ = False"

definition syscall :: "os \<Rightarrow> sys_call \<Rightarrow> world \<Rightarrow> sys_reply \<times> world" where
  "syscall os c w =
     (let r = os (trace w) c
      in (r, w\<lparr>errno := (if sets_errno c \<and> ret r < 0 then err r else errno w),
               trace := trace w @ [(c, r)]\<rparr>))"

text \<open>A call whose reply the code ignores.\<close>

definition docall :: "os \<Rightarrow> sys_call \<Rightarrow> world \<Rightarrow> world" where
  "docall os c w = snd (syscall os c w)"

text \<open>\<open>time(NULL)\<close>.\<close>

definition get_time :: "os \<Rightarrow> world \<Rightarrow> 64 word \<times> world" where
  "get_time os w = (let (r, w1) = syscall os SysTime w in (word_of_int (ret r), w1))"

text \<open>\<open>EAGAIN\<close> and \<open>EWOULDBLOCK\<close> have the same value on Linux.\<close>

definition EAGAIN :: int where "EAGAIN = 11"
definition EINPROGRESS :: int where "EINPROGRESS = 115"

text \<open>An environment that answers every call with \<open>r\<close>, and the world of a fresh process, for
  concrete runs.\<close>

definition const_os :: "int \<Rightarrow> os" where
  "const_os r h c = \<lparr>ret = r, err = 0, rbytes = []\<rparr>"

definition fresh_world :: world where
  "fresh_world = \<lparr>log_file = NoFile, minimum_level = LOG_INFO, errno = 0, trace = []\<rparr>"

section \<open>Projections of the trace\<close>

fun sent_of :: "sys_call \<times> sys_reply \<Rightarrow> (int \<times> byte list) list" where
  "sent_of (SysSend s bs, r) = [(s, bs)]"
| "sent_of _ = []"

definition sends :: "world \<Rightarrow> (int \<times> byte list) list" where
  "sends w = concat (map sent_of (trace w))"

fun closed_of :: "sys_call \<times> sys_reply \<Rightarrow> int list" where
  "closed_of (SysClose s, r) = [s]"
| "closed_of _ = []"

definition closes :: "world \<Rightarrow> int list" where
  "closes w = concat (map closed_of (trace w))"

fun callback_of :: "sys_call \<times> sys_reply \<Rightarrow> (string \<times> byte list) list" where
  "callback_of (SysCallback f bs, r) = [(f, bs)]"
| "callback_of _ = []"

definition callbacks_made :: "world \<Rightarrow> (string \<times> byte list) list" where
  "callbacks_made w = concat (map callback_of (trace w))"

fun poll_of :: "sys_call \<times> sys_reply \<Rightarrow> nat" where
  "poll_of (EnvSignal, r) = 1"
| "poll_of _ = 0"

definition polls :: "history \<Rightarrow> nat" where
  "polls h = sum_list (map poll_of h)"

text \<open>The order in which a thread may take locks: the logger's mutex is the only one that is taken while
  another one is held.\<close>

definition lock_rank :: "string \<Rightarrow> nat" where
  "lock_rank l = (if l = ''log_mutex'' then 1 else 0)"

text \<open>The locks held after a history: \<^term>\<open>None\<close> when a lock was released that was not the last one
  taken, or taken while holding one of the same or a higher rank.\<close>

fun run_locks :: "history \<Rightarrow> string list \<Rightarrow> string list option" where
  "run_locks [] held = Some held"
| "run_locks ((SysLock l, r) # h) held =
     (if \<forall>l' \<in> set held. lock_rank l' < lock_rank l then run_locks h (l # held) else None)"
| "run_locks ((SysUnlock l, r) # h) held =
     (case held of [] \<Rightarrow> None | l' # ls \<Rightarrow> if l = l' then run_locks h ls else None)"
| "run_locks (_ # h) held = run_locks h held"

section \<open>Lemmas\<close>

lemma polls_append [simp]: "polls (h @ h') = polls h + polls h'" "polls [] = 0" "polls (e # h) = poll_of e + polls h"
  by (simp_all add: polls_def)

lemma syscall_simps [simp]:
  "fst (syscall os c w) = os (trace w) c"
  "trace (snd (syscall os c w)) = trace w @ [(c, os (trace w) c)]"
  "log_file (snd (syscall os c w)) = log_file w"
  "minimum_level (snd (syscall os c w)) = minimum_level w"
  by (simp_all add: syscall_def Let_def)

lemma docall_simps [simp]:
  "trace (docall os c w) = trace w @ [(c, os (trace w) c)]"
  "log_file (docall os c w) = log_file w"
  "minimum_level (docall os c w) = minimum_level w"
  by (simp_all add: docall_def)

lemma errno_docall [simp]: "\<not> sets_errno c \<Longrightarrow> errno (docall os c w) = errno w"
  by (simp add: docall_def syscall_def Let_def)

lemma errno_syscall [simp]: "\<not> sets_errno c \<Longrightarrow> errno (snd (syscall os c w)) = errno w"
  by (simp add: syscall_def Let_def)

lemma get_time_simps [simp]:
  "trace (snd (get_time os w)) = trace w @ [(SysTime, os (trace w) SysTime)]"
  "log_file (snd (get_time os w)) = log_file w"
  "minimum_level (snd (get_time os w)) = minimum_level w"
  "errno (snd (get_time os w)) = errno w"
  by (simp_all add: get_time_def syscall_def Let_def)

lemma run_locks_append:
  "run_locks (h @ h') held = Option.bind (run_locks h held) (run_locks h')"
  by (induction h held rule: run_locks.induct) (auto split: list.splits)

lemma lock_rank_simps [simp]:
  "lock_rank ''log_mutex'' = 1" "l \<noteq> ''log_mutex'' \<Longrightarrow> lock_rank l = 0"
  by (simp_all add: lock_rank_def)

lemma below_log_mutex: "''log_mutex'' \<notin> set ls \<Longrightarrow> l \<in> set ls \<Longrightarrow> lock_rank l = 0"
  by (auto simp: lock_rank_def)

end
