(* ===== verification/Logger.thy ===== *)
theory Logger
  imports Runtime
begin

text \<open>
  \<open>include/common/logger.h\<close> and \<open>src/common/logger.c\<close>: the process-wide logger. Its globals
  \<open>log_file\<close> and \<open>minimum_level\<close> are fields of the world. A log line is recorded as the
  arguments the code hands to \<open>printf\<close> and \<open>fprintf\<close> (colour, timestamp text, level name,
  format, arguments); the constant source location that the macros add is left out.
  A \<open>%s\<close> argument that is not NUL-terminated is undefined behaviour, and only if the line is
  not filtered out.

  The header redefines \<open>ERROR_INVALID_PARAM\<close> as the macro \<open>-1\<close>. Every source file includes it
  after \<open>types.h\<close>, so the enumerator \<open>-8\<close> of \<open>types.h\<close> is never what a function returns.
\<close>

section \<open>Definitions\<close>

definition ERROR_INVALID_PARAM_macro :: int where "ERROR_INVALID_PARAM_macro = -1"
definition ERROR_FILE_OPEN :: int where "ERROR_FILE_OPEN = -2"

primrec level_index :: "LogLevel \<Rightarrow> nat" where
  "level_index LOG_TRACE = 0"
| "level_index LOG_DEBUG = 1"
| "level_index LOG_INFO = 2"
| "level_index LOG_WARN = 3"
| "level_index LOG_ERROR = 4"
| "level_index LOG_FATAL = 5"

definition LogLevel_of :: "32 word \<Rightarrow> LogLevel option" where
  "LogLevel_of w = map_of
     [(0, LOG_TRACE), (1, LOG_DEBUG), (2, LOG_INFO), (3, LOG_WARN), (4, LOG_ERROR),
      (5, LOG_FATAL)] w"

instantiation LogLevel :: linorder
begin

definition less_eq_LogLevel :: "LogLevel \<Rightarrow> LogLevel \<Rightarrow> bool" where
  "less_eq_LogLevel a b = (level_index a \<le> level_index b)"

definition less_LogLevel :: "LogLevel \<Rightarrow> LogLevel \<Rightarrow> bool" where
  "less_LogLevel a b = (level_index a < level_index b)"

instance
proof
  fix a b :: LogLevel
  show "a \<le> b \<Longrightarrow> b \<le> a \<Longrightarrow> a = b"
    by (cases a; cases b) (simp_all add: less_eq_LogLevel_def)
qed (auto simp: less_eq_LogLevel_def less_LogLevel_def)

end

primrec level_string :: "LogLevel \<Rightarrow> string" where
  "level_string LOG_TRACE = ''TRACE''"
| "level_string LOG_DEBUG = ''DEBUG''"
| "level_string LOG_INFO = ''INFO''"
| "level_string LOG_WARN = ''WARN''"
| "level_string LOG_ERROR = ''ERROR''"
| "level_string LOG_FATAL = ''FATAL''"

text \<open>The escape sequences \<open>"\x1b[3nm"\<close>.\<close>

definition ansi :: "char \<Rightarrow> string" where
  "ansi c = [char_of (27 :: nat), CHR ''['', CHR ''3'', c, CHR ''m'']"

primrec level_color :: "LogLevel \<Rightarrow> string" where
  "level_color LOG_TRACE = ansi (CHR ''4'')"
| "level_color LOG_DEBUG = ansi (CHR ''6'')"
| "level_color LOG_INFO = ansi (CHR ''2'')"
| "level_color LOG_WARN = ansi (CHR ''3'')"
| "level_color LOG_ERROR = ansi (CHR ''1'')"
| "level_color LOG_FATAL = ansi (CHR ''5'')"

fun arg_ok :: "log_arg \<Rightarrow> bool" where
  "arg_ok (LStr bs) = terminated bs"
| "arg_ok _ = True"

definition log_message :: "os \<Rightarrow> LogLevel \<Rightarrow> string \<Rightarrow> log_arg list \<Rightarrow> world \<Rightarrow> world option" where
  "log_message os level format args w =
     (if level < minimum_level w then Some w
      else
        let (now, w1) = get_time os w;
            (ts, w2) = syscall os (SysStrftime now) w1;
            w3 = docall os (SysLock ''log_mutex'') w2
        in if \<not> list_all arg_ok args then None
           else
             let w4 = docall os (SysStdout (level_color level) (rbytes ts) (level_string level) format args) w3;
                 w5 = (case log_file w4 of
                         File h \<Rightarrow> docall os (SysFileWrite h (rbytes ts) (level_string level) format args) w4
                       | _ \<Rightarrow> w4);
                 w6 = docall os (SysUnlock ''log_mutex'') w5
             in Some (if level = LOG_FATAL then docall os (SysExit 1) w6 else w6))"

text \<open>Consecutive calls of the same logging macro.\<close>

primrec log_lines :: "os \<Rightarrow> LogLevel \<Rightarrow> (string \<times> log_arg list) list \<Rightarrow> world \<Rightarrow> world option" where
  "log_lines os level [] w = Some w"
| "log_lines os level (l # ls) w =
     do { w1 \<leftarrow> log_message os level (fst l) (snd l) w; log_lines os level ls w1 }"

definition init_logger :: "os \<Rightarrow> byte list option \<Rightarrow> 32 word \<Rightarrow> world \<Rightarrow> (int \<times> world) option" where
  "init_logger os log_file_path min_level w =
     (case LogLevel_of min_level of
        None \<Rightarrow>
          Some (ERROR_INVALID_PARAM_macro,
            docall os (SysStderr ''Invalid log level: %d'' [LInt (sint min_level)]) w)
      | Some lvl \<Rightarrow>
          let w1 = w\<lparr>minimum_level := lvl\<rparr>
          in (case log_file_path of
                Some path \<Rightarrow>
                  if \<not> terminated path then None
                  else
                    let (r, w2) = syscall os (SysFopen path) w1
                    in if ret r = 0
                       then Some (ERROR_FILE_OPEN,
                         docall os (SysStderr ''Failed to open log file: %s'' [LStr path])
                           (w2\<lparr>log_file := NoFile\<rparr>))
                       else do {
                         w3 \<leftarrow> log_message os LOG_INFO ''Logger initialized with minimum level: %s''
                           [LLit (level_string lvl)] (w2\<lparr>log_file := File (ret r)\<rparr>);
                         Some (code_of SUCCESS, w3) }
              | None \<Rightarrow> do {
                  w3 \<leftarrow> log_message os LOG_INFO ''Logger initialized with minimum level: %s''
                    [LLit (level_string lvl)] (w1\<lparr>log_file := Stderr\<rparr>);
                  Some (code_of SUCCESS, w3) }))"

definition close_logger :: "os \<Rightarrow> world \<Rightarrow> world option" where
  "close_logger os w =
     (case log_file w of
        File h \<Rightarrow> do {
          w1 \<leftarrow> log_message os LOG_INFO ''Closing logger'' [] w;
          Some ((docall os (SysFclose h) w1)\<lparr>log_file := NoFile\<rparr>) }
      | _ \<Rightarrow> Some w)"

text \<open>The macros \<open>LOG_PERF_START(name)\<close> and \<open>LOG_PERF_END(name)\<close>: the start is a local variable of the
  caller.\<close>

definition CLOCKS_PER_SEC :: int where "CLOCKS_PER_SEC = 1000000"

definition log_perf_start :: "os \<Rightarrow> world \<Rightarrow> int \<times> world" where
  "log_perf_start os w = (let (r, w1) = syscall os SysClock w in (ret r, w1))"

definition log_perf_end :: "os \<Rightarrow> string \<Rightarrow> int \<Rightarrow> world \<Rightarrow> world option" where
  "log_perf_end os name start w =
     (let (r, w1) = syscall os SysClock w;
          duration = d_mul (d_div (d_of_int (ret r - start)) (d_of_int CLOCKS_PER_SEC)) (d_of_int 1000)
      in log_message os LOG_DEBUG ''Performance [%s]: %.2f ms'' [LLit name, LDbl duration] w1)"

section \<open>Logging is quiet\<close>

text \<open>The calls logging makes, and the relation between the worlds before and after a log line:
  nothing changes but such calls at the end of the trace, and no lock stays taken.\<close>

fun log_call :: "sys_call \<Rightarrow> bool" where
  "log_call SysTime = True"
| "log_call (SysStrftime _) = True"
| "log_call (SysLock l) = (l = ''log_mutex'')"
| "log_call (SysUnlock l) = (l = ''log_mutex'')"
| "log_call (SysStdout _ _ _ _ _) = True"
| "log_call (SysFileWrite _ _ _ _ _) = True"
| "log_call SysClock = True"
| "log_call _ = False"

definition quiet :: "world \<Rightarrow> world \<Rightarrow> bool" where
  "quiet w w' \<longleftrightarrow> log_file w' = log_file w \<and> minimum_level w' = minimum_level w \<and> errno w' = errno w
     \<and> (\<exists>l. trace w' = trace w @ l \<and> list_all (log_call \<circ> fst) l
          \<and> (\<forall>held. ''log_mutex'' \<notin> set held \<longrightarrow> run_locks l held = Some held))"

lemma quiet_refl [simp, intro]: "quiet w w"
  by (auto simp: quiet_def)

lemma quiet_trans [trans]:
  assumes "quiet a b" "quiet b c"
  shows "quiet a c"
  using assms by (auto simp: quiet_def run_locks_append)

lemma quiet_get_time [intro]: "quiet w (snd (get_time os w))"
  by (auto simp: quiet_def)

lemma quiet_projections:
  assumes "quiet w w'"
  shows "sends w' = sends w" "closes w' = closes w" "callbacks_made w' = callbacks_made w"
    "polls (trace w') = polls (trace w)"
proof -
  from assms obtain l where l: "trace w' = trace w @ l" "list_all (log_call \<circ> fst) l"
    by (auto simp: quiet_def)
  have s: "log_call c \<Longrightarrow> sent_of (c, r) = [] \<and> closed_of (c, r) = [] \<and> callback_of (c, r) = []
      \<and> poll_of (c, r) = 0" for c r
    by (cases c) auto
  then have "concat (map sent_of l) = []" "concat (map closed_of l) = []" "concat (map callback_of l) = []"
    "polls l = 0"
    using l(2) by (auto simp: concat_eq_Nil_conv list_all_iff polls_def)
  with l(1) show "sends w' = sends w" "closes w' = closes w" "callbacks_made w' = callbacks_made w"
    "polls (trace w') = polls (trace w)"
    by (simp_all add: sends_def closes_def callbacks_made_def)
qed

lemma log_message_quiet:
  "log_message os level format args w = Some w' \<Longrightarrow> level \<noteq> LOG_FATAL \<Longrightarrow> quiet w w'"
  by (auto simp: log_message_def quiet_def Let_def case_prod_unfold below_log_mutex split: if_splits log_target.splits)

lemma log_message_total:
  "list_all arg_ok args \<Longrightarrow> \<exists>w'. log_message os level format args w = Some w'"
  by (simp add: log_message_def Let_def split: prod.split)

lemma log_message_quiet_total:
  "list_all arg_ok args \<Longrightarrow> level \<noteq> LOG_FATAL \<Longrightarrow>
   \<exists>w'. log_message os level format args w = Some w' \<and> quiet w w'"
  using log_message_total log_message_quiet by blast

lemma log_message_None_iff:
  "log_message os level format args w = None \<longleftrightarrow> minimum_level w \<le> level \<and> \<not> list_all arg_ok args"
  by (auto simp: log_message_def Let_def case_prod_unfold not_less)

lemma log_perf_quiet:
  assumes "log_perf_start os w = (start, w1)" "log_perf_end os name start' w2 = Some w3"
  shows "quiet w w1" "quiet w2 w3"
proof -
  have c: "quiet u (snd (syscall os SysClock u))" for u by (auto simp: quiet_def)
  with assms(1) show "quiet w w1" by (auto simp: log_perf_start_def case_prod_unfold Let_def)
  from assms(2) show "quiet w2 w3"
    by (auto simp: log_perf_end_def case_prod_unfold Let_def dest!: log_message_quiet intro: quiet_trans [OF c])
qed

lemma log_lines_quiet:
  "log_lines os level ls w = Some w' \<Longrightarrow> level \<noteq> LOG_FATAL \<Longrightarrow> quiet w w'"
  by (induction ls arbitrary: w) (auto simp: bind_eq_Some_conv intro: quiet_trans dest: log_message_quiet)

lemma log_lines_total:
  "list_all (list_all arg_ok \<circ> snd) ls \<Longrightarrow> \<exists>w'. log_lines os level ls w = Some w'"
proof (induction ls arbitrary: w)
  case (Cons l ls)
  then obtain w1 where "log_message os level (fst l) (snd l) w = Some w1"
    using log_message_total by fastforce
  with Cons show ?case by simp
qed simp

lemma log_lines_quiet_total:
  "list_all (list_all arg_ok \<circ> snd) ls \<Longrightarrow> level \<noteq> LOG_FATAL \<Longrightarrow>
   \<exists>w'. log_lines os level ls w = Some w' \<and> quiet w w'"
  using log_lines_total log_lines_quiet by blast

section \<open>Steps that make only certain calls\<close>

text \<open>Between two worlds only calls of the class \<open>P\<close> were made, the logger was left alone and
  every lock taken was released.\<close>

definition only_calls :: "(sys_call \<Rightarrow> bool) \<Rightarrow> world \<Rightarrow> world \<Rightarrow> bool" where
  "only_calls P w w' \<longleftrightarrow> log_file w' = log_file w \<and> minimum_level w' = minimum_level w
     \<and> (\<exists>l. trace w' = trace w @ l \<and> list_all (P \<circ> fst) l
          \<and> (\<forall>held. ''log_mutex'' \<notin> set held \<longrightarrow> run_locks l held = Some held))"

lemma only_calls_refl [simp, intro]: "only_calls P w w"
  by (auto simp: only_calls_def)

lemma only_calls_trans [trans]: "only_calls P a b \<Longrightarrow> only_calls P b c \<Longrightarrow> only_calls P a c"
  by (auto simp: only_calls_def run_locks_append)

lemma quiet_only_calls: "quiet w w' \<Longrightarrow> (\<And>c. log_call c \<Longrightarrow> P c) \<Longrightarrow> only_calls P w w'"
  by (auto simp: quiet_def only_calls_def list_all_iff)

lemma only_calls_weaken: "only_calls P w w' \<Longrightarrow> (\<And>c. P c \<Longrightarrow> Q c) \<Longrightarrow> only_calls Q w w'"
  by (auto simp: only_calls_def list_all_iff)

fun lock_call :: "sys_call \<Rightarrow> bool" where
  "lock_call (SysLock l) = True"
| "lock_call (SysUnlock l) = True"
| "lock_call _ = False"

lemma run_locks_skip: "\<not> lock_call c \<Longrightarrow> run_locks ((c, r) # h) held = run_locks h held"
  by (cases c) simp_all

lemma only_calls_docall: "P c \<Longrightarrow> \<not> lock_call c \<Longrightarrow> only_calls P w (docall os c w)"
  by (auto simp: only_calls_def run_locks_skip)

lemma only_calls_syscall: "P c \<Longrightarrow> \<not> lock_call c \<Longrightarrow> only_calls P w (snd (syscall os c w))"
  by (auto simp: only_calls_def run_locks_skip)

lemma only_calls_no_sends: "only_calls P w w' \<Longrightarrow> (\<And>s bs. \<not> P (SysSend s bs)) \<Longrightarrow> sends w' = sends w"
proof -
  assume "only_calls P w w'" and no: "\<And>s bs. \<not> P (SysSend s bs)"
  then obtain l where l: "trace w' = trace w @ l" "list_all (P \<circ> fst) l" by (auto simp: only_calls_def)
  have "sent_of (c, r) = []" if "P c" for c r using that no by (cases c) auto
  then have "concat (map sent_of l) = []" using l(2) by (auto simp: concat_eq_Nil_conv list_all_iff)
  with l(1) show ?thesis by (simp add: sends_def)
qed

lemma only_calls_no_closes: "only_calls P w w' \<Longrightarrow> (\<And>s. \<not> P (SysClose s)) \<Longrightarrow> closes w' = closes w"
proof -
  assume "only_calls P w w'" and no: "\<And>s. \<not> P (SysClose s)"
  then obtain l where l: "trace w' = trace w @ l" "list_all (P \<circ> fst) l" by (auto simp: only_calls_def)
  have "closed_of (c, r) = []" if "P c" for c r using that no by (cases c) auto
  then have "concat (map closed_of l) = []" using l(2) by (auto simp: concat_eq_Nil_conv list_all_iff)
  with l(1) show ?thesis by (simp add: closes_def)
qed

section \<open>Locks held, sockets closed\<close>

text \<open>The locks the program holds, innermost first.\<close>

definition held :: "world \<Rightarrow> string list option" where
  "held w = run_locks (trace w) []"

lemma held_quiet: "quiet w w' \<Longrightarrow> held w = Some ls \<Longrightarrow> ''log_mutex'' \<notin> set ls \<Longrightarrow> held w' = Some ls"
  by (auto simp: held_def quiet_def run_locks_append)

lemma held_only_calls:
  "only_calls P w w' \<Longrightarrow> held w = Some ls \<Longrightarrow> ''log_mutex'' \<notin> set ls \<Longrightarrow> held w' = Some ls"
  by (auto simp: held_def only_calls_def run_locks_append)

lemma held_docall [simp]: "\<not> lock_call c \<Longrightarrow> held (docall os c w) = held w"
  by (cases "held w") (auto simp: held_def run_locks_append run_locks_skip)

lemma held_syscall [simp]: "\<not> lock_call c \<Longrightarrow> held (snd (syscall os c w)) = held w"
  by (cases "held w") (auto simp: held_def run_locks_append run_locks_skip)

lemma held_get_time [simp]: "held (snd (get_time os w)) = held w"
  by (cases "held w") (auto simp: held_def run_locks_append)

lemma held_lock: "held w = Some [] \<Longrightarrow> held (docall os (SysLock l) w) = Some [l]"
  by (simp add: held_def run_locks_append)

lemma held_unlock: "held w = Some (l # ls) \<Longrightarrow> held (docall os (SysUnlock l) w) = Some ls"
  by (simp add: held_def run_locks_append)

lemma sends_docall: "sends (docall os c w) = sends w @ sent_of (c, os (trace w) c)"
  by (simp add: sends_def)

lemma closes_docall: "closes (docall os c w) = closes w @ closed_of (c, os (trace w) c)"
  by (simp add: closes_def)

lemma callbacks_docall: "callbacks_made (docall os c w) = callbacks_made w @ callback_of (c, os (trace w) c)"
  by (simp add: callbacks_made_def)

lemma snd_syscall: "snd (syscall os c w) = docall os c w"
  by (simp add: docall_def)

lemma sys_pair: "syscall os c w = (os (trace w) c, docall os c w)"
  by (simp add: prod_eq_iff snd_syscall)

lemmas docall_projections = sends_docall closes_docall callbacks_docall

lemma get_time_projections [simp]:
  "sends (snd (get_time os w)) = sends w" "closes (snd (get_time os w)) = closes w"
  "callbacks_made (snd (get_time os w)) = callbacks_made w"
  by (simp_all add: sends_def closes_def callbacks_made_def)

end
