(* ===== verification/Client.thy ===== *)
theory Client
  imports Serialization Price Logger
begin

text \<open>
  The client library: \<open>include/client/client_types.h\<close> and \<open>src/client/client.c\<close>. A callback that is
  set is a call of the trace that carries the bytes of its argument; \<open>user_data\<close> is handed through
  unchanged and left out. The receiver thread is its loop body and its epilogue; the steps of both
  threads are combined in the relation at the end. In the reply to \<open>pthread_create\<close> the member
  \<open>err\<close> is the thread handle.
\<close>

section \<open>Definitions\<close>

datatype ClientState =
  CLIENT_DISCONNECTED | CLIENT_CONNECTING | CLIENT_CONNECTED | CLIENT_AUTHENTICATING | CLIENT_READY | CLIENT_ERROR

record ClientStats =
  cs_messages_sent :: "64 word"
  cs_messages_received :: "64 word"
  cs_orders_sent :: "64 word"
  cs_trades_received :: "64 word"
  cs_errors_encountered :: "64 word"
  cs_connect_time :: "64 word"
  cs_last_heartbeat :: "64 word"

record ClientConfig =
  server_host :: "byte list"
  server_port :: int
  reconnect_attempts :: int
  cc_socket_timeout :: int
  cc_log_level :: "32 word"
  cc_log_file :: "byte list"
  cc_client_id :: "byte list"

text \<open>Which callbacks are not NULL.\<close>

record ClientCallbacks =
  on_connect :: bool
  on_disconnect :: bool
  on_market_data :: bool
  on_order_status :: bool
  on_trade :: bool
  on_error :: bool

record ClientContext =
  cl_socket :: int
  cl_state :: ClientState
  cl_stats :: ClientStats
  cl_config :: ClientConfig
  cl_callbacks :: ClientCallbacks
  receiver_thread :: nat
  cl_running :: int

definition no_callbacks :: ClientCallbacks where
  "no_callbacks = \<lparr>on_connect = False, on_disconnect = False, on_market_data = False,
     on_order_status = False, on_trade = False, on_error = False\<rparr>"

definition zero_ClientStats :: ClientStats where
  "zero_ClientStats = \<lparr>cs_messages_sent = 0, cs_messages_received = 0, cs_orders_sent = 0,
     cs_trades_received = 0, cs_errors_encountered = 0, cs_connect_time = 0, cs_last_heartbeat = 0\<rparr>"

definition sizeof_ClientContext :: nat where "sizeof_ClientContext = 776"

definition initialize_client ::
  "os \<Rightarrow> ClientConfig option \<Rightarrow> ClientCallbacks option \<Rightarrow> world \<Rightarrow> (ClientContext option \<times> world) option" where
  "initialize_client os cfg callbacks w =
     (case cfg of
        None \<Rightarrow> do {
          w1 \<leftarrow> log_message os LOG_ERROR ''Invalid client configuration'' [] w;
          Some (None, w1) }
      | Some c \<Rightarrow>
          let (a, w1) = syscall os (SysAlloc (int sizeof_ClientContext)) w
          in if ret a = 0
             then do {
               w2 \<leftarrow> log_message os LOG_ERROR ''Failed to allocate client context'' [] w1;
               Some (None, w2) }
             else
               let context = \<lparr>cl_socket = -1, cl_state = CLIENT_DISCONNECTED, cl_stats = zero_ClientStats,
                     cl_config = c, cl_callbacks = (case callbacks of Some cb \<Rightarrow> cb | None \<Rightarrow> no_callbacks),
                     receiver_thread = 0, cl_running = 1\<rparr>;
                   (r1, w2) = syscall os (SysMutexInit ''state_mutex'') w1;
                   (ok, w3) = (if ret r1 \<noteq> 0 then (False, w2)
                     else let (r2, w3) = syscall os (SysMutexInit ''stats_mutex'') w2 in (ret r2 = 0, w3))
               in if \<not> ok
                  then do {
                    w4 \<leftarrow> log_message os LOG_ERROR ''Failed to initialize mutexes'' [] w3;
                    Some (None, docall os (SysFree ''context'') w4) }
                  else do {
                    w4 \<leftarrow> log_message os LOG_INFO ''Client context initialized successfully'' [] w3;
                    Some (Some context, w4) })"

text \<open>The first half of \<open>connect_to_server\<close>: the address of the server; the flag tells success.\<close>

definition resolve_host :: "os \<Rightarrow> ClientContext \<Rightarrow> world \<Rightarrow> (bool \<times> byte list \<times> world) option" where
  "resolve_host os ctx w =
     do {
       is_localhost \<leftarrow> c_streq (server_host (cl_config ctx)) (lit ''localhost'');
       if is_localhost
       then
         let (r, w1) = syscall os (SysInetPton (lit ''127.0.0.1'')) w
         in if ret r \<le> 0
            then do {
              w2 \<leftarrow> log_message os LOG_ERROR ''Failed to resolve localhost'' [] w1;
              Some (False, [], w2) }
            else Some (True, rbytes r, w1)
       else
         let (r, w1) = syscall os (SysInetPton (server_host (cl_config ctx))) w
         in if ret r \<le> 0
            then do {
              w2 \<leftarrow> log_message os LOG_ERROR ''Invalid server address: %s'' [LStr (server_host (cl_config ctx))] w1;
              Some (False, [], w2) }
            else Some (True, rbytes r, w1) }"

text \<open>The second half: state, receiver thread and callback of an established connection.\<close>

definition finish_connect :: "os \<Rightarrow> ClientContext \<Rightarrow> world \<Rightarrow> (int \<times> ClientContext \<times> world) option" where
  "finish_connect os ctx w =
     (let w1 = docall os (SysLock ''state_mutex'') w;
          (now, w2) = get_time os w1;
          ctx1 = ctx\<lparr>cl_state := CLIENT_CONNECTED, cl_stats := (cl_stats ctx)\<lparr>cs_connect_time := now\<rparr>\<rparr>;
          w3 = docall os (SysUnlock ''state_mutex'') w2;
          (r, w4) = syscall os SysThreadCreate w3
      in if ret r \<noteq> 0
         then do {
           w5 \<leftarrow> log_message os LOG_ERROR ''Failed to create receiver thread: %s'' [LErrno (errno w4)] w4;
           Some (code_of ERROR_THREAD_CREATE, ctx1, docall os (SysClose (cl_socket ctx1)) w5) }
         else
           let ctx2 = ctx1\<lparr>receiver_thread := nat (err r)\<rparr>;
               w5 = (if on_connect (cl_callbacks ctx2) then docall os (SysCallback ''on_connect'' []) w4 else w4)
           in do {
             w6 \<leftarrow> log_message os LOG_INFO ''Connected to server %s:%d''
               [LStr (server_host (cl_config ctx2)), LInt (server_port (cl_config ctx2))] w5;
             Some (code_of SUCCESS, ctx2, w6) })"

definition connect_to_server :: "os \<Rightarrow> ClientContext option \<Rightarrow> world \<Rightarrow> (int \<times> ClientContext option \<times> world) option" where
  "connect_to_server os context w =
     (case context of
        None \<Rightarrow> Some (ERROR_INVALID_PARAM_macro, None, w)
      | Some ctx \<Rightarrow>
          let w1 = docall os (SysLock ''state_mutex'') w;
              w2 = docall os (SysUnlock ''state_mutex'') w1
          in if cl_state ctx = CLIENT_CONNECTED
             then Some (code_of ERROR_INVALID_STATE, Some ctx, w2)
             else do {
               (ok, addr, w3) \<leftarrow> resolve_host os ctx w2;
               if \<not> ok then Some (code_of ERROR_SOCKET_CONNECT, Some ctx, w3)
               else
                 let (r, w4) = syscall os SysSocket w3; ctx1 = ctx\<lparr>cl_socket := ret r\<rparr>
                 in if cl_socket ctx1 < 0
                    then do {
                      w5 \<leftarrow> log_message os LOG_ERROR ''Failed to create socket: %s'' [LErrno (errno w4)] w4;
                      Some (code_of ERROR_SOCKET_CREATE, Some ctx1, w5) }
                    else
                      let w5 = docall os (SysFcntl (cl_socket ctx1)) (docall os (SysFcntl (cl_socket ctx1)) w4);
                          (c, w6) = syscall os (SysConnect (cl_socket ctx1) addr
                            (word_of_int (server_port (cl_config ctx1)))) w5
                      in if ret c < 0 \<and> errno w6 \<noteq> EINPROGRESS
                         then do {
                           w7 \<leftarrow> log_message os LOG_ERROR ''Failed to connect to server: %s'' [LErrno (errno w6)] w6;
                           Some (code_of ERROR_SOCKET_CONNECT, Some ctx1, docall os (SysClose (cl_socket ctx1)) w7) }
                         else do {
                           (rc, ctx2, w7) \<leftarrow> finish_connect os ctx1 w6;
                           Some (rc, Some ctx2, w7) } })"

definition disconnect_from_server :: "os \<Rightarrow> ClientContext option \<Rightarrow> world \<Rightarrow> (ClientContext option \<times> world) option" where
  "disconnect_from_server os context w =
     (case context of
        None \<Rightarrow> Some (None, w)
      | Some ctx \<Rightarrow>
          let ctx1 = ctx\<lparr>cl_running := 0\<rparr>;
              w1 = docall os (SysLock ''state_mutex'') w;
              (ctx2, w2) = (if cl_socket ctx1 \<ge> 0
                then (ctx1\<lparr>cl_socket := -1\<rparr>,
                      docall os (SysClose (cl_socket ctx1)) (docall os (SysShutdown (cl_socket ctx1)) w1))
                else (ctx1, w1));
              w3 = docall os (SysUnlock ''state_mutex'') w2;
              (ctx3, w4) = (if receiver_thread ctx2 \<noteq> 0
                then (ctx2\<lparr>receiver_thread := 0\<rparr>, docall os (SysThreadJoin (receiver_thread ctx2)) w3)
                else (ctx2, w3));
              w5 = docall os (SysLock ''state_mutex'') w4;
              ctx4 = ctx3\<lparr>cl_state := CLIENT_DISCONNECTED\<rparr>;
              w6 = docall os (SysUnlock ''state_mutex'') w5
          in do {
            w7 \<leftarrow> log_message os LOG_INFO ''Disconnected from server'' [] w6;
            Some (Some ctx4, w7) })"

definition cleanup_client :: "os \<Rightarrow> ClientContext option \<Rightarrow> world \<Rightarrow> world option" where
  "cleanup_client os context w =
     (case context of
        None \<Rightarrow> Some w
      | Some ctx \<Rightarrow> do {
          (ctx', w1) \<leftarrow> disconnect_from_server os (Some ctx) w;
          let w2 = docall os (SysMutexDestroy ''state_mutex'') w1;
          let w3 = docall os (SysMutexDestroy ''stats_mutex'') w2;
          let w4 = docall os (SysFree ''context'') w3;
          log_message os LOG_INFO ''Client resources cleaned up'' [] w4 })"

text \<open>\<open>size_t size = serialize_message(\<dots>)\<close> followed by \<open>send(socket, buffer, size, 0)\<close>: a negative result
  becomes a huge size, which the test \<open>size <= 0\<close> lets pass. \<^term>\<open>None\<close> in the inner option is that
  test succeeding.\<close>

definition serialize_and_send ::
  "os \<Rightarrow> int \<Rightarrow> Message \<Rightarrow> world \<Rightarrow> ((int \<times> int \<times> world) option) option" where
  "serialize_and_send os sock msg w =
     do {
       (rc, buffer) \<leftarrow> serialize_message (Some msg) (Some (replicate BUFFER_SIZE 0)) BUFFER_SIZE;
       let msg_size = rc mod 2 ^ 64;
       if msg_size \<le> 0 then Some None
       else do {
         data \<leftarrow> load_at 0 (nat msg_size) (the buffer);
         let (r, w1) = syscall os (SysSend sock data) w;
         Some (Some (msg_size, ret r, w1)) } }"

definition request_market_data ::
  "os \<Rightarrow> ClientContext option \<Rightarrow> byte list option \<Rightarrow> world \<Rightarrow> (int \<times> ClientContext option \<times> world) option" where
  "request_market_data os context symbol w =
     (case (context, symbol) of
        (Some ctx, Some symb) \<Rightarrow>
          if cl_state ctx \<noteq> CLIENT_CONNECTED then Some (code_of ERROR_INVALID_STATE, context, w)
          else
            let (now, w1) = get_time os w
            in do {
              mdata \<leftarrow> c_strncpy (init_data []) symb (MAX_SYMBOL_LENGTH - 1);
              let msg = \<lparr>msg_type = MessageType_val MSG_MARKET_DATA, sequence_num = 0,
                    msg_timestamp = now, msg_data = mdata\<rparr>;
              sent \<leftarrow> serialize_and_send os (cl_socket ctx) msg w1;
              (case sent of
                 None \<Rightarrow> do {
                   w2 \<leftarrow> log_message os LOG_ERROR ''Failed to serialize market data request'' [] w1;
                   Some (code_of ERROR_SERIALIZATION, context, w2) }
               | Some (msg_size, n, w2) \<Rightarrow>
                   if n < 0
                   then do {
                     w3 \<leftarrow> log_message os LOG_ERROR ''Failed to send market data request: %s'' [LErrno (errno w2)] w2;
                     Some (code_of ERROR_SOCKET_CONNECT, context, w3) }
                   else do {
                     let ctx1 = ctx\<lparr>cl_stats := (cl_stats ctx)
                       \<lparr>cs_messages_sent := cs_messages_sent (cl_stats ctx) + 1\<rparr>\<rparr>;
                     w3 \<leftarrow> log_message os LOG_INFO ''Requested market data for symbol: %s'' [LStr symb] w2;
                     Some (code_of SUCCESS, Some ctx1, w3) }) }
      | _ \<Rightarrow> Some (ERROR_INVALID_PARAM_macro, context, w))"

definition send_order ::
  "os \<Rightarrow> ClientContext option \<Rightarrow> Order option \<Rightarrow> world \<Rightarrow> (int \<times> ClientContext option \<times> world) option" where
  "send_order os context order w =
     (case (context, order) of
        (Some ctx, Some ord) \<Rightarrow>
          if cl_state ctx \<noteq> CLIENT_CONNECTED then Some (code_of ERROR_INVALID_STATE, context, w)
          else
            let (now, w1) = get_time os w;
                msg = \<lparr>msg_type = MessageType_val MSG_ORDER_NEW, sequence_num = 1,
                  msg_timestamp = now, msg_data = init_data (enc_Order ord)\<rparr>
            in do {
              sent \<leftarrow> serialize_and_send os (cl_socket ctx) msg w1;
              (case sent of
                 None \<Rightarrow> Some (code_of ERROR_SERIALIZATION, context, w1)
               | Some (serialized_size, n, w2) \<Rightarrow>
                   if n \<noteq> serialized_size then Some (code_of ERROR_SOCKET_CONNECT, context, w2)
                   else Some (code_of SUCCESS, Some (ctx\<lparr>cl_stats := (cl_stats ctx)
                       \<lparr>cs_orders_sent := cs_orders_sent (cl_stats ctx) + 1,
                        cs_messages_sent := cs_messages_sent (cl_stats ctx) + 1\<rparr>\<rparr>), w2)) }
      | _ \<Rightarrow> Some (ERROR_INVALID_PARAM_macro, context, w))"

definition send_data ::
  "os \<Rightarrow> ClientContext option \<Rightarrow> byte list option \<Rightarrow> nat \<Rightarrow> world \<Rightarrow> (int \<times> world) option" where
  "send_data os context data n w =
     (case (context, data) of
        (Some ctx, Some bs) \<Rightarrow>
          if n = 0 then Some (ERROR_INVALID_PARAM_macro, w)
          else do {
            out \<leftarrow> load_at 0 n bs;
            let (r, w1) = syscall os (SysSend (cl_socket ctx) out) w;
            Some (ret r, w1) }
      | _ \<Rightarrow> Some (ERROR_INVALID_PARAM_macro, w))"

definition receive_data ::
  "os \<Rightarrow> ClientContext option \<Rightarrow> byte list option \<Rightarrow> nat \<Rightarrow> world \<Rightarrow> (int \<times> byte list option \<times> world) option" where
  "receive_data os context buffer n w =
     (case (context, buffer) of
        (Some ctx, Some buf) \<Rightarrow>
          if n = 0 then Some (ERROR_INVALID_PARAM_macro, buffer, w)
          else
            let (r, w1) = syscall os (SysRecv (cl_socket ctx) n) w
            in do {
              buf' \<leftarrow> store_at 0 (take (nat (ret r)) (rbytes r)) buf;
              Some (ret r, Some buf', w1) }
      | _ \<Rightarrow> Some (ERROR_INVALID_PARAM_macro, buffer, w))"

definition callback :: "os \<Rightarrow> bool \<Rightarrow> string \<Rightarrow> byte list \<Rightarrow> world \<Rightarrow> world" where
  "callback os is_set name arg w = (if is_set then docall os (SysCallback name arg) w else w)"

text \<open>The switch of the receiver over the type of a message.\<close>

definition deliver :: "os \<Rightarrow> Message \<Rightarrow> ClientContext \<Rightarrow> world \<Rightarrow> (ClientContext \<times> world) option" where
  "deliver os msg ctx w =
     (case MessageType_of (msg_type msg) of
        Some MSG_ORDER_STATUS \<Rightarrow>
          Some (ctx, callback os (on_order_status (cl_callbacks ctx)) ''on_order_status''
            (enc_Order (data_order msg)) w)
      | Some MSG_MARKET_DATA \<Rightarrow>
          Some (ctx, callback os (on_market_data (cl_callbacks ctx)) ''on_market_data''
            (enc_MarketData (data_market_data msg)) w)
      | Some MSG_TRADE_EXEC \<Rightarrow>
          let w1 = callback os (on_trade (cl_callbacks ctx)) ''on_trade'' (enc_TradeExecution (data_trade msg)) w
          in Some (ctx\<lparr>cl_stats := (cl_stats ctx)
               \<lparr>cs_trades_received := cs_trades_received (cl_stats ctx) + 1\<rparr>\<rparr>, w1)
      | _ \<Rightarrow> do {
          w1 \<leftarrow> log_message os LOG_WARN ''Received unknown message type: %d'' [LInt (sint (msg_type msg))] w;
          Some (ctx, w1) })"

text \<open>One iteration of the receiver's loop (the flag tells whether it goes on) and the code after it.\<close>

definition receiver_iter ::
  "os \<Rightarrow> byte list \<Rightarrow> Message \<Rightarrow> ClientContext \<Rightarrow> world \<Rightarrow>
   (bool \<times> byte list \<times> Message \<times> ClientContext \<times> world) option" where
  "receiver_iter os buffer msg ctx w =
     (let (r, w1) = syscall os (SysRecv (cl_socket ctx) BUFFER_SIZE) w
      in if ret r < 0
         then if errno w1 = EAGAIN
              then Some (True, buffer, msg, ctx, docall os (SysUsleep 100000) w1)
              else do {
                w2 \<leftarrow> log_message os LOG_ERROR ''Error receiving from server: %s'' [LErrno (errno w1)] w1;
                Some (False, buffer, msg, ctx, w2) }
         else if ret r = 0
         then do {
           w2 \<leftarrow> log_message os LOG_INFO ''Server disconnected'' [] w1;
           Some (False, buffer, msg, ctx, w2) }
         else do {
           buf \<leftarrow> store_at 0 (take (nat (ret r)) (rbytes r)) buffer;
           (rc, m) \<leftarrow> deserialize_message (Some buf) (nat (ret r)) (Some msg);
           if rc \<noteq> code_of SUCCESS
           then do {
             w2 \<leftarrow> log_message os LOG_ERROR ''Failed to deserialize message'' [] w1;
             Some (True, buf, the m, ctx, w2) }
           else do {
             let ctx1 = ctx\<lparr>cl_stats := (cl_stats ctx)
               \<lparr>cs_messages_received := cs_messages_received (cl_stats ctx) + 1\<rparr>\<rparr>;
             (ctx2, w2) \<leftarrow> deliver os (the m) ctx1 w1;
             Some (True, buf, the m, ctx2, w2) } })"

definition receiver_exit :: "os \<Rightarrow> ClientContext \<Rightarrow> world \<Rightarrow> ClientContext \<times> world" where
  "receiver_exit os ctx w =
     (let w1 = docall os (SysLock ''state_mutex'') w;
          ctx1 = ctx\<lparr>cl_state := CLIENT_DISCONNECTED\<rparr>;
          w2 = docall os (SysUnlock ''state_mutex'') w1
      in (ctx1, callback os (on_disconnect (cl_callbacks ctx1)) ''on_disconnect'' [] w2))"

text \<open>The receiver thread on its own, cut off after \<open>n\<close> iterations.\<close>

fun message_receiver_thread ::
  "os \<Rightarrow> nat \<Rightarrow> byte list \<Rightarrow> Message \<Rightarrow> ClientContext \<Rightarrow> world \<Rightarrow>
   ((byte list \<times> Message \<times> ClientContext \<times> world) + (ClientContext \<times> world)) option" where
  "message_receiver_thread os 0 buffer msg ctx w = Some (Inl (buffer, msg, ctx, w))"
| "message_receiver_thread os (Suc n) buffer msg ctx w =
     (if cl_running ctx = 0 then Some (Inr (receiver_exit os ctx w))
      else do {
        (continue, buffer', msg', ctx', w') \<leftarrow> receiver_iter os buffer msg ctx w;
        if continue then message_receiver_thread os n buffer' msg' ctx' w'
        else Some (Inr (receiver_exit os ctx' w')) })"

section \<open>Sending\<close>

lemma serialize_and_send_wire:
  assumes "wf_Message m" "wire m = Some bs"
  shows "serialize_and_send os s m w =
    Some (Some (int (length bs), ret (os (trace w) (SysSend s bs)), docall os (SysSend s bs) w))"
proof -
  have len: "0 < length bs" "length bs \<le> 4096"
    using tp.img_length [OF assms] by (simp_all add: BUFFER_SIZE_def)
  have "int (length bs) mod 2 ^ 64 = int (length bs)" using len by (intro mod_pos_pos_trivial) simp_all
  then show ?thesis
    using len tp.ser_Some [OF assms, of "replicate BUFFER_SIZE 0"]
    by (simp add: serialize_and_send_def load_at_def slice_def sys_pair BUFFER_SIZE_def)
qed

lemma send_order_cases:
  fixes os w
  assumes "wf_Order ord" "cl_state ctx = CLIENT_CONNECTED"
  defines "bs \<equiv> frame 2 (enc_Order ord)" and "w1 \<equiv> snd (get_time os w)"
  shows "send_order os (Some ctx) (Some ord) w =
    Some (if ret (os (trace w1) (SysSend (cl_socket ctx) bs)) = 148
          then (code_of SUCCESS, Some (ctx\<lparr>cl_stats := (cl_stats ctx)
             \<lparr>cs_orders_sent := cs_orders_sent (cl_stats ctx) + 1,
              cs_messages_sent := cs_messages_sent (cl_stats ctx) + 1\<rparr>\<rparr>), docall os (SysSend (cl_socket ctx) bs) w1)
          else (code_of ERROR_SOCKET_CONNECT, Some ctx, docall os (SysSend (cl_socket ctx) bs) w1))"
proof -
  let ?m = "\<lparr>msg_type = 2, sequence_num = 1, msg_timestamp = fst (get_time os w), msg_data = init_data (enc_Order ord)\<rparr>"
  have l: "length (enc_Order ord) = 128" using order_codec.enc_length [OF assms(1)] by (simp add: sizeof_defs)
  then have "wf_Message ?m" using wf_Message_init_data [of "enc_Order ord"] by (simp add: sizeof_defs)
  moreover have "wire ?m = Some bs" using l by (simp add: wire_def payload_len_def init_data_def bs_def)
  ultimately show ?thesis
    using assms(2) l serialize_and_send_wire [of ?m bs os "cl_socket ctx" w1]
    by (simp add: send_order_def case_prod_unfold Let_def w1_def [symmetric] bs_def)
qed

text \<open>A market data request is a zero \<open>MarketData\<close> with the first 15 characters of the symbol.\<close>

definition request_payload :: "byte list \<Rightarrow> MarketData" where
  "request_payload symb = zero_MarketData\<lparr>md_symbol :=
     take 15 (c_str symb) @ replicate (16 - min 15 (length (c_str symb))) 0\<rparr>"

lemma wf_request_payload: "wf_MarketData (request_payload symb)"
  by (simp add: wf_MarketData_def request_payload_def size_constants)

lemma enc_request_payload:
  "enc_MarketData (request_payload symb) =
     take 15 (c_str symb) @ replicate (104 - min 15 (length (c_str symb))) 0"
proof -
  have z: "enc_MarketData zero_MarketData = replicate 104 0"
    using market_data_codec.enc_dec [of "replicate sizeof_MarketData 0"] by (simp add: zero_MarketData_def sizeof_defs)
  have "enc_MarketData (x\<lparr>md_symbol := s\<rparr>) = s @ drop (length (md_symbol x)) (enc_MarketData x)" for x s
    by (simp add: enc_MarketData_def)
  moreover have "length (md_symbol zero_MarketData) = 16"
    using wf_zero_structs(2) by (simp add: wf_MarketData_def size_constants)
  ultimately have "enc_MarketData (request_payload symb) =
      take 15 (c_str symb) @ replicate (16 - min 15 (length (c_str symb))) 0 @ replicate 88 0"
    by (simp add: request_payload_def z)
  also have "replicate (16 - min 15 (length (c_str symb))) (0 :: byte) @ replicate 88 0
      = replicate (104 - min 15 (length (c_str symb))) 0"
    by (simp add: replicate_add [symmetric])
  finally show ?thesis .
qed

lemma request_market_data_cases:
  fixes os w
  assumes "terminated symb" "cl_state ctx = CLIENT_CONNECTED"
  defines "bs \<equiv> frame 6 (enc_MarketData (request_payload symb))" and "w1 \<equiv> snd (get_time os w)"
  shows "\<exists>w'. request_market_data os (Some ctx) (Some symb) w =
    Some (if 0 \<le> ret (os (trace w1) (SysSend (cl_socket ctx) bs))
          then (code_of SUCCESS, Some (ctx\<lparr>cl_stats := (cl_stats ctx)
             \<lparr>cs_messages_sent := cs_messages_sent (cl_stats ctx) + 1\<rparr>\<rparr>), w')
          else (code_of ERROR_SOCKET_CONNECT, Some ctx, w'))
    \<and> quiet (docall os (SysSend (cl_socket ctx) bs) w1) w'"
proof -
  let ?n = "min 15 (length (c_str symb))"
  let ?data = "take 15 (c_str symb) @ replicate (264 - ?n) 0"
  let ?m = "\<lparr>msg_type = 6, sequence_num = 0, msg_timestamp = fst (get_time os w), msg_data = ?data\<rparr>"
  have sn: "c_strncpy (init_data []) symb 15 = Some ?data"
  proof -
    have "strncpy_bytes 15 symb = Some (take 15 (c_str symb) @ replicate (15 - length (c_str symb)) 0)"
      using assms(1) by (rule strncpy_bytes_terminated)
    moreover have "replicate (15 - length (c_str symb)) (0 :: byte) @ replicate 249 0 = replicate (264 - ?n) 0"
      by (simp add: replicate_add [symmetric])
    moreover have "min (length (c_str symb)) 15 + (15 - length (c_str symb)) = 15" by simp
    ultimately show ?thesis by (simp add: c_strncpy_def store_at_def init_data_def sizeof_defs)
  qed
  have "wf_Message ?m" by (simp add: wf_Message_def sizeof_defs)
  moreover have "wire ?m = Some bs"
    by (simp add: wire_def payload_len_def bs_def enc_request_payload min.commute)
  ultimately have send: "serialize_and_send os (cl_socket ctx) ?m w1 =
      Some (Some (124, ret (os (trace w1) (SysSend (cl_socket ctx) bs)), docall os (SysSend (cl_socket ctx) bs) w1))"
    using serialize_and_send_wire [of ?m bs os "cl_socket ctx" w1] market_data_codec.enc_length [OF wf_request_payload, of symb]
    by (simp add: bs_def sizeof_defs)
  let ?w2 = "docall os (SysSend (cl_socket ctx) bs) w1"
  obtain we wi where "log_message os LOG_ERROR ''Failed to send market data request: %s'' [LErrno (errno ?w2)] ?w2 = Some we"
    "quiet ?w2 we" "log_message os LOG_INFO ''Requested market data for symbol: %s'' [LStr symb] ?w2 = Some wi" "quiet ?w2 wi"
    using log_message_quiet_total [of "[LErrno (errno ?w2)]" LOG_ERROR os
        "''Failed to send market data request: %s''" ?w2]
      log_message_quiet_total [of "[LStr symb]" LOG_INFO os
        "''Requested market data for symbol: %s''" ?w2] assms(1) by auto
  then show ?thesis
    using assms(2) sn send
    by (auto simp: request_market_data_def case_prod_unfold Let_def w1_def [symmetric] size_constants)
qed

section \<open>Receiving\<close>

lemma callback_projections [simp]:
  "sends (callback os b n a w) = sends w" "closes (callback os b n a w) = closes w"
  "held (callback os b n a w) = held w"
  "callbacks_made (callback os b n a w) = callbacks_made w @ (if b then [(n, a)] else [])"
  by (simp_all add: callback_def docall_projections)

text \<open>Which callbacks a received message triggers: a parsed message has a payload type, so the branch
  for order status messages is dead.\<close>

definition triggers :: "ClientCallbacks \<Rightarrow> Message \<Rightarrow> (string \<times> byte list) list" where
  "triggers cb m =
     (if msg_type m = 6 \<and> on_market_data cb then [(''on_market_data'', enc_MarketData (data_market_data m))]
      else if msg_type m = 7 \<and> on_trade cb then [(''on_trade'', enc_TradeExecution (data_trade m))]
      else [])"

lemma deliver_spec:
  assumes "payload_len (msg_type m) = Some n"
  shows "\<exists>ctx' w'. deliver os m ctx w = Some (ctx', w')
    \<and> callbacks_made w' = callbacks_made w @ triggers (cl_callbacks ctx) m
    \<and> sends w' = sends w \<and> closes w' = closes w
    \<and> ctx' = (if msg_type m = 7 then ctx\<lparr>cl_stats := (cl_stats ctx)
        \<lparr>cs_trades_received := cs_trades_received (cl_stats ctx) + 1\<rparr>\<rparr> else ctx)"
proof -
  obtain w1 where w1: "log_message os LOG_WARN ''Received unknown message type: %d'' [LInt (sint (msg_type m))] w = Some w1"
    "quiet w w1"
    using log_message_quiet_total [of "[LInt (sint (msg_type m))]" LOG_WARN os _ w] by auto
  from assms have "msg_type m \<in> {2, 3, 4, 6, 7}"
    by (auto simp: payload_len_def split: if_splits)
  then show ?thesis
    using w1 quiet_projections [OF w1(2)]
    by (auto simp: deliver_def MessageType_of_def triggers_def)
qed

lemma receiver_iter_message:
  assumes "os (trace w) (SysRecv (cl_socket ctx) BUFFER_SIZE) = r" "0 < ret r"
    and "store_at 0 (take (nat (ret r)) (rbytes r)) buffer = Some buf"
    and "deserialize_message (Some buf) (nat (ret r)) (Some msg) = Some (0, Some m)"
  shows "\<exists>ctx' w'. receiver_iter os buffer msg ctx w = Some (True, buf, m, ctx', w')
    \<and> callbacks_made w' = callbacks_made w @ triggers (cl_callbacks ctx) m \<and> sends w' = sends w
    \<and> cs_messages_received (cl_stats ctx') = cs_messages_received (cl_stats ctx) + 1
    \<and> cs_trades_received (cl_stats ctx')
        = cs_trades_received (cl_stats ctx) + (if msg_type m = 7 then 1 else 0)"
proof -
  obtain n where "payload_len (msg_type m) = Some n" using deserialize_success [OF assms(4)] by blast
  from deliver_spec [OF this, of os "ctx\<lparr>cl_stats := (cl_stats ctx)
      \<lparr>cs_messages_received := cs_messages_received (cl_stats ctx) + 1\<rparr>\<rparr>"
      "docall os (SysRecv (cl_socket ctx) BUFFER_SIZE) w"]
  obtain ctx' w' where "deliver os m (ctx\<lparr>cl_stats := (cl_stats ctx)
      \<lparr>cs_messages_received := cs_messages_received (cl_stats ctx) + 1\<rparr>\<rparr>)
      (docall os (SysRecv (cl_socket ctx) BUFFER_SIZE) w) = Some (ctx', w')"
    "callbacks_made w' = callbacks_made w @ triggers (cl_callbacks ctx) m" "sends w' = sends w"
    "cs_messages_received (cl_stats ctx') = cs_messages_received (cl_stats ctx) + 1"
    "cs_trades_received (cl_stats ctx') = cs_trades_received (cl_stats ctx) + (if msg_type m = 7 then 1 else 0)"
    by (auto simp: docall_projections)
  then show ?thesis
    using assms by (simp add: receiver_iter_def sys_pair)
qed

section \<open>The states of a client\<close>

text \<open>
  What every operation of the library keeps: the configuration and the callbacks, the two members of
  the statistics nobody writes, a cleared running flag, and a state that is either the old one,
  \<open>CLIENT_DISCONNECTED\<close> or \<open>CLIENT_CONNECTED\<close>.
\<close>

definition client_frame :: "ClientContext \<Rightarrow> ClientContext \<Rightarrow> bool" where
  "client_frame c c' \<longleftrightarrow> cl_config c' = cl_config c \<and> cl_callbacks c' = cl_callbacks c
     \<and> cs_errors_encountered (cl_stats c') = cs_errors_encountered (cl_stats c)
     \<and> cs_last_heartbeat (cl_stats c') = cs_last_heartbeat (cl_stats c)
     \<and> (cl_running c = 0 \<longrightarrow> cl_running c' = 0)
     \<and> cl_state c' \<in> {cl_state c, CLIENT_DISCONNECTED, CLIENT_CONNECTED}"

lemma client_frame_refl [simp]: "client_frame c c"
  by (simp add: client_frame_def)

locale client_op =
  fixes act :: "ClientContext \<Rightarrow> 'a \<Rightarrow> world \<Rightarrow> (ClientContext \<times> world) option"
  assumes act_frame: "act c x w = Some (c', w') \<Longrightarrow> client_frame c c'"
begin

lemma act_state:
  "act c x w = Some (c', w') \<Longrightarrow> cl_state c \<in> {CLIENT_DISCONNECTED, CLIENT_CONNECTED} \<Longrightarrow>
   cl_state c' \<in> {CLIENT_DISCONNECTED, CLIENT_CONNECTED}"
  by (drule act_frame) (auto simp: client_frame_def)

lemma act_running: "act c x w = Some (c', w') \<Longrightarrow> cl_running c = 0 \<Longrightarrow> cl_running c' = 0"
  by (drule act_frame) (simp add: client_frame_def)

end

text \<open>The operations as functions of the context, for the interpretations.\<close>

definition of_call :: "(int \<times> ClientContext option \<times> world) option \<Rightarrow> (ClientContext \<times> world) option" where
  "of_call r = (case r of Some (rc, Some c, w) \<Rightarrow> Some (c, w) | _ \<Rightarrow> None)"

lemma of_call_Some: "of_call r = Some (c, w) \<longleftrightarrow> (\<exists>rc. r = Some (rc, Some c, w))"
  by (auto simp: of_call_def split: option.splits)

interpretation so: client_op "\<lambda>c ord w. of_call (send_order os (Some c) ord w)" for os
  by unfold_locales (auto simp: of_call_Some send_order_def client_frame_def Let_def
      case_prod_unfold split: Option.bind_split_asm option.split_asm prod.split_asm if_split_asm)

interpretation rm: client_op "\<lambda>c symb w. of_call (request_market_data os (Some c) symb w)" for os
  by unfold_locales (auto simp: of_call_Some request_market_data_def client_frame_def Let_def
      case_prod_unfold split: Option.bind_split_asm option.split_asm prod.split_asm if_split_asm)

lemma finish_connect_frame: "finish_connect os c w = Some (rc, c', w') \<Longrightarrow> client_frame c c'"
  by (auto simp: finish_connect_def client_frame_def Let_def case_prod_unfold
      split: Option.bind_split_asm if_split_asm)

lemma client_frame_socket: "client_frame (c\<lparr>cl_socket := s\<rparr>) c' \<Longrightarrow> client_frame c c'"
    "client_frame c (c\<lparr>cl_socket := s\<rparr>)"
  by (simp_all add: client_frame_def)

lemma connect_frame: "connect_to_server os (Some c) w = Some (rc, Some c', w') \<Longrightarrow> client_frame c c'"
  unfolding connect_to_server_def Let_def case_prod_unfold option.case
  by (auto simp: bind_eq_Some_conv split: if_split_asm dest!: finish_connect_frame intro: client_frame_socket)

interpretation co: client_op "\<lambda>c (_ :: unit) w. of_call (connect_to_server os (Some c) w)" for os
  by unfold_locales (auto simp: of_call_Some dest: connect_frame)

interpretation di: client_op "\<lambda>c (_ :: unit) w. case disconnect_from_server os (Some c) w of
    Some (Some c', w') \<Rightarrow> Some (c', w') | _ \<Rightarrow> None" for os
  by unfold_locales (auto simp: disconnect_from_server_def client_frame_def Let_def
      case_prod_unfold split: Option.bind_split_asm option.split_asm prod.split_asm if_split_asm)

lemma deliver_frame: "deliver os m c w = Some (c', w') \<Longrightarrow> client_frame c c'"
  by (auto simp: deliver_def client_frame_def Let_def
      split: Option.bind_split_asm option.split_asm MessageType.split_asm)

lemma client_frame_received:
  "client_frame (c\<lparr>cl_stats := (cl_stats c)\<lparr>cs_messages_received := n\<rparr>\<rparr>) c' \<Longrightarrow> client_frame c c'"
  by (simp add: client_frame_def)

interpretation ri: client_op "\<lambda>c bm w. map_option (\<lambda>(continue, b, m, c', w'). (c', w'))
    (receiver_iter os (fst bm) (snd bm) c w)" for os
  by unfold_locales (auto simp: receiver_iter_def Let_def case_prod_unfold
      dest!: deliver_frame client_frame_received split: Option.bind_split_asm option.split_asm prod.split_asm if_split_asm)

interpretation re: client_op "\<lambda>c (_ :: unit) w. Some (receiver_exit os c w)" for os
  by unfold_locales (auto simp: receiver_exit_def client_frame_def Let_def)

text \<open>The states of the context under any interleaving of the API calls and the receiver thread.\<close>

inductive client_reach :: "ClientConfig \<Rightarrow> ClientContext \<Rightarrow> bool" for cfg where
  init: "initialize_client os (Some cfg) cb w = Some (Some c, w') \<Longrightarrow> client_reach cfg c"
| connect: "client_reach cfg c \<Longrightarrow> connect_to_server os (Some c) w = Some (rc, Some c', w') \<Longrightarrow> client_reach cfg c'"
| disconnect: "client_reach cfg c \<Longrightarrow> disconnect_from_server os (Some c) w = Some (Some c', w') \<Longrightarrow> client_reach cfg c'"
| request: "client_reach cfg c \<Longrightarrow> request_market_data os (Some c) symb w = Some (rc, Some c', w') \<Longrightarrow> client_reach cfg c'"
| order: "client_reach cfg c \<Longrightarrow> send_order os (Some c) ord w = Some (rc, Some c', w') \<Longrightarrow> client_reach cfg c'"
| receive: "client_reach cfg c \<Longrightarrow> receiver_iter os buffer msg c w = Some (continue, buffer', msg', c', w') \<Longrightarrow>
    client_reach cfg c'"
| receiver_exit: "client_reach cfg c \<Longrightarrow> receiver_exit os c w = (c', w') \<Longrightarrow> client_reach cfg c'"

inductive_cases client_reachE: "client_reach cfg c"

lemma initialize_client_context:
  assumes "initialize_client os (Some cfg) cb w = Some (Some c, w')"
  shows "c = \<lparr>cl_socket = -1, cl_state = CLIENT_DISCONNECTED, cl_stats = zero_ClientStats,
    cl_config = cfg, cl_callbacks = (case cb of Some cb \<Rightarrow> cb | None \<Rightarrow> no_callbacks),
    receiver_thread = 0, cl_running = 1\<rparr>"
  using assms
  by (auto simp: initialize_client_def Let_def case_prod_unfold split: Option.bind_split_asm if_split_asm)

definition client_inv :: "ClientConfig \<Rightarrow> ClientContext \<Rightarrow> bool" where
  "client_inv cfg c \<longleftrightarrow> cl_config c = cfg \<and> cl_state c \<in> {CLIENT_DISCONNECTED, CLIENT_CONNECTED}
     \<and> cs_errors_encountered (cl_stats c) = 0 \<and> cs_last_heartbeat (cl_stats c) = 0"

lemma client_frame_inv: "client_frame c c' \<Longrightarrow> client_inv cfg c \<Longrightarrow> client_inv cfg c'"
  by (auto simp: client_frame_def client_inv_def)

lemma client_reach_inv: "client_reach cfg c \<Longrightarrow> client_inv cfg c"
proof (induction rule: client_reach.induct)
  case (init os cb w c w')
  then show ?case
    using initialize_client_context [OF init] by (simp add: client_inv_def zero_ClientStats_def)
next
  case (connect c os w rc c' w')
  then show ?case using co.act_frame [of os c w c' w'] client_frame_inv by (auto simp: of_call_Some)
next
  case (disconnect c os w c' w')
  then show ?case using di.act_frame [of os c w c' w'] client_frame_inv by auto
next
  case (request c os symb w rc c' w')
  then show ?case using rm.act_frame [of os c symb w c' w'] client_frame_inv by (auto simp: of_call_Some)
next
  case (order c os ord w rc c' w')
  then show ?case using so.act_frame [of os c ord w c' w'] client_frame_inv by (auto simp: of_call_Some)
next
  case (receive c os buffer msg w continue buffer' msg' c' w')
  then show ?case using ri.act_frame [of os "(buffer, msg)" c w c' w'] client_frame_inv by auto
next
  case (receiver_exit c os w c' w')
  then show ?case using re.act_frame [of os c w c' w'] client_frame_inv by auto
qed

section \<open>Connecting\<close>

text \<open>A network that resolves every address, hands out sockets and accepts every connection.\<close>

definition network_up :: "os \<Rightarrow> bool" where
  "network_up os \<longleftrightarrow> (\<forall>h a. 0 < ret (os h (SysInetPton a))) \<and> (\<forall>h. 0 \<le> ret (os h SysSocket))
     \<and> (\<forall>h s a p. 0 \<le> ret (os h (SysConnect s a p)))"

text \<open>A network that resolves every address and hands out sockets, but refuses every connection.\<close>

definition network_refuses :: "os \<Rightarrow> bool" where
  "network_refuses os \<longleftrightarrow> (\<forall>h a. 0 < ret (os h (SysInetPton a))) \<and> (\<forall>h. 0 \<le> ret (os h SysSocket))
     \<and> (\<forall>h s a p. ret (os h (SysConnect s a p)) < 0 \<and> err (os h (SysConnect s a p)) \<noteq> EINPROGRESS)"

lemma resolve_host_up:
  assumes "\<forall>h a. 0 < ret (os h (SysInetPton a))" "terminated (server_host (cl_config c))"
  shows "\<exists>addr w'. resolve_host os c w = Some (True, addr, w')
    \<and> closes w' = closes w \<and> sends w' = sends w \<and> callbacks_made w' = callbacks_made w"
proof -
  have eq: "c_streq (server_host (cl_config c)) (lit ''localhost'')
      = Some (c_str (server_host (cl_config c)) = c_str (lit ''localhost''))"
    using assms(2) by (simp add: c_streq_terminated)
  have "\<not> ret (os h (SysInetPton a)) \<le> 0" for h a using assms(1) by (simp add: not_le)
  then show ?thesis by (simp add: resolve_host_def eq sys_pair docall_projections)
qed

text \<open>From the first lock to the call of \<open>connect\<close> on a new socket.\<close>

lemma connect_reaches_call:
  assumes "\<forall>h a. 0 < ret (os h (SysInetPton a))" "\<forall>h. 0 \<le> ret (os h SysSocket)"
    and "cl_state c \<noteq> CLIENT_CONNECTED" "terminated (server_host (cl_config c))"
  shows "\<exists>h addr w5. let s = ret (os h SysSocket);
      call = SysConnect s addr (word_of_int (server_port (cl_config c))); w6 = docall os call w5
    in closes w5 = closes w \<and> sends w5 = sends w \<and> callbacks_made w5 = callbacks_made w
    \<and> connect_to_server os (Some c) w =
      (if ret (os (trace w5) call) < 0 \<and> errno w6 \<noteq> EINPROGRESS
       then do {
         w7 \<leftarrow> log_message os LOG_ERROR ''Failed to connect to server: %s'' [LErrno (errno w6)] w6;
         Some (code_of ERROR_SOCKET_CONNECT, Some (c\<lparr>cl_socket := s\<rparr>), docall os (SysClose s) w7) }
       else map_option (\<lambda>(rc, c', w'). (rc, Some c', w')) (finish_connect os (c\<lparr>cl_socket := s\<rparr>) w6))"
proof -
  define w0 where "w0 = docall os (SysUnlock ''state_mutex'') (docall os (SysLock ''state_mutex'') w)"
  obtain addr w3 where r: "resolve_host os c w0 = Some (True, addr, w3)"
    "closes w3 = closes w0" "sends w3 = sends w0" "callbacks_made w3 = callbacks_made w0"
    using resolve_host_up assms(1,4) by blast
  let ?s = "ret (os (trace w3) SysSocket)"
  let ?w5 = "docall os (SysFcntl ?s) (docall os (SysFcntl ?s) (docall os SysSocket w3))"
  have s: "\<not> ?s < 0" using assms(2) by (simp add: not_less)
  have "closes ?w5 = closes w" "sends ?w5 = sends w" "callbacks_made ?w5 = callbacks_made w"
    using r by (simp_all add: w0_def docall_projections)
  then show ?thesis
    using assms(3) r(1) s
    by (intro exI [of _ "trace w3"] exI [of _ addr] exI [of _ ?w5])
      (simp add: connect_to_server_def w0_def [symmetric] sys_pair Let_def map_conv_bind_option comp_def
        case_prod_unfold)
qed

lemma connect_reaches_finish:
  assumes "network_up os" "cl_state c \<noteq> CLIENT_CONNECTED" "terminated (server_host (cl_config c))"
  shows "\<exists>h s w1. s = ret (os h SysSocket) \<and> 0 \<le> s \<and> closes w1 = closes w \<and> sends w1 = sends w
    \<and> callbacks_made w1 = callbacks_made w
    \<and> connect_to_server os (Some c) w =
        map_option (\<lambda>(rc, c', w'). (rc, Some c', w')) (finish_connect os (c\<lparr>cl_socket := s\<rparr>) w1)"
proof -
  have up: "\<forall>h a. 0 < ret (os h (SysInetPton a))" "\<forall>h. 0 \<le> ret (os h SysSocket)"
    "\<And>h s a p. \<not> ret (os h (SysConnect s a p)) < 0"
    using assms(1) by (simp_all add: network_up_def not_less)
  from connect_reaches_call [OF up(1,2) assms(2,3), of w] show ?thesis
    unfolding Let_def
  proof (elim exE conjE, goal_cases)
    case (1 h addr w5)
    then show ?case
      using up(2) by (intro exI [of _ h] exI [of _ "ret (os h SysSocket)"]
          exI [of _ "docall os (SysConnect (ret (os h SysSocket)) addr (word_of_int (server_port (cl_config c)))) w5"])
        (simp add: up(3) docall_projections)
  qed
qed

lemma connect_refused:
  assumes "network_refuses os" "cl_state c \<noteq> CLIENT_CONNECTED" "terminated (server_host (cl_config c))"
  shows "\<exists>s w'. 0 \<le> s \<and> closes w' = closes w @ [s] \<and> sends w' = sends w
    \<and> connect_to_server os (Some c) w = Some (code_of ERROR_SOCKET_CONNECT, Some (c\<lparr>cl_socket := s\<rparr>), w')"
proof -
  have no: "\<forall>h a. 0 < ret (os h (SysInetPton a))" "\<forall>h. 0 \<le> ret (os h SysSocket)"
    "ret (os h (SysConnect s a p)) < 0" "err (os h (SysConnect s a p)) \<noteq> EINPROGRESS" for h s a p
    using assms(1) by (simp_all add: network_refuses_def)
  then have errno: "errno (docall os (SysConnect s a p) w) \<noteq> EINPROGRESS" for s a p w
    by (simp add: docall_def syscall_def Let_def)
  from connect_reaches_call [OF no(1,2) assms(2,3), of w] show ?thesis
    unfolding Let_def
  proof (elim exE conjE, goal_cases)
    case (1 h addr w5)
    let ?w6 = "docall os (SysConnect (ret (os h SysSocket)) addr (word_of_int (server_port (cl_config c)))) w5"
    obtain w7 where w7: "log_message os LOG_ERROR ''Failed to connect to server: %s'' [LErrno (errno ?w6)] ?w6 = Some w7"
      "quiet ?w6 w7"
      using log_message_quiet_total [of "[LErrno (errno ?w6)]" LOG_ERROR os _ ?w6] by auto
    show ?case
      using 1 w7(1) no(2) quiet_projections [OF w7(2)]
      by (intro exI [of _ "ret (os h SysSocket)"] exI [of _ "docall os (SysClose (ret (os h SysSocket))) w7"])
        (simp add: no(3) errno docall_projections)
  qed
qed

lemma log_text:
  assumes "level \<noteq> LOG_FATAL"
  obtains v where "\<And>w. log_message os level f [] w = Some (v w)" "\<And>w. closes (v w) = closes w"
    "\<And>w. sends (v w) = sends w" "\<And>w. callbacks_made (v w) = callbacks_made w"
proof -
  have "\<exists>v. log_message os level f [] w = Some v \<and> quiet w v" for w
    using log_message_quiet_total [of "[]" level os f w] assms by simp
  then obtain v where v: "\<And>w. log_message os level f [] w = Some (v w) \<and> quiet w (v w)" by metis
  with that [of v] quiet_projections show ?thesis by blast
qed

lemma cleanup_total:
  "\<exists>w'. cleanup_client os (Some c) w = Some w' \<and> sends w' = sends w
    \<and> closes w' = closes w @ (if cl_socket c \<ge> 0 then [cl_socket c] else [])"
proof -
  obtain u where "\<And>w. log_message os LOG_INFO ''Disconnected from server'' [] w = Some (u w)"
    "\<And>w. closes (u w) = closes w" "\<And>w. sends (u w) = sends w"
    by (rule log_text [of LOG_INFO os "''Disconnected from server''"]) auto
  moreover obtain v where "\<And>w. log_message os LOG_INFO ''Client resources cleaned up'' [] w = Some (v w)"
    "\<And>w. closes (v w) = closes w" "\<And>w. sends (v w) = sends w"
    by (rule log_text [of LOG_INFO os "''Client resources cleaned up''"]) auto
  ultimately show ?thesis
    by (simp add: cleanup_client_def disconnect_from_server_def Let_def docall_projections)
qed

lemma finish_connect_no_thread:
  assumes "\<forall>h. ret (os h SysThreadCreate) \<noteq> 0"
  shows "\<exists>now w'. finish_connect os c w = Some (code_of ERROR_THREAD_CREATE,
      c\<lparr>cl_state := CLIENT_CONNECTED, cl_stats := (cl_stats c)\<lparr>cs_connect_time := now\<rparr>\<rparr>, w')
    \<and> closes w' = closes w @ [cl_socket c]"
proof -
  let ?w3 = "docall os (SysUnlock ''state_mutex'') (snd (get_time os (docall os (SysLock ''state_mutex'') w)))"
  let ?w4 = "docall os SysThreadCreate ?w3"
  obtain w5 where w5: "log_message os LOG_ERROR ''Failed to create receiver thread: %s'' [LErrno (errno ?w4)] ?w4 = Some w5"
    "quiet ?w4 w5"
    using log_message_quiet_total [of "[LErrno (errno ?w4)]" LOG_ERROR os _ ?w4] by auto
  then show ?thesis
    using assms quiet_projections [OF w5(2)]
    by (auto simp: finish_connect_def Let_def case_prod_unfold snd_syscall docall_projections)
qed

lemma finish_connect_thread:
  assumes "\<forall>h. ret (os h SysThreadCreate) = 0" "terminated (server_host (cl_config c))"
  shows "\<exists>now t w'. finish_connect os c w = Some (code_of SUCCESS,
      c\<lparr>cl_state := CLIENT_CONNECTED, cl_stats := (cl_stats c)\<lparr>cs_connect_time := now\<rparr>, receiver_thread := t\<rparr>, w')
    \<and> closes w' = closes w \<and> sends w' = sends w \<and> callbacks_made w' = callbacks_made w @ (if on_connect (cl_callbacks c) then [(''on_connect'', [])] else [])"
proof -
  let ?w3 = "docall os (SysUnlock ''state_mutex'') (snd (get_time os (docall os (SysLock ''state_mutex'') w)))"
  let ?w4 = "docall os SysThreadCreate ?w3"
  let ?w5 = "if on_connect (cl_callbacks c) then docall os (SysCallback ''on_connect'' []) ?w4 else ?w4"
  obtain w6 where w6: "log_message os LOG_INFO ''Connected to server %s:%d''
      [LStr (server_host (cl_config c)), LInt (server_port (cl_config c))] ?w5 = Some w6" "quiet ?w5 w6"
    using log_message_quiet_total [of "[LStr (server_host (cl_config c)), LInt (server_port (cl_config c))]" LOG_INFO os _ ?w5]
      assms(2) by auto
  then show ?thesis
    using assms(1) quiet_projections [OF w6(2)]
    by (auto simp: finish_connect_def Let_def case_prod_unfold snd_syscall docall_projections split: if_splits)
qed

text \<open>A connection that is only in progress counts as established: the client is set to connected and the
  application is told so, whatever becomes of the handshake.\<close>

lemma connect_in_progress:
  assumes "\<forall>h a. 0 < ret (os h (SysInetPton a))" "\<forall>h. 0 \<le> ret (os h SysSocket)"
    and "\<forall>h s a p. ret (os h (SysConnect s a p)) < 0 \<and> err (os h (SysConnect s a p)) = EINPROGRESS"
    and "\<forall>h. ret (os h SysThreadCreate) = 0" "terminated (server_host (cl_config c))"
    and "cl_state c \<noteq> CLIENT_CONNECTED" "on_connect (cl_callbacks c)"
  shows "\<exists>c' w'. connect_to_server os (Some c) w = Some (code_of SUCCESS, Some c', w')
    \<and> cl_state c' = CLIENT_CONNECTED \<and> callbacks_made w' = callbacks_made w @ [(''on_connect'', [])]"
proof -
  have errno: "errno (docall os (SysConnect s a p) w) = EINPROGRESS" for s a p w
    using assms(3) by (simp add: docall_def syscall_def Let_def)
  from connect_reaches_call [OF assms(1,2,6,5), of w] show ?thesis
    unfolding Let_def
  proof (elim exE conjE, goal_cases)
    case (1 h addr w5)
    let ?w6 = "docall os (SysConnect (ret (os h SysSocket)) addr (word_of_int (server_port (cl_config c)))) w5"
    obtain c' w' where "finish_connect os (c\<lparr>cl_socket := ret (os h SysSocket)\<rparr>) ?w6 = Some (code_of SUCCESS, c', w')"
      "cl_state c' = CLIENT_CONNECTED" "callbacks_made w' = callbacks_made ?w6 @ [(''on_connect'', [])]"
      using finish_connect_thread [of os, OF assms(4), of "c\<lparr>cl_socket := ret (os h SysSocket)\<rparr>" ?w6] assms(5,7) by auto
    with 1 show ?case by (simp add: errno docall_projections)
  qed
qed

section \<open>Properties\<close>

definition sample_client :: ClientContext where
  "sample_client = \<lparr>cl_socket = 4, cl_state = CLIENT_CONNECTED, cl_stats = zero_ClientStats,
     cl_config = \<lparr>server_host = lit ''localhost'', server_port = 8080, reconnect_attempts = 3,
       cc_socket_timeout = 30, cc_log_level = 2, cc_log_file = lit ''./client.log'', cc_client_id = lit ''c1''\<rparr>,
     cl_callbacks = no_callbacks\<lparr>on_market_data := True, on_disconnect := True\<rparr>, receiver_thread = 0, cl_running = 1\<rparr>"



text \<open>C25. \<open>request_market_data\<close> on a connected client sends one packet: a market-data message whose
  payload is all zero but for the first 15 bytes of the symbol. It counts the message unless \<open>send\<close>
  reports an error; a partial send counts as success.\<close>

theorem request_market_data_spec:
  assumes "terminated symb" "cl_state c = CLIENT_CONNECTED"
  shows "\<exists>c' w'. request_market_data os (Some c) (Some symb) w =
      Some (if ret (os (trace (snd (get_time os w))) (SysSend (cl_socket c)
               (frame (MessageType_val MSG_MARKET_DATA) (enc_MarketData (request_payload symb))))) < 0
            then code_of ERROR_SOCKET_CONNECT else code_of SUCCESS, Some c', w')
    \<and> sends w' = sends w @ [(cl_socket c, frame (MessageType_val MSG_MARKET_DATA) (enc_MarketData (request_payload symb)))]
    \<and> enc_MarketData (request_payload symb) = take 15 (c_str symb) @ replicate (104 - min 15 (length (c_str symb))) 0"
  using request_market_data_cases [OF assms, of os w] enc_request_payload [of symb]
  by (auto simp: sends_docall dest!: quiet_projections(1))

theorem request_market_data_spec_witness:
  "\<exists>c' w'. request_market_data (const_os 1) (Some sample_client) (Some (lit ''AAPL'')) fresh_world
      = Some (0, Some c', w') \<and> map fst (sends w') = [4]"
  using request_market_data_spec [of "lit ''AAPL''" sample_client "const_os 1" fresh_world]
  by (auto simp: sample_client_def const_os_def fresh_world_def sends_def)

text \<open>C26. In every reachable state of a client, whatever the order of API calls and receiver steps, the
  state is \<open>CLIENT_DISCONNECTED\<close> or \<open>CLIENT_CONNECTED\<close> (the other four are never used), the
  configuration is the one it was created with, and the error counter and heartbeat time are zero.\<close>

theorem client_states:
  assumes "client_reach cfg c"
  shows "cl_state c \<in> {CLIENT_DISCONNECTED, CLIENT_CONNECTED} \<and> cl_config c = cfg
    \<and> cs_errors_encountered (cl_stats c) = 0 \<and> cs_last_heartbeat (cl_stats c) = 0"
  using client_reach_inv [OF assms] by (simp add: client_inv_def)

text \<open>An environment in which allocation, the network and threads work.\<close>

definition client_os :: os where
  "client_os h c = \<lparr>ret = (case c of SysMutexInit l \<Rightarrow> 0 | SysThreadCreate \<Rightarrow> 0 | _ \<Rightarrow> 1), err = 7, rbytes = []\<rparr>"

lemma client_os_up: "network_up client_os" "\<forall>h. ret (client_os h SysThreadCreate) = 0"
  by (simp_all add: network_up_def client_os_def)

lemma initialize_client_up:
  assumes "\<forall>h n. ret (os h (SysAlloc n)) \<noteq> 0" "\<forall>h l. ret (os h (SysMutexInit l)) = 0"
  shows "\<exists>w'. initialize_client os (Some cfg) cb w = Some (Some
    \<lparr>cl_socket = -1, cl_state = CLIENT_DISCONNECTED, cl_stats = zero_ClientStats, cl_config = cfg,
     cl_callbacks = (case cb of Some b \<Rightarrow> b | None \<Rightarrow> no_callbacks), receiver_thread = 0, cl_running = 1\<rparr>, w')
    \<and> closes w' = closes w \<and> sends w' = sends w"
proof -
  obtain v where "\<And>u. log_message os LOG_INFO ''Client context initialized successfully'' [] u = Some (v u)"
    "\<And>u. closes (v u) = closes u" "\<And>u. sends (v u) = sends u"
    by (rule log_text [of LOG_INFO os "''Client context initialized successfully''"]) auto
  then show ?thesis
    using assms by (simp add: initialize_client_def Let_def sys_pair docall_projections)
qed

lemma initialize_client_ok:
  "\<exists>w'. initialize_client client_os (Some cfg) None w = Some (Some
    \<lparr>cl_socket = -1, cl_state = CLIENT_DISCONNECTED, cl_stats = zero_ClientStats, cl_config = cfg,
     cl_callbacks = no_callbacks, receiver_thread = 0, cl_running = 1\<rparr>, w')"
  using initialize_client_up [of client_os cfg None w] by (auto simp: client_os_def)

theorem client_states_witness:
  "\<exists>c. client_reach (cl_config sample_client) c \<and> cl_state c \<in> {CLIENT_DISCONNECTED, CLIENT_CONNECTED}"
proof -
  from initialize_client_ok obtain c w where
    "initialize_client client_os (Some (cl_config sample_client)) None fresh_world = Some (Some c, w)" by blast
  then have r: "client_reach (cl_config sample_client) c" by (rule client_reach.init)
  with client_states [OF r] show ?thesis by blast
qed

text \<open>C23. The receiver hands every parsed market-data message and trade to its callback, once, with exactly
  the bytes of the payload, and counts it; new, modified and cancelled orders trigger nothing. A
  parsed message is never an order status, so \<open>on_order_status\<close> is never called.\<close>

theorem receiver_dispatches:
  assumes "os (trace w) (SysRecv (cl_socket c) BUFFER_SIZE) = r" "0 < ret r"
    and "store_at 0 (take (nat (ret r)) (rbytes r)) buffer = Some buf"
    and "deserialize_message (Some buf) (nat (ret r)) (Some msg) = Some (serial_code SERIAL_SUCCESS, Some m)"
  shows "\<exists>c' w'. receiver_iter os buffer msg c w = Some (True, buf, m, c', w')
    \<and> callbacks_made w' = callbacks_made w @
        (if msg_type m = MessageType_val MSG_MARKET_DATA \<and> on_market_data (cl_callbacks c)
         then [(''on_market_data'', enc_MarketData (data_market_data m))]
         else if msg_type m = MessageType_val MSG_TRADE_EXEC \<and> on_trade (cl_callbacks c)
         then [(''on_trade'', enc_TradeExecution (data_trade m))] else [])
    \<and> msg_type m \<noteq> MessageType_val MSG_ORDER_STATUS
    \<and> cs_messages_received (cl_stats c') = cs_messages_received (cl_stats c) + 1
    \<and> cs_trades_received (cl_stats c')
        = cs_trades_received (cl_stats c) + (if msg_type m = MessageType_val MSG_TRADE_EXEC then 1 else 0)"
proof -
  have "msg_type m \<noteq> MessageType_val MSG_ORDER_STATUS"
    using deserialize_success [of buf "nat (ret r)" msg m] assms(4) by (auto simp: payload_len_def)
  then show ?thesis
    using receiver_iter_message [of os w c r, OF assms(1-3), of msg m] assms(4) by (auto simp: triggers_def)
qed

theorem receiver_dispatches_witness:
  "\<exists>c' w'. receiver_iter
      (\<lambda>h c. \<lparr>ret = 124, err = 0, rbytes = frame 6 (enc_MarketData zero_MarketData)\<rparr>)
      (replicate 4096 0) \<lparr>msg_type = 0, sequence_num = 0, msg_timestamp = 0, msg_data = replicate 264 0\<rparr>
      sample_client fresh_world
    = Some (True, frame 6 (enc_MarketData zero_MarketData) @ replicate 3972 0,
        \<lparr>msg_type = 6, sequence_num = 0, msg_timestamp = 0, msg_data = replicate 264 0\<rparr>, c', w')
    \<and> map fst (callbacks_made w') = [''on_market_data'']"
proof -
  let ?os = "\<lambda>(h :: history) (c :: sys_call). \<lparr>ret = 124, err = 0, rbytes = frame 6 (enc_MarketData zero_MarketData)\<rparr>"
  let ?m0 = "\<lparr>msg_type = 0, sequence_num = 0, msg_timestamp = 0, msg_data = replicate 264 0\<rparr> :: Message"
  have z: "enc_MarketData zero_MarketData = replicate 104 0"
    using market_data_codec.enc_dec [of "replicate sizeof_MarketData 0"] by (simp add: zero_MarketData_def sizeof_defs)
  have d: "deserialize_message (Some (frame 6 (replicate 104 0) @ replicate 3972 0)) 124 (Some ?m0)
      = Some (0, Some (?m0\<lparr>msg_type := 6, msg_data := replicate 104 0 @ drop 104 (replicate 264 0)\<rparr>))"
    using deserialize_frame [of 6 "replicate 104 0" 124 ?m0 "replicate 3972 0"]
    by (simp add: payload_len_def wf_Message_def sizeof_defs)
  have "replicate 104 (0 :: byte) @ replicate 160 0 = replicate 264 0" by (simp add: replicate_add [symmetric])
  then show ?thesis
    using receiver_dispatches [of ?os fresh_world sample_client _ "replicate 4096 0"
        "frame 6 (replicate 104 0) @ replicate 3972 0" ?m0 "?m0\<lparr>msg_type := 6, msg_data := replicate 264 0\<rparr>"] d
    by (auto simp: z store_at_def sample_client_def fresh_world_def callbacks_made_def)
qed

text \<open>C29. After a disconnect the library never receives again: a later \<open>connect_to_server\<close> reports success
  and the state \<open>CLIENT_CONNECTED\<close>, but the running flag stays cleared, so the new receiver thread
  leaves its loop before its first \<open>recv\<close> and sets the client back to disconnected.\<close>

theorem reconnect_never_receives:
  assumes "disconnect_from_server os (Some c) w = Some (Some c1, w1)"
    and "connect_to_server os' (Some c1) w2 = Some (code_of SUCCESS, Some c2, w3)"
  shows "message_receiver_thread os'' (Suc n) buffer msg c2 w4 = Some (Inr (receiver_exit os'' c2 w4))
    \<and> cl_state (fst (receiver_exit os'' c2 w4)) = CLIENT_DISCONNECTED
    \<and> cl_stats (fst (receiver_exit os'' c2 w4)) = cl_stats c2"
proof -
  have "cl_running c1 = 0"
    using assms(1)
    by (auto simp: disconnect_from_server_def Let_def case_prod_unfold split: Option.bind_split_asm if_split_asm)
  then have "cl_running c2 = 0"
    using co.act_running [of os' c1 w2 c2 w3] assms(2) by (simp add: of_call_Some)
  then show ?thesis by (simp add: receiver_exit_def Let_def)
qed

lemma disconnect_total: "\<exists>c' w'. disconnect_from_server os (Some c) w = Some (Some c', w') \<and> cl_config c' = cl_config c
    \<and> cl_state c' = CLIENT_DISCONNECTED"
proof -
  have "\<exists>v. log_message os LOG_INFO f [] u = Some v" for f u using log_message_total [of "[]"] by simp
  then obtain v where "\<And>u. log_message os LOG_INFO ''Disconnected from server'' [] u = Some (v u)" by metis
  then show ?thesis by (simp add: disconnect_from_server_def Let_def)
qed

theorem reconnect_never_receives_witness:
  "\<exists>c1 w1 c2 w3. disconnect_from_server client_os (Some sample_client) fresh_world = Some (Some c1, w1)
    \<and> connect_to_server client_os (Some c1) w1 = Some (0, Some c2, w3)
    \<and> message_receiver_thread client_os 1 [] \<lparr>msg_type = 0, sequence_num = 0, msg_timestamp = 0, msg_data = []\<rparr> c2 w3
        = Some (Inr (receiver_exit client_os c2 w3))"
proof -
  obtain c1 w1 where d: "disconnect_from_server client_os (Some sample_client) fresh_world = Some (Some c1, w1)"
    "cl_config c1 = cl_config sample_client" "cl_state c1 = CLIENT_DISCONNECTED"
    using disconnect_total by blast
  then have t: "terminated (server_host (cl_config c1))" by (simp add: sample_client_def)
  obtain s w2 where "connect_to_server client_os (Some c1) w1 =
      map_option (\<lambda>(rc, c', w'). (rc, Some c', w')) (finish_connect client_os (c1\<lparr>cl_socket := s\<rparr>) w2)"
    using connect_reaches_finish [OF client_os_up(1) _ t] d(3) by fastforce
  moreover obtain c2 w3 where "finish_connect client_os (c1\<lparr>cl_socket := s\<rparr>) w2 = Some (0, c2, w3)"
    using finish_connect_thread [of client_os, OF client_os_up(2), of "c1\<lparr>cl_socket := s\<rparr>" w2] t by auto
  ultimately have c: "connect_to_server client_os (Some c1) w1 = Some (0, Some c2, w3)" by simp
  show ?thesis
    using d(1) c reconnect_never_receives [OF d(1), of client_os w1 c2 w3] by auto
qed

text \<open>When the receiver thread cannot be created, \<open>connect_to_server\<close> reports
  \<open>ERROR_THREAD_CREATE\<close> and closes the socket, but leaves the client in \<open>CLIENT_CONNECTED\<close> with the
  number of the closed socket; a following \<open>send_order\<close> still sends on that number.\<close>

theorem failed_connect_stays_connected:
  assumes "network_up os" "\<forall>h. ret (os h SysThreadCreate) \<noteq> 0"
    and "cl_state c = CLIENT_DISCONNECTED" "terminated (server_host (cl_config c))" "wf_Order ord"
  shows "\<exists>c' w' rc c'' w''. connect_to_server os (Some c) w = Some (code_of ERROR_THREAD_CREATE, Some c', w')
    \<and> cl_state c' = CLIENT_CONNECTED \<and> closes w' = closes w @ [cl_socket c']
    \<and> send_order os (Some c') (Some ord) w' = Some (rc, c'', w'') \<and> map fst (sends w'') = map fst (sends w') @ [cl_socket c']"
proof -
  obtain s w1 where f: "closes w1 = closes w" "connect_to_server os (Some c) w =
      map_option (\<lambda>(rc, c', w'). (rc, Some c', w')) (finish_connect os (c\<lparr>cl_socket := s\<rparr>) w1)"
    using connect_reaches_finish [OF assms(1) _ assms(4), of w] assms(3) by auto
  obtain now w' where g: "finish_connect os (c\<lparr>cl_socket := s\<rparr>) w1 = Some (code_of ERROR_THREAD_CREATE,
      c\<lparr>cl_socket := s, cl_state := CLIENT_CONNECTED, cl_stats := (cl_stats c)\<lparr>cs_connect_time := now\<rparr>\<rparr>, w')"
    "closes w' = closes w1 @ [s]"
    using finish_connect_no_thread [of os, OF assms(2), of "c\<lparr>cl_socket := s\<rparr>" w1] by auto
  let ?c = "c\<lparr>cl_socket := s, cl_state := CLIENT_CONNECTED, cl_stats := (cl_stats c)\<lparr>cs_connect_time := now\<rparr>\<rparr>"
  have "\<exists>rc c'' w''. send_order os (Some ?c) (Some ord) w' = Some (rc, c'', w'')
      \<and> map fst (sends w'') = map fst (sends w') @ [s]"
    using send_order_cases [OF assms(5), of ?c os w'] by (simp add: sends_docall)
  then show ?thesis using f g by (intro exI [of _ ?c] exI [of _ w']) simp
qed

theorem failed_connect_stays_connected_witness:
  "\<exists>c' w' rc c'' w''. connect_to_server (const_os 1) (Some (sample_client\<lparr>cl_state := CLIENT_DISCONNECTED\<rparr>)) fresh_world
      = Some (-6, Some c', w')
    \<and> cl_state c' = CLIENT_CONNECTED \<and> closes w' = [cl_socket c']
    \<and> send_order (const_os 1) (Some c') (Some zero_Order) w' = Some (rc, c'', w'')"
  using failed_connect_stays_connected [of "const_os 1" "sample_client\<lparr>cl_state := CLIENT_DISCONNECTED\<rparr>" zero_Order fresh_world]
    wf_zero_structs(1)
  by (auto simp: network_up_def const_os_def sample_client_def fresh_world_def closes_def)

end
