(* ===== verification/Locking.thy ===== *)
theory Locking
  imports Logger
begin

text \<open>
  Threads that share the mutexes of a process. A thread is its identifier, the calls it still has to
  make and the locks it holds; a scheduler lets any thread make its next call unless that call
  takes a mutex somebody holds or waits for a thread that has not ended. The locale states what
  the calls of a program must satisfy, and shows that then no schedule deadlocks, a mutex never
  has two owners and every schedule ends.
\<close>

section \<open>The scheduler\<close>

type_synonym lthread = "nat \<times> history \<times> string list"

abbreviation thread_id :: "lthread \<Rightarrow> nat" where "thread_id t \<equiv> fst t"
abbreviation calls_left :: "lthread \<Rightarrow> history" where "calls_left t \<equiv> fst (snd t)"
abbreviation locks_of :: "lthread \<Rightarrow> string list" where "locks_of t \<equiv> snd (snd t)"

fun locks_after :: "sys_call \<Rightarrow> string list \<Rightarrow> string list" where
  "locks_after (SysLock l) ls = l # ls"
| "locks_after (SysUnlock l) ls = remove1 l ls"
| "locks_after _ ls = ls"

fun blocked :: "lthread list \<Rightarrow> sys_call \<Rightarrow> bool" where
  "blocked ts (SysLock l) = (\<exists>t \<in> set ts. l \<in> set (locks_of t))"
| "blocked ts (SysThreadJoin n) = (\<exists>t \<in> set ts. thread_id t = n \<and> calls_left t \<noteq> [])"
| "blocked ts _ = False"

text \<open>A successful \<open>pthread_create\<close> adds a thread with the identifier it stored; the new thread makes
  any sequence of calls the predicate \<open>body\<close> allows.\<close>

inductive lock_step :: "(history \<Rightarrow> bool) \<Rightarrow> lthread list \<Rightarrow> lthread list \<Rightarrow> bool" for body where
  run: "i < length ts \<Longrightarrow> ts ! i = (n, (c, r) # h, ls) \<Longrightarrow> \<not> blocked ts c \<Longrightarrow> c \<noteq> SysThreadCreate \<or> ret r \<noteq> 0 \<Longrightarrow>
    lock_step body ts (ts[i := (n, h, locks_after c ls)])"
| spawn: "i < length ts \<Longrightarrow> ts ! i = (n, (SysThreadCreate, r) # h, ls) \<Longrightarrow> ret r = 0 \<Longrightarrow> body h' \<Longrightarrow>
    lock_step body ts (ts[i := (n, h, ls)] @ [(nat (err r), h', [])])"

inductive_cases lock_stepE: "lock_step body ts ts'"

text \<open>No thread is waited for while holding a lock.\<close>

fun joins_unlocked :: "history \<Rightarrow> string list \<Rightarrow> bool" where
  "joins_unlocked [] ls = True"
| "joins_unlocked ((c, r) # h) ls =
     ((case c of SysThreadJoin n \<Rightarrow> ls = [] | _ \<Rightarrow> True) \<and> joins_unlocked h (locks_after c ls))"

lemma run_locks_Cons:
  "run_locks ((c, r) # h) ls = Some ls' \<Longrightarrow> run_locks h (locks_after c ls) = Some ls'"
  by (cases c) (auto split: if_splits list.splits)

lemma joins_unlocked_append:
  "run_locks h ls = Some ls' \<Longrightarrow> joins_unlocked (h @ h') ls = (joins_unlocked h ls \<and> joins_unlocked h' ls')"
proof (induction h arbitrary: ls)
  case (Cons e h)
  then show ?case using run_locks_Cons [of "fst e" "snd e" h ls ls'] by (cases e) auto
qed simp

text \<open>A thread obeys the lock discipline to its end; the invariant of the scheduler.\<close>

definition disciplined :: "lthread \<Rightarrow> bool" where
  "disciplined t \<longleftrightarrow> run_locks (calls_left t) (locks_of t) = Some [] \<and> joins_unlocked (calls_left t) (locks_of t)"

definition exclusive :: "lthread list \<Rightarrow> bool" where
  "exclusive ts \<longleftrightarrow> distinct (concat (map locks_of ts))"

fun joined :: "sys_call \<times> sys_reply \<Rightarrow> nat list" where
  "joined (SysThreadJoin n, r) = [n]"
| "joined _ = []"

definition joins :: "history \<Rightarrow> nat list" where
  "joins h = concat (map joined h)"

definition thread_inv :: "lthread list \<Rightarrow> bool" where
  "thread_inv ts \<longleftrightarrow> list_all disciplined ts \<and> exclusive ts
     \<and> ts \<noteq> [] \<and> thread_id (ts ! 0) = 0 \<and> 0 \<notin> set (joins (calls_left (ts ! 0)))
     \<and> (\<forall>i < length ts. 0 < i \<longrightarrow> joins (calls_left (ts ! i)) = [])"

lemma disciplined_next:
  assumes "disciplined (n, (c, r) # h, ls)"
  shows "disciplined (n, h, locks_after c ls)"
    and "c = SysLock l \<Longrightarrow> l' \<in> set ls \<Longrightarrow> lock_rank l' < lock_rank l"
    and "c = SysThreadJoin m \<Longrightarrow> ls = []"
  using assms by (cases c; auto simp: disciplined_def split: if_splits list.splits)+

lemma concat_update:
  assumes "i < length xs"
  shows "\<exists>ys zs. concat (xs[i := x]) = ys @ x @ zs \<and> concat xs = ys @ xs ! i @ zs"
proof -
  have "concat xs = concat (take i xs) @ xs ! i @ concat (drop (Suc i) xs)"
    using id_take_nth_drop [OF assms] by (metis concat.simps(2) concat_append)
  moreover have "concat (xs[i := x]) = concat (take i xs) @ x @ concat (drop (Suc i) xs)"
    using assms by (simp add: upd_conv_take_nth_drop)
  ultimately show ?thesis by blast
qed

lemma exclusive_update:
  assumes "exclusive ts" "i < length ts" "ts ! i = (n, (c, r) # h, ls)" "\<not> blocked ts c"
  shows "exclusive (ts[i := (n, h, locks_after c ls)])"
proof -
  obtain ys zs where e: "concat (map locks_of (ts[i := (n, h, locks_after c ls)])) = ys @ locks_after c ls @ zs"
    "concat (map locks_of ts) = ys @ ls @ zs"
    using concat_update [of i "map locks_of ts" "locks_after c ls"] assms(2,3) by (auto simp: map_update)
  have "l \<notin> set (ys @ ls @ zs)" if "c = SysLock l" for l
    using assms(4) that unfolding e(2) [symmetric] by auto
  then show ?thesis
    using assms(1) unfolding exclusive_def e
    by (cases c) (auto dest: notin_set_remove1 in_set_remove1 [THEN iffD1] intro: distinct_remove1 set_remove1_subset [THEN subsetD])
qed

lemma joins_Cons [simp]: "joins (e # h) = joined e @ joins h" "joins [] = []"
  by (simp_all add: joins_def)

lemma joins_append [simp]: "joins (h @ h') = joins h @ joins h'"
  by (simp add: joins_def)

lemma no_joins_unlocked: "joins h = [] \<Longrightarrow> joins_unlocked h ls"
proof (induction h arbitrary: ls)
  case (Cons e h)
  then show ?case by (cases "fst e"; cases e) auto
qed simp

text \<open>Somebody who waits for a mutex waits for a thread that waits for a mutex of a higher rank, and
  there are only two ranks.\<close>

lemma lock_rank_le: "lock_rank l \<le> 1"
  by (simp add: lock_rank_def)

definition stuck :: "lthread list \<Rightarrow> bool" where
  "stuck ts \<longleftrightarrow> (\<forall>t \<in> set ts. \<forall>c r h. calls_left t = (c, r) # h \<longrightarrow> blocked ts c)"

lemma stuck_chain:
  assumes "thread_inv ts" "stuck ts" "t \<in> set ts" "calls_left t = (SysLock l, r) # h"
  obtains t' l' r' h' where "t' \<in> set ts" "calls_left t' = (SysLock l', r') # h'" "lock_rank l < lock_rank l'"
proof -
  obtain t' where t': "t' \<in> set ts" "l \<in> set (locks_of t')"
    using assms(2-4) by (fastforce simp: stuck_def)
  then have d: "disciplined t'" using assms(1) by (auto simp: thread_inv_def list_all_iff)
  with t'(2) have "calls_left t' \<noteq> []" by (auto simp: disciplined_def)
  then obtain c r' h' where h': "calls_left t' = (c, r') # h'" by (cases "calls_left t'") auto
  then have "blocked ts c" using assms(2) t'(1) by (auto simp: stuck_def)
  then consider l' where "c = SysLock l'" | m where "c = SysThreadJoin m" by (cases c) auto
  then show ?thesis
  proof cases
    case 1
    with d h' t' show ?thesis using disciplined_next(2) [of "thread_id t'" c r' h' "locks_of t'"] that
      by (metis prod.collapse)
  next
    case 2
    with d h' t' show ?thesis using disciplined_next(3) [of "thread_id t'" c r' h' "locks_of t'"]
      by (metis empty_iff list.set(1) prod.collapse)
  qed
qed

lemma stuck_no_lock:
  assumes "thread_inv ts" "stuck ts" "t \<in> set ts"
  shows "calls_left t \<noteq> (SysLock l, r) # h"
proof
  assume "calls_left t = (SysLock l, r) # h"
  from stuck_chain [OF assms this] obtain t1 l1 r1 h1
    where 1: "t1 \<in> set ts" "calls_left t1 = (SysLock l1, r1) # h1" "lock_rank l < lock_rank l1" .
  from stuck_chain [OF assms(1,2) 1(1,2)] obtain l2 where "lock_rank l1 < lock_rank l2" by blast
  with 1(3) lock_rank_le [of l2] show False by linarith
qed

lemma stuck_done:
  assumes "thread_inv ts" "stuck ts" "t \<in> set ts"
  shows "calls_left t = []"
proof -
  have wait: "\<exists>m r h. calls_left u = (SysThreadJoin m, r) # h" if u: "u \<in> set ts" "calls_left u \<noteq> []" for u
  proof -
    obtain c r h where h: "calls_left u = (c, r) # h" using u(2) by (cases "calls_left u") auto
    then have "blocked ts c" using assms(2) u(1) by (auto simp: stuck_def)
    then show ?thesis using stuck_no_lock [OF assms(1,2) u(1)] h by (cases c) auto
  qed
  have bodies: "calls_left (ts ! i) = []" if "i < length ts" "0 < i" for i
    using wait [of "ts ! i"] that assms(1) by (fastforce simp: thread_inv_def)
  have "calls_left (ts ! 0) = []"
  proof (rule ccontr)
    assume n: "calls_left (ts ! 0) \<noteq> []"
    have ts: "0 < length ts" using assms(1) by (simp add: thread_inv_def)
    then obtain m r h where h: "calls_left (ts ! 0) = (SysThreadJoin m, r) # h" using wait [of "ts ! 0"] n by auto
    then obtain u where u: "u \<in> set ts" "thread_id u = m" "calls_left u \<noteq> []"
      using assms(2) ts by (fastforce simp: stuck_def)
    moreover have "m \<noteq> 0" using assms(1) h by (auto simp: thread_inv_def)
    ultimately obtain i where "i < length ts" "ts ! i = u" "0 < i"
      using assms(1) by (metis gr0I in_set_conv_nth thread_inv_def)
    with bodies u(3) show False by blast
  qed
  with bodies assms(3) show ?thesis by (metis gr0I in_set_conv_nth)
qed

section \<open>Programs that obey the discipline\<close>

fun creates :: "sys_call \<times> sys_reply \<Rightarrow> nat" where
  "creates (SysThreadCreate, r) = 1"
| "creates _ = 0"

definition spawns :: "history \<Rightarrow> nat" where
  "spawns h = sum_list (map creates h)"

lemma spawns_simps [simp]:
  "spawns [] = 0" "spawns (e # h) = creates e + spawns h" "spawns (h @ h') = spawns h + spawns h'"
  by (simp_all add: spawns_def)

text \<open>The work left: threads that can still be created, then calls.\<close>

definition work_left :: "lthread list \<Rightarrow> nat \<times> nat" where
  "work_left ts = (sum_list (map (spawns \<circ> calls_left) ts), sum_list (map (length \<circ> calls_left) ts))"

lemma sum_list_update_nat:
  fixes xs :: "nat list"
  assumes "i < length xs"
  shows "sum_list (xs[i := x]) + xs ! i = sum_list xs + x"
  using assms member_le_sum_list [of "xs ! i" xs] by (simp add: sum_list_update)

lemma work_update:
  assumes "i < length ts" "ts ! i = (n, (c, r) # h, ls)"
  shows "fst (work_left (ts[i := (n, h, ls')])) + creates (c, r) = fst (work_left ts)"
    "snd (work_left (ts[i := (n, h, ls')])) < snd (work_left ts)"
  using assms sum_list_update_nat [of i "map (spawns \<circ> calls_left) ts" "spawns h"]
    sum_list_update_nat [of i "map (length \<circ> calls_left) ts" "length h"]
  by (simp_all add: work_left_def map_update)

locale thread_program =
  fixes main_ok body :: "history \<Rightarrow> bool"
  assumes main_locks: "main_ok h \<Longrightarrow> run_locks h [] = Some []"
    and main_joins: "main_ok h \<Longrightarrow> 0 \<notin> set (joins h)"
    and main_waits: "main_ok h \<Longrightarrow> joins_unlocked h []"
    and body_locks: "body h \<Longrightarrow> run_locks h [] = Some []"
    and body_joins: "body h \<Longrightarrow> joins h = []"
    and body_spawns: "body h \<Longrightarrow> spawns h = 0"
    and body_exists: "\<exists>h. body h"
begin

lemma start_inv: "main_ok h \<Longrightarrow> thread_inv [(0, h, [])]"
  by (simp add: thread_inv_def disciplined_def exclusive_def main_locks main_joins main_waits)

lemma update_inv:
  assumes "thread_inv ts" "i < length ts" "ts ! i = (n, (c, r) # h, ls)" "\<not> blocked ts c"
  shows "thread_inv (ts[i := (n, h, locks_after c ls)])"
proof -
  have "disciplined (ts ! i)" using assms(1,2) by (simp add: thread_inv_def list_all_length)
  then have "disciplined (n, h, locks_after c ls)" using disciplined_next(1) assms(3) by metis
  then have "list_all disciplined (ts[i := (n, h, locks_after c ls)])"
    using assms(1,2) by (auto simp: thread_inv_def list_all_length nth_list_update)
  then show ?thesis
    using assms exclusive_update [OF _ assms(2-4)]
    by (auto simp: thread_inv_def nth_list_update)
qed

lemma step_inv: "lock_step body ts ts' \<Longrightarrow> thread_inv ts \<Longrightarrow> thread_inv ts'"
proof (induction rule: lock_step.induct)
  case (run i ts n c r h ls)
  then show ?case using update_inv by blast
next
  case (spawn i ts n r h ls h')
  have "thread_inv (ts[i := (n, h, ls)])" using update_inv [OF spawn(5,1,2)] by simp
  then show ?case
    using body_locks [OF spawn(4)] body_joins [OF spawn(4)] no_joins_unlocked spawn(1)
    by (auto simp: thread_inv_def disciplined_def exclusive_def nth_append)
qed

lemma reach_inv:
  assumes "main_ok h" "(lock_step body)\<^sup>*\<^sup>* [(0, h, [])] ts"
  shows "thread_inv ts"
  using assms(2) by induction (auto intro: start_inv assms(1) step_inv)

lemma not_stuck_step:
  assumes "\<not> stuck ts"
  shows "\<exists>ts'. lock_step body ts ts'"
proof -
  from assms obtain t c r h where t: "t \<in> set ts" "calls_left t = (c, r) # h" "\<not> blocked ts c"
    by (auto simp: stuck_def)
  then obtain i where i: "i < length ts" "ts ! i = (thread_id t, (c, r) # h, locks_of t)"
    by (metis in_set_conv_nth prod.collapse)
  from body_exists obtain h' where "body h'" ..
  with i t(3) show ?thesis
    using lock_step.run [OF i t(3), of body] lock_step.spawn [of i ts "thread_id t" r h "locks_of t" body h']
    by (cases "c = SysThreadCreate \<and> ret r = 0") auto
qed

lemma no_deadlock:
  assumes "thread_inv ts"
  shows "(\<exists>ts'. lock_step body ts ts') \<or> (\<forall>t \<in> set ts. calls_left t = [] \<and> locks_of t = [])"
proof (cases "stuck ts")
  case True
  have "locks_of t = []" if "t \<in> set ts" for t
    using that assms stuck_done [OF assms True that] by (auto simp: thread_inv_def list_all_iff disciplined_def)
  with stuck_done [OF assms True] show ?thesis by blast
qed (simp add: not_stuck_step)

lemma step_work: "lock_step body ts ts' \<Longrightarrow> (work_left ts', work_left ts) \<in> less_than <*lex*> less_than"
proof (induction rule: lock_step.induct)
  case (run i ts n c r h ls)
  then show ?case
    using work_update [of i ts n c r h ls "locks_after c ls"]
    by (cases "work_left ts"; cases "work_left (ts[i := (n, h, locks_after c ls)])") auto
next
  case (spawn i ts n r h ls h')
  have "fst (work_left (ts[i := (n, h, ls)] @ [(nat (err r), h', [])])) = fst (work_left (ts[i := (n, h, ls)]))"
    using body_spawns [OF spawn(4)] by (simp add: work_left_def)
  then show ?case
    using work_update(1) [OF spawn(1,2), of ls]
    by (cases "work_left ts"; cases "work_left (ts[i := (n, h, ls)] @ [(nat (err r), h', [])])") simp
qed

lemma schedules_end: "wfP (\<lambda>ts' ts. lock_step body ts ts')"
proof (rule wfp_if_convertible_to_wfp [where f = work_left])
  show "wfp (\<lambda>x y. (x, y) \<in> less_than <*lex*> (less_than :: nat rel))"
    by (simp add: wfp_def wf_lex_prod)
qed (use step_work in blast)

end

end
