(* ===== verification/Client_Threads.thy ===== *)
theory Client_Threads
  imports Client Locking
begin

text \<open>
  The threads of a client process: the application's thread, which calls the functions of
  \<open>client.c\<close>, and the receiver threads that \<open>connect_to_server\<close> creates.

  The first part looks at their calls: every sequence of operations takes and releases
  \<open>state_mutex\<close> and \<open>log_mutex\<close> in a fixed order and joins without holding a lock. The
  second part is a step relation over the shared context: the operations of the application
  interleaved with the iterations of the receiver, and \<open>disconnect_from_server\<close> cut at the
  \<open>pthread_join\<close> it blocks in.
\<close>

section \<open>The calls of a thread\<close>

text \<open>From one world to another only calls of the class \<open>P\<close> are made, threads are joined only while no
  lock is held, and a thread that held no lock before holds \<open>ls\<close> after them.\<close>

definition performs :: "(sys_call \<Rightarrow> bool) \<Rightarrow> world \<Rightarrow> string list \<Rightarrow> world \<Rightarrow> bool" where
  "performs P w0 ls w \<longleftrightarrow> (\<exists>l. trace w = trace w0 @ l \<and> run_locks l [] = Some ls \<and> joins_unlocked l [] \<and> list_all (P \<circ> fst) l)"

lemma path_refl [simp, intro]: "performs P w [] w"
  by (simp add: performs_def)

text \<open>Calls that neither take a lock nor wait for a thread.\<close>

fun plain_call :: "sys_call \<Rightarrow> bool" where
  "plain_call (SysThreadJoin n) = False"
| "plain_call c = (\<not> lock_call c)"

lemma plain_callD: "plain_call c \<Longrightarrow> \<not> lock_call c" "plain_call c \<Longrightarrow> joins_unlocked [(c, r)] ls"
  by (cases c; simp)+

lemma path_docall: "performs P w0 ls w \<Longrightarrow> P c \<Longrightarrow> plain_call c \<Longrightarrow> performs P w0 ls (docall os c w)"
  by (auto simp: performs_def run_locks_append run_locks_skip joins_unlocked_append plain_callD simp del: joins_unlocked.simps)

lemma path_get_time: "performs P w0 ls w \<Longrightarrow> P SysTime \<Longrightarrow> performs P w0 ls (snd (get_time os w))"
  by (auto simp: performs_def run_locks_append joins_unlocked_append)

lemma path_lock: "performs P w0 [] w \<Longrightarrow> P (SysLock l) \<Longrightarrow> performs P w0 [l] (docall os (SysLock l) w)"
  by (auto simp: performs_def run_locks_append joins_unlocked_append)

lemma path_unlock: "performs P w0 [l] w \<Longrightarrow> P (SysUnlock l) \<Longrightarrow> performs P w0 [] (docall os (SysUnlock l) w)"
  by (auto simp: performs_def run_locks_append joins_unlocked_append)

lemma path_join: "performs P w0 [] w \<Longrightarrow> P (SysThreadJoin n) \<Longrightarrow> performs P w0 [] (docall os (SysThreadJoin n) w)"
  by (auto simp: performs_def run_locks_append joins_unlocked_append)

lemma log_calls_join_nothing: "list_all (log_call \<circ> fst) l \<Longrightarrow> joins l = []"
proof (induction l)
  case (Cons e l)
  then show ?case by (cases "fst e"; cases e) auto
qed simp

lemma path_quiet:
  assumes "quiet u v" "performs P w0 ls u" "''log_mutex'' \<notin> set ls" "\<And>c. log_call c \<Longrightarrow> P c"
  shows "performs P w0 ls v"
proof -
  from assms(1) obtain l where l: "trace v = trace u @ l" "list_all (log_call \<circ> fst) l"
    "''log_mutex'' \<notin> set ls \<longrightarrow> run_locks l ls = Some ls"
    by (auto simp: quiet_def)
  then have "joins_unlocked l ls" "list_all (P \<circ> fst) l"
    using log_calls_join_nothing no_joins_unlocked assms(4) by (auto simp: list_all_iff)
  with l assms(2,3) show ?thesis by (auto simp: performs_def run_locks_append joins_unlocked_append)
qed

lemma path_trans: "performs P a [] b \<Longrightarrow> performs P b [] c \<Longrightarrow> performs P a [] c"
  by (auto simp: performs_def run_locks_append joins_unlocked_append)

text \<open>The calls a receiver makes, and those of the library functions: only the latter create and join
  threads, they never join the identifier 0, and neither reads the standard input.\<close>

fun receiver_call :: "sys_call \<Rightarrow> bool" where
  "receiver_call SysThreadCreate = False"
| "receiver_call (SysThreadJoin n) = False"
| "receiver_call (SysGets n) = False"
| "receiver_call c = True"

fun main_call :: "sys_call \<Rightarrow> bool" where
  "main_call (SysThreadJoin n) = (n \<noteq> 0)"
| "main_call (SysGets n) = False"
| "main_call c = True"

lemma log_call_receiver: "log_call c \<Longrightarrow> receiver_call c" "log_call c \<Longrightarrow> main_call c"
  by (cases c; simp)+

lemma receiver_log:
  "log_message os level f a u = Some v \<Longrightarrow> level \<noteq> LOG_FATAL \<Longrightarrow> performs receiver_call w0 [] u \<longrightarrow> performs receiver_call w0 [] v"
  using path_quiet [OF log_message_quiet, of os level f a u v receiver_call w0 "[]"] log_call_receiver(1) by simp

lemma main_log:
  "log_message os level f a u = Some v \<Longrightarrow> level \<noteq> LOG_FATAL \<Longrightarrow> performs main_call w0 [] u \<longrightarrow> performs main_call w0 [] v"
  using path_quiet [OF log_message_quiet, of os level f a u v main_call w0 "[]"] log_call_receiver(2) by simp

lemmas path_steps = path_docall path_get_time path_lock path_unlock path_join

lemma path_callback:
  "performs P w0 ls w \<Longrightarrow> P (SysCallback n a) \<Longrightarrow> performs P w0 ls (callback os b n a w)"
  by (simp add: callback_def path_docall)

lemma deliver_path:
  "deliver os m c w = Some (c', w') \<Longrightarrow> performs receiver_call w0 [] w \<longrightarrow> performs receiver_call w0 [] w'"
  by (auto simp: deliver_def bind_eq_Some_conv Let_def path_callback dest!: receiver_log [where ?w0.0 = w0]
      split: option.split_asm MessageType.split_asm)

lemma receiver_iter_path:
  "receiver_iter os buffer msg c w = Some (go, buffer', msg', c', w') \<Longrightarrow> performs receiver_call w [] w'"
  by (auto simp: receiver_iter_def sys_pair bind_eq_Some_conv path_steps
      dest!: receiver_log [where ?w0.0 = w] deliver_path [where ?w0.0 = w] split: if_split_asm)

lemma receiver_exit_path: "receiver_exit os c w = (c', w') \<Longrightarrow> performs receiver_call w [] w'"
  by (auto simp: receiver_exit_def Let_def path_steps intro!: path_callback)

lemma initialize_client_path:
  "initialize_client os cfg cb w = Some (c, w') \<Longrightarrow> performs main_call w [] w'"
  by (auto simp: initialize_client_def sys_pair bind_eq_Some_conv Let_def path_steps
      dest!: main_log [where ?w0.0 = w] split: option.split_asm if_split_asm)

lemma finish_connect_path:
  "finish_connect os c w = Some (rc, c', w') \<Longrightarrow> performs main_call w0 [] w \<longrightarrow> performs main_call w0 [] w'"
  by (auto simp: finish_connect_def sys_pair case_prod_unfold bind_eq_Some_conv Let_def path_steps
      dest!: main_log [where ?w0.0 = w0] split: if_split_asm)

lemma resolve_host_path:
  "resolve_host os c w = Some (ok, a, w') \<Longrightarrow> performs main_call w0 [] w \<longrightarrow> performs main_call w0 [] w'"
  by (auto simp: resolve_host_def sys_pair bind_eq_Some_conv Let_def path_steps
      dest!: main_log [where ?w0.0 = w0] split: if_split_asm)

lemma connect_path: "connect_to_server os c w = Some (rc, c', w') \<Longrightarrow> performs main_call w [] w'"
  unfolding connect_to_server_def Let_def case_prod_unfold
  by (auto simp: bind_eq_Some_conv snd_syscall path_steps
      dest!: main_log [where ?w0.0 = w] resolve_host_path [where ?w0.0 = w] finish_connect_path [where ?w0.0 = w]
      split: option.split_asm if_split_asm)

lemma disconnect_path: "disconnect_from_server os c w = Some (c', w') \<Longrightarrow> performs main_call w [] w'"
  by (auto simp: disconnect_from_server_def Let_def case_prod_unfold bind_eq_Some_conv path_steps
      dest!: main_log [where ?w0.0 = w] split: option.split_asm if_split_asm)

lemma cleanup_path: "cleanup_client os c w = Some w' \<Longrightarrow> performs main_call w [] w'"
  by (auto simp: cleanup_client_def Let_def bind_eq_Some_conv path_steps
      dest!: main_log [where ?w0.0 = w] disconnect_path split: option.split_asm)

lemma serialize_and_send_path:
  "serialize_and_send os s m w = Some (Some (n, r, w')) \<Longrightarrow> performs main_call w0 [] w \<longrightarrow> performs main_call w0 [] w'"
  by (auto simp: serialize_and_send_def Let_def sys_pair bind_eq_Some_conv path_steps split: if_split_asm)

lemma get_time_docall: "get_time os w = (word_of_int (ret (os (trace w) SysTime)), docall os SysTime w)"
  by (simp add: get_time_def sys_pair)

lemma request_path: "request_market_data os c symb w = Some (rc, c', w') \<Longrightarrow> performs main_call w [] w'"
  unfolding request_market_data_def Let_def
  by (auto simp: get_time_docall case_prod_unfold path_steps
      dest!: main_log [where ?w0.0 = w] serialize_and_send_path [where ?w0.0 = w]
      split: Option.bind_split_asm option.split_asm prod.split_asm if_split_asm)

lemma send_order_path: "send_order os c ord w = Some (rc, c', w') \<Longrightarrow> performs main_call w [] w'"
  unfolding send_order_def Let_def
  by (auto simp: get_time_docall case_prod_unfold path_steps dest!: serialize_and_send_path [where ?w0.0 = w]
      split: Option.bind_split_asm option.split_asm prod.split_asm if_split_asm)

lemma send_data_path: "send_data os c bs n w = Some (rc, w') \<Longrightarrow> performs main_call w [] w'"
  by (auto simp: send_data_def sys_pair bind_eq_Some_conv path_steps split: option.split_asm if_split_asm)

lemma receive_data_path: "receive_data os c bs n w = Some (rc, bs', w') \<Longrightarrow> performs main_call w [] w'"
  by (auto simp: receive_data_def sys_pair bind_eq_Some_conv path_steps split: option.split_asm if_split_asm)

lemma path_segment:
  assumes "performs P w [] w'" "trace w' = trace w @ l"
  shows "run_locks l [] = Some []" "joins_unlocked l []" "list_all (P \<circ> fst) l"
  using assms by (auto simp: performs_def)

lemma joins_main: "list_all (main_call \<circ> fst) l \<Longrightarrow> 0 \<notin> set (joins l)"
proof (induction l)
  case (Cons e l)
  then show ?case by (cases "fst e"; cases e) auto
qed simp

lemma receiver_no_threads: "list_all (receiver_call \<circ> fst) l \<Longrightarrow> joins l = [] \<and> spawns l = 0"
proof (induction l)
  case (Cons e l)
  then show ?case by (cases "fst e"; cases e) auto
qed simp

text \<open>The calls of a receiver thread: iterations of its loop and the code after it. Every operation starts
  from any context and world, since other threads may have run before it.\<close>

inductive receiver_history :: "history \<Rightarrow> bool" where
  leave: "receiver_exit os c w = (c', w') \<Longrightarrow> trace w' = trace w @ l \<Longrightarrow> receiver_history l"
| iterate: "receiver_iter os buffer msg c w = Some (go, buffer', msg', c', w') \<Longrightarrow> trace w' = trace w @ l \<Longrightarrow>
    receiver_history h \<Longrightarrow> receiver_history (l @ h)"

text \<open>The calls of the application: any sequence of calls of the library.\<close>

inductive main_history :: "history \<Rightarrow> bool" where
  start: "main_history []"
| initialize: "main_history h \<Longrightarrow> initialize_client os cfg cb w = Some (c, w') \<Longrightarrow> trace w' = trace w @ l \<Longrightarrow>
    main_history (h @ l)"
| connect: "main_history h \<Longrightarrow> connect_to_server os c w = Some (rc, c', w') \<Longrightarrow> trace w' = trace w @ l \<Longrightarrow>
    main_history (h @ l)"
| disconnect: "main_history h \<Longrightarrow> disconnect_from_server os c w = Some (c', w') \<Longrightarrow> trace w' = trace w @ l \<Longrightarrow>
    main_history (h @ l)"
| cleanup: "main_history h \<Longrightarrow> cleanup_client os c w = Some w' \<Longrightarrow> trace w' = trace w @ l \<Longrightarrow> main_history (h @ l)"
| request: "main_history h \<Longrightarrow> request_market_data os c symb w = Some (rc, c', w') \<Longrightarrow> trace w' = trace w @ l \<Longrightarrow>
    main_history (h @ l)"
| order: "main_history h \<Longrightarrow> send_order os c ord w = Some (rc, c', w') \<Longrightarrow> trace w' = trace w @ l \<Longrightarrow>
    main_history (h @ l)"
| send: "main_history h \<Longrightarrow> send_data os c bs n w = Some (rc, w') \<Longrightarrow> trace w' = trace w @ l \<Longrightarrow> main_history (h @ l)"
| recv: "main_history h \<Longrightarrow> receive_data os c bs n w = Some (rc, bs', w') \<Longrightarrow> trace w' = trace w @ l \<Longrightarrow>
    main_history (h @ l)"
| log: "main_history h \<Longrightarrow> log_message os level f a w = Some w' \<Longrightarrow> level \<noteq> LOG_FATAL \<Longrightarrow> trace w' = trace w @ l \<Longrightarrow>
    main_history (h @ l)"

lemma receiver_history_ok:
  "receiver_history h \<Longrightarrow> run_locks h [] = Some [] \<and> joins_unlocked h [] \<and> list_all (receiver_call \<circ> fst) h"
proof (induction rule: receiver_history.induct)
  case (leave os c w c' w' l)
  then show ?case using path_segment [OF receiver_exit_path [OF leave(1)] leave(2)] by blast
next
  case (iterate os buffer msg c w go buffer' msg' c' w' l h)
  then show ?case using path_segment [OF receiver_iter_path [OF iterate(1)] iterate(2)] by (simp add: run_locks_append joins_unlocked_append comp_def)
qed

lemma main_history_append:
  assumes "run_locks h [] = Some [] \<and> joins_unlocked h [] \<and> list_all (main_call \<circ> fst) h" "performs main_call w [] w'" "trace w' = trace w @ l"
  shows "run_locks (h @ l) [] = Some [] \<and> joins_unlocked (h @ l) [] \<and> list_all (main_call \<circ> fst) (h @ l)"
  using assms(1) path_segment [OF assms(2,3)] by (simp add: run_locks_append joins_unlocked_append comp_def)

lemma main_history_ok:
  "main_history h \<Longrightarrow> run_locks h [] = Some [] \<and> joins_unlocked h [] \<and> list_all (main_call \<circ> fst) h"
proof (induction rule: main_history.induct)
  case (log h os level f a w w' l)
  then show ?case using main_log [OF log(2,3), of w] main_history_append by blast
qed (simp, (drule initialize_client_path connect_path disconnect_path cleanup_path request_path send_order_path
    send_data_path receive_data_path, rule main_history_append, assumption+)+)

interpretation client: thread_program main_history receiver_history
proof
  show "\<exists>h. receiver_history h"
    using receiver_history.leave [OF surjective_pairing, of os c w for os c w]
      receiver_exit_path [OF surjective_pairing] by (fastforce simp: performs_def)
qed (use receiver_history_ok main_history_ok joins_main receiver_no_threads in blast)+

lemma log_joins:
  obtains v where "\<And>w. log_message os LOG_INFO f [] w = Some (v w)" "\<And>w. joins (trace (v w)) = joins (trace w)"
proof -
  have "\<exists>v. log_message os LOG_INFO f [] w = Some v \<and> joins (trace v) = joins (trace w)" for w
    using log_message_quiet_total [of "[]" LOG_INFO os f w] log_calls_join_nothing by (auto simp: quiet_def)
  then show ?thesis using that by metis
qed

section \<open>Properties\<close>



end
