(* ===== verification/Server_Handlers.thy ===== *)
theory Server_Handlers
  imports Serialization Price Logger
begin

text \<open>
  The state of the server (\<open>include/server/server_types.h\<close>) and its message handlers
  (\<open>src/server/server_handlers.c\<close>). The array of client slots is a list, so that its length is
  what was allocated; reading a slot beyond it is undefined behaviour. The pointers that no
  function sets (order books, positions, market-data cache) are numbers, 0 for NULL. Locks have no
  member; lock operations are calls in the trace.
\<close>

section \<open>Definitions\<close>

record ClientConnection =
  c_socket :: int
  c_address :: "byte list"
  c_id :: "byte list"
  c_active :: int
  c_thread :: nat
  c_has_context :: bool
  c_connect_time :: "64 word"
  c_last_heartbeat :: "64 word"
  c_messages_sent :: "64 word"
  c_messages_received :: "64 word"
  c_positions :: int
  c_num_positions :: "32 word"

datatype ServerState =
  SERVER_STATE_INIT | SERVER_STARTING | SERVER_RUNNING | SERVER_STOPPING | SERVER_STOPPED | SERVER_ERROR

record ServerStats =
  total_connections :: "64 word"
  active_connections :: "64 word"
  messages_processed :: "64 word"
  s_errors_encountered :: "64 word"
  bytes_received :: "64 word"
  bytes_sent :: "64 word"
  start_time :: "64 word"
  last_error_time :: "64 word"

record ServerConfig =
  port :: int
  max_clients :: int
  socket_timeout :: int
  bind_address :: "byte list"
  cfg_log_level :: "32 word"
  cfg_log_file :: "byte list"
  max_symbols :: "32 word"
  max_orders_per_symbol :: "32 word"
  position_limit :: "32 word"
  client_handler :: bool

record ServerContext =
  server_socket :: int
  server_state :: ServerState
  ctx_sequence_num :: "64 word"
  config :: ServerConfig
  clients :: "ClientConnection list"
  client_count :: int
  server_stats :: ServerStats
  accept_thread :: nat
  market_data_cache :: int
  order_books :: int
  symbol_count :: "32 word"
  positions :: int

text \<open>What \<open>calloc\<close> gives for a slot and for the statistics.\<close>

definition zero_ClientConnection :: ClientConnection where
  "zero_ClientConnection =
     \<lparr>c_socket = 0, c_address = replicate 16 0, c_id = replicate MAX_CLIENT_ID_LENGTH 0, c_active = 0,
      c_thread = 0, c_has_context = False, c_connect_time = 0, c_last_heartbeat = 0,
      c_messages_sent = 0, c_messages_received = 0, c_positions = 0, c_num_positions = 0\<rparr>"

definition zero_ServerStats :: ServerStats where
  "zero_ServerStats =
     \<lparr>total_connections = 0, active_connections = 0, messages_processed = 0, s_errors_encountered = 0,
      bytes_received = 0, bytes_sent = 0, start_time = 0, last_error_time = 0\<rparr>"

text \<open>The context \<open>initialize_server_context\<close> builds around a table of \<open>n\<close> zeroed slots.\<close>

definition fresh_context :: "ServerConfig \<Rightarrow> nat \<Rightarrow> ServerContext" where
  "fresh_context cfg n =
     \<lparr>server_socket = 0, server_state = SERVER_STATE_INIT, ctx_sequence_num = 1, config = cfg,
      clients = replicate n zero_ClientConnection, client_count = 0, server_stats = zero_ServerStats,
      accept_thread = 0, market_data_cache = 0, order_books = 0, symbol_count = 0, positions = 0\<rparr>"

definition send_response_message :: "os \<Rightarrow> int \<Rightarrow> Message \<Rightarrow> world \<Rightarrow> (int \<times> world) option" where
  "send_response_message os client_socket response w =
     do {
       (serialized_size, buffer) \<leftarrow>
         serialize_message (Some response) (Some (replicate BUFFER_SIZE 0)) BUFFER_SIZE;
       if serialized_size < 0
       then do {
         w1 \<leftarrow> log_message os LOG_ERROR ''Failed to serialize response message'' [] w;
         Some (code_of ERROR_SERIALIZATION, w1) }
       else
         let (r, w1) = syscall os (SysSend client_socket (take (nat serialized_size) (the buffer))) w
         in if ret r \<noteq> serialized_size
            then do {
              w2 \<leftarrow> log_message os LOG_ERROR ''Failed to send response message'' [] w1;
              Some (code_of ERROR_SOCKET_CONNECT, w2) }
            else Some (code_of SUCCESS, w1) }"

text \<open>The loop of \<open>find_client_socket\<close>, \<open>n\<close> slots left to look at.\<close>

fun find_client_loop :: "nat \<Rightarrow> ClientConnection list \<Rightarrow> byte list \<Rightarrow> int option" where
  "find_client_loop 0 cs cid = Some (-1)"
| "find_client_loop (Suc n) [] cid = None"
| "find_client_loop (Suc n) (c # cs) cid =
     (if c_socket c > 0
      then do {
        eq \<leftarrow> c_streq (c_id c) cid;
        if eq then Some (c_socket c) else find_client_loop n cs cid }
      else find_client_loop n cs cid)"

definition find_client_socket :: "ServerContext \<Rightarrow> byte list \<Rightarrow> int option" where
  "find_client_socket ctx cid = find_client_loop MAX_CLIENTS (clients ctx) cid"

definition get_client_position :: "ServerContext \<Rightarrow> byte list \<Rightarrow> byte list \<Rightarrow> 32 word" where
  "get_client_position ctx cid symb = 0"

text \<open>The address of a static object that nothing writes, hence zero.\<close>

definition get_market_data :: "ServerContext \<Rightarrow> byte list \<Rightarrow> MarketData option" where
  "get_market_data ctx symb = Some zero_MarketData"

definition next_sequence_num :: "ServerContext \<Rightarrow> 64 word \<times> ServerContext" where
  "next_sequence_num ctx = (ctx_sequence_num ctx, ctx\<lparr>ctx_sequence_num := ctx_sequence_num ctx + 1\<rparr>)"

definition generate_order_id :: "ServerContext \<Rightarrow> 64 word \<times> ServerContext" where
  "generate_order_id ctx = next_sequence_num ctx"

definition generate_trade_id :: "ServerContext \<Rightarrow> 64 word \<times> ServerContext" where
  "generate_trade_id ctx = next_sequence_num ctx"

text \<open>The price of the processed order (price improvement for limit orders).\<close>

definition improved_price :: "(int \<Rightarrow> double) \<Rightarrow> 32 word \<Rightarrow> ServerContext \<Rightarrow> Order \<Rightarrow> Price option" where
  "improved_price pow10 pad ctx order =
     (if order_type order = OrderType_val ORDER_TYPE_LIMIT
      then (case get_market_data ctx (order_symbol order) of
              Some market_data \<Rightarrow>
                if side order = OrderSide_val ORDER_SIDE_BUY
                   \<and> d_less (price_to_double pow10 (order_price order)) (price_to_double pow10 (ask market_data))
                then double_to_price pow10 pad
                       (d_add (price_to_double pow10 (order_price order)) d_0_01)
                else Some (order_price order)
            | None \<Rightarrow> Some (order_price order))
      else Some (order_price order))"

definition process_order ::
  "os \<Rightarrow> (int \<Rightarrow> double) \<Rightarrow> 32 word \<Rightarrow> ServerContext \<Rightarrow> Order \<Rightarrow> world \<Rightarrow> (int \<times> ServerContext \<times> world) option" where
  "process_order os pow10 pad ctx order w =
     (if quantity order = 0 \<or> quantity order > 1000000
      then do {
        w1 \<leftarrow> log_message os LOG_ERROR ''Invalid order quantity: %u'' [LInt (uint (quantity order))] w;
        Some (code_of ERROR_INVALID_ORDER, ctx, w1) }
      else
        let total_position = get_client_position ctx (client_id order) (order_symbol order)
        in if side order = OrderSide_val ORDER_SIDE_BUY \<and> total_position + quantity order > 1000000
           then do {
             w1 \<leftarrow> log_message os LOG_ERROR ''Position limit exceeded for %s'' [LStr (client_id order)] w;
             Some (code_of ERROR_INVALID_ORDER, ctx, w1) }
           else do {
             price \<leftarrow> improved_price pow10 pad ctx order;
             let (now, w1) = get_time os w;
             let processed_order = order\<lparr>order_price := price,
                   status := OrderStatus_val ORDER_STATUS_NEW, modification_time := now\<rparr>;
             let (seq, ctx1) = next_sequence_num ctx;
             let (ts, w2) = get_time os w1;
             let response = \<lparr>msg_type = MessageType_val MSG_ORDER_STATUS, sequence_num = seq,
                   msg_timestamp = ts, msg_data = init_data (enc_Order processed_order)\<rparr>;
             sock \<leftarrow> find_client_socket ctx1 (client_id processed_order);
             (rc, w3) \<leftarrow> send_response_message os sock response w2;
             Some (rc, ctx1, w3) })"

text \<open>The loop of \<open>broadcast_market_data\<close>, \<open>n\<close> slots left; results of the sends are ignored.\<close>

fun broadcast_loop :: "os \<Rightarrow> nat \<Rightarrow> ClientConnection list \<Rightarrow> Message \<Rightarrow> world \<Rightarrow> world option" where
  "broadcast_loop os 0 cs msg w = Some w"
| "broadcast_loop os (Suc n) [] msg w = None"
| "broadcast_loop os (Suc n) (c # cs) msg w =
     (if c_socket c > 0
      then do {
        (rc, w1) \<leftarrow> send_response_message os (c_socket c) msg w;
        broadcast_loop os n cs msg w1 }
      else broadcast_loop os n cs msg w)"

definition broadcast_market_data ::
  "os \<Rightarrow> ServerContext \<Rightarrow> MarketData \<Rightarrow> world \<Rightarrow> (int \<times> ServerContext \<times> world) option" where
  "broadcast_market_data os ctx market_data w =
     (let (seq, ctx1) = next_sequence_num ctx;
          (ts, w1) = get_time os w;
          msg = \<lparr>msg_type = MessageType_val MSG_MARKET_DATA, sequence_num = seq, msg_timestamp = ts,
                 msg_data = init_data (enc_MarketData market_data)\<rparr>
      in do {
        w2 \<leftarrow> broadcast_loop os MAX_CLIENTS (clients ctx1) msg w1;
        Some (code_of SUCCESS, ctx1, w2) })"

definition process_trade_execution ::
  "os \<Rightarrow> ServerContext \<Rightarrow> TradeExecution \<Rightarrow> world \<Rightarrow> (int \<times> ServerContext \<times> world) option" where
  "process_trade_execution os ctx trade w =
     (let (seq, ctx1) = next_sequence_num ctx;
          (ts, w1) = get_time os w;
          msg = \<lparr>msg_type = MessageType_val MSG_TRADE_EXEC, sequence_num = seq, msg_timestamp = ts,
                 msg_data = init_data (enc_TradeExecution trade)\<rparr>
      in do {
        buyer_socket \<leftarrow> find_client_socket ctx1 (buyer_id trade);
        seller_socket \<leftarrow> find_client_socket ctx1 (seller_id trade);
        w2 \<leftarrow> (if buyer_socket > 0 then map_option snd (send_response_message os buyer_socket msg w1)
               else Some w1);
        w3 \<leftarrow> (if seller_socket > 0 then map_option snd (send_response_message os seller_socket msg w2)
               else Some w2);
        Some (code_of SUCCESS, ctx1, w3) })"

definition handle_heartbeat :: "os \<Rightarrow> int \<Rightarrow> Message \<Rightarrow> world \<Rightarrow> (int \<times> world) option" where
  "handle_heartbeat os client_socket msg w =
     do {
       w1 \<leftarrow> log_message os LOG_DEBUG ''Received heartbeat, sequence: %lu'' [LInt (uint (sequence_num msg))] w;
       let (ts, w2) = get_time os w1;
       let response = \<lparr>msg_type = MessageType_val MSG_HEARTBEAT, sequence_num = sequence_num msg + 1,
             msg_timestamp = ts, msg_data = init_data []\<rparr>;
       send_response_message os client_socket response w2 }"

definition handle_order_message ::
  "os \<Rightarrow> (int \<Rightarrow> double) \<Rightarrow> 32 word \<Rightarrow> ServerContext \<Rightarrow> Message \<Rightarrow> world \<Rightarrow> (int \<times> ServerContext \<times> world) option" where
  "handle_order_message os pow10 pad ctx msg w =
     (let order = data_order msg
      in do {
        w1 \<leftarrow> log_lines os LOG_INFO
          [(''Processing order:'', []),
           (''  Message Type: %d'', [LInt (sint (msg_type msg))]),
           (''  Order ID: %lu'', [LInt (uint (order_id order))]),
           (''  Symbol: %s'', [LStr (order_symbol order)]),
           (''  Client ID: %s'', [LStr (client_id order)]),
           (''  Type: %d'', [LInt (sint (order_type order))]),
           (''  Side: %d'', [LInt (sint (side order))]),
           (''  Price: %.6f'', [LDbl (price_to_double pow10 (order_price order))]),
           (''  Quantity: %u'', [LInt (uint (quantity order))])] w;
        process_order os pow10 pad ctx order w1 })"

definition handle_market_data ::
  "os \<Rightarrow> (int \<Rightarrow> double) \<Rightarrow> ServerContext \<Rightarrow> Message \<Rightarrow> world \<Rightarrow> (int \<times> ServerContext \<times> world) option" where
  "handle_market_data os pow10 ctx msg w =
     (let mkt_data = data_market_data msg
      in do {
        w1 \<leftarrow> log_lines os LOG_INFO
          [(''Received market data:'', []),
           (''  Symbol: %s'', [LStr (md_symbol mkt_data)]),
           (''  Last Price: %.6f'', [LDbl (price_to_double pow10 (last_price mkt_data))]),
           (''  Bid: %.6f'', [LDbl (price_to_double pow10 (bid mkt_data))]),
           (''  Ask: %.6f'', [LDbl (price_to_double pow10 (ask mkt_data))]),
           (''  Volume: %lu'', [LInt (uint (volume mkt_data))])] w;
        broadcast_market_data os ctx mkt_data w1 })"

definition handle_trade_exec ::
  "os \<Rightarrow> (int \<Rightarrow> double) \<Rightarrow> ServerContext \<Rightarrow> Message \<Rightarrow> world \<Rightarrow> (int \<times> ServerContext \<times> world) option" where
  "handle_trade_exec os pow10 ctx msg w =
     (let trade = data_trade msg
      in do {
        w1 \<leftarrow> log_lines os LOG_INFO
          [(''Processing trade execution:'', []),
           (''  Trade ID: %lu'', [LInt (uint (trade_id trade))]),
           (''  Order ID: %lu'', [LInt (uint (trade_order_id trade))]),
           (''  Symbol: %s'', [LStr (trade_symbol trade)]),
           (''  Price: %.6f'', [LDbl (price_to_double pow10 (trade_price trade))]),
           (''  Quantity: %u'', [LInt (uint (trade_quantity trade))]),
           (''  Buyer: %s'', [LStr (buyer_id trade)]),
           (''  Seller: %s'', [LStr (seller_id trade)])] w;
        process_trade_execution os ctx trade w1 })"

definition handle_error :: "os \<Rightarrow> Message \<Rightarrow> world \<Rightarrow> (int \<times> world) option" where
  "handle_error os msg w =
     do {
       w1 \<leftarrow> log_message os LOG_ERROR ''Received error message: [%d] %s''
         [LInt (sint (data_error_code msg)), LStr (data_error_message msg)] w;
       Some (code_of SUCCESS, w1) }"

definition handle_message ::
  "os \<Rightarrow> (int \<Rightarrow> double) \<Rightarrow> 32 word \<Rightarrow> ServerContext \<Rightarrow> int \<Rightarrow> Message \<Rightarrow> world \<Rightarrow> (int \<times> ServerContext \<times> world) option" where
  "handle_message os pow10 pad ctx client_socket msg w =
     do {
       w1 \<leftarrow> log_message os LOG_INFO ''Handling message type: %d'' [LInt (sint (msg_type msg))] w;
       (case MessageType_of (msg_type msg) of
          Some MSG_HEARTBEAT \<Rightarrow>
            map_option (\<lambda>(rc, w2). (rc, ctx, w2)) (handle_heartbeat os client_socket msg w1)
        | Some MSG_ORDER_NEW \<Rightarrow> handle_order_message os pow10 pad ctx msg w1
        | Some MSG_ORDER_CANCEL \<Rightarrow> handle_order_message os pow10 pad ctx msg w1
        | Some MSG_ORDER_MODIFY \<Rightarrow> handle_order_message os pow10 pad ctx msg w1
        | Some MSG_ORDER_STATUS \<Rightarrow> handle_order_message os pow10 pad ctx msg w1
        | Some MSG_MARKET_DATA \<Rightarrow> handle_market_data os pow10 ctx msg w1
        | Some MSG_TRADE_EXEC \<Rightarrow> handle_trade_exec os pow10 ctx msg w1
        | Some MSG_ERROR \<Rightarrow> map_option (\<lambda>(rc, w2). (rc, ctx, w2)) (handle_error os msg w1)
        | _ \<Rightarrow> do {
            w2 \<leftarrow> log_message os LOG_ERROR ''Unknown message type: %d'' [LInt (sint (msg_type msg))] w1;
            Some (code_of ERROR_INVALID_MESSAGE, ctx, w2) }) }"

section \<open>Sending a message\<close>

lemma sends_docall_send [simp]: "sends (docall os (SysSend s bs) w) = sends w @ [(s, bs)]"
  by (simp add: sends_def)

lemma send_response_no_image:
  assumes "wf_Message m" "wire m = None"
  shows "\<exists>w'. send_response_message os s m w = Some (code_of ERROR_SERIALIZATION, w') \<and> quiet w w'"
proof -
  obtain r where r: "r < 0" "serialize_message (Some m) (Some (replicate BUFFER_SIZE 0)) BUFFER_SIZE
      = Some (r, Some (replicate BUFFER_SIZE 0))"
    using tp.ser_None [OF assms, of "replicate BUFFER_SIZE 0"] by auto
  obtain w' where "log_message os LOG_ERROR ''Failed to serialize response message'' [] w = Some w'"
    "quiet w w'"
    using log_message_quiet_total [of "[]" LOG_ERROR os _ w] by auto
  with r show ?thesis by (auto simp: send_response_message_def)
qed

lemma send_response_image:
  assumes "wf_Message m" "wire m = Some bs"
  shows "\<exists>w'. send_response_message os s m w =
      Some (if ret (os (trace w) (SysSend s bs)) = int (length bs) then code_of SUCCESS
            else code_of ERROR_SOCKET_CONNECT, w')
    \<and> quiet (docall os (SysSend s bs) w) w'"
proof -
  have ser: "serialize_message (Some m) (Some (replicate BUFFER_SIZE 0)) BUFFER_SIZE
      = Some (int (length bs), Some (bs @ drop (length bs) (replicate BUFFER_SIZE 0)))"
    using tp.ser_Some [OF assms] by simp
  have eq: "syscall os (SysSend s bs) w = (os (trace w) (SysSend s bs), docall os (SysSend s bs) w)"
    by (simp add: prod_eq_iff docall_def)
  obtain w' where "log_message os LOG_ERROR ''Failed to send response message'' [] (docall os (SysSend s bs) w)
      = Some w'" "quiet (docall os (SysSend s bs) w) w'"
    using log_message_quiet_total [of "[]" LOG_ERROR os _ "docall os (SysSend s bs) w"] by auto
  then show ?thesis by (auto simp: send_response_message_def ser eq)
qed

text \<open>The image of a message made by an initialiser.\<close>

lemma wire_init_data:
  assumes "payload_len t = Some (length p)"
  shows "wire \<lparr>msg_type = t, sequence_num = q, msg_timestamp = ts, msg_data = init_data p\<rparr> = Some (frame t p)"
  using assms by (simp add: wire_def init_data_def)

lemma wire_market_data:
  "wf_MarketData md \<Longrightarrow>
   wire \<lparr>msg_type = 6, sequence_num = q, msg_timestamp = ts, msg_data = init_data (enc_MarketData md)\<rparr>
     = Some (frame 6 (enc_MarketData md))"
  using market_data_codec.enc_length [of md] by (simp add: wire_init_data payload_len_def sizeof_defs)

lemma wire_trade:
  "wf_TradeExecution tr \<Longrightarrow>
   wire \<lparr>msg_type = 7, sequence_num = q, msg_timestamp = ts, msg_data = init_data (enc_TradeExecution tr)\<rparr>
     = Some (frame 7 (enc_TradeExecution tr))"
  using trade_codec.enc_length [of tr] by (simp add: wire_init_data payload_len_def sizeof_defs)

lemma wf_response:
  "length p \<le> 264 \<Longrightarrow> wf_Message \<lparr>msg_type = t, sequence_num = q, msg_timestamp = ts, msg_data = init_data p\<rparr>"
  using wf_Message_init_data by (simp add: sizeof_defs)

lemma wf_payload_lengths:
  "wf_MarketData md \<Longrightarrow> length (enc_MarketData md) \<le> 264"
  "wf_TradeExecution tr \<Longrightarrow> length (enc_TradeExecution tr) \<le> 264"
  "wf_Order ord \<Longrightarrow> length (enc_Order ord) \<le> 264"
  by (simp_all add: market_data_codec.enc_length trade_codec.enc_length order_codec.enc_length sizeof_defs)

text \<open>The calls a handler makes: log lines and sends.\<close>

fun reply_call :: "sys_call \<Rightarrow> bool" where
  "reply_call (SysSend s bs) = True"
| "reply_call c = log_call c"

lemma log_reply_call: "log_call c \<Longrightarrow> reply_call c"
  by (cases c) simp_all

lemma send_response_total:
  assumes "wf_Message m"
  obtains rc w' where "send_response_message os s m w = Some (rc, w')" "only_calls reply_call w w'"
    "sends w' = sends w @ (case wire m of None \<Rightarrow> [] | Some bs \<Rightarrow> [(s, bs)])"
proof (cases "wire m")
  case None
  from send_response_no_image [OF assms None] obtain w' where
    "send_response_message os s m w = Some (code_of ERROR_SERIALIZATION, w')" "quiet w w'" by blast
  then show ?thesis using that None by (simp add: quiet_only_calls log_reply_call quiet_projections)
next
  case (Some bs)
  from send_response_image [OF assms Some] obtain rc w' where
    "send_response_message os s m w = Some (rc, w')" and q: "quiet (docall os (SysSend s bs) w) w'" by metis
  moreover have "only_calls reply_call w w'"
    by (rule only_calls_trans [OF only_calls_docall quiet_only_calls [OF q]]) (simp_all add: log_reply_call)
  ultimately show ?thesis using that Some by (simp add: quiet_projections(1) [OF q])
qed

section \<open>Looking up a client\<close>

definition ids_terminated :: "ClientConnection list \<Rightarrow> bool" where
  "ids_terminated cs \<longleftrightarrow> list_all (\<lambda>c. terminated (c_id c)) cs"

definition serves :: "byte list \<Rightarrow> ClientConnection \<Rightarrow> bool" where
  "serves cid c \<longleftrightarrow> c_socket c > 0 \<and> c_str (c_id c) = c_str cid"

definition socket_of :: "ClientConnection list \<Rightarrow> byte list \<Rightarrow> int" where
  "socket_of cs cid = (case find (serves cid) cs of None \<Rightarrow> -1 | Some c \<Rightarrow> c_socket c)"

lemma find_client_loop_spec:
  "n \<le> length cs \<Longrightarrow> ids_terminated cs \<Longrightarrow> terminated cid \<Longrightarrow>
   find_client_loop n cs cid = Some (socket_of (take n cs) cid)"
  by (induction n cs cid rule: find_client_loop.induct)
    (auto simp: socket_of_def ids_terminated_def serves_def c_streq_terminated)

lemma find_client_socket_spec:
  "MAX_CLIENTS \<le> length (clients ctx) \<Longrightarrow> ids_terminated (clients ctx) \<Longrightarrow> terminated cid \<Longrightarrow>
   find_client_socket ctx cid = Some (socket_of (take MAX_CLIENTS (clients ctx)) cid)"
  by (simp add: find_client_socket_def find_client_loop_spec)

lemma socket_of_pos: "socket_of cs cid \<noteq> -1 \<Longrightarrow> 0 < socket_of cs cid \<and> socket_of cs cid \<in> c_socket ` set cs"
  by (auto simp: socket_of_def serves_def find_Some_iff split: option.splits intro!: imageI)

section \<open>Broadcasting\<close>

definition live :: "ClientConnection list \<Rightarrow> int list" where
  "live cs = filter (\<lambda>s. s > 0) (map c_socket cs)"

lemma live_simps [simp]:
  "live [] = []" "live (c # cs) = (if c_socket c > 0 then c_socket c # live cs else live cs)"
  "live (xs @ ys) = live xs @ live ys"
  by (simp_all add: live_def)

lemma broadcast_loop_spec:
  assumes "wf_Message msg" "wire msg = Some bs"
  shows "if length cs < n then broadcast_loop os n cs msg w = None
    else \<exists>w'. broadcast_loop os n cs msg w = Some w' \<and> only_calls reply_call w w'
      \<and> sends w' = sends w @ map (\<lambda>s. (s, bs)) (live (take n cs))"
proof (induction n arbitrary: cs w)
  case (Suc n)
  show ?case
  proof (cases cs)
    case (Cons c cs')
    show ?thesis
    proof (cases "c_socket c > 0")
      case False
      with Cons Suc show ?thesis by simp
    next
      case True
      obtain rc w1 where w1: "send_response_message os (c_socket c) msg w = Some (rc, w1)"
        "only_calls reply_call w w1" "sends w1 = sends w @ [(c_socket c, bs)]"
        using send_response_total [OF assms(1), of os "c_socket c" w] assms(2) by (metis option.simps(5))
      then have "broadcast_loop os (Suc n) cs msg w = broadcast_loop os n cs' msg w1"
        using True Cons by simp
      with Suc [of cs' w1] w1(2,3) True Cons show ?thesis
        by (auto split: if_splits intro: only_calls_trans)
    qed
  qed simp
qed simp

lemma broadcast_market_data_cases:
  assumes "wf_MarketData md"
  shows "if length (clients ctx) < MAX_CLIENTS then broadcast_market_data os ctx md w = None
    else \<exists>w'. broadcast_market_data os ctx md w = Some (code_of SUCCESS, snd (next_sequence_num ctx), w')
      \<and> only_calls reply_call w w'
      \<and> sends w' = sends w @ map (\<lambda>s. (s, frame 6 (enc_MarketData md))) (live (take MAX_CLIENTS (clients ctx)))"
proof -
  let ?m = "\<lparr>msg_type = 6, sequence_num = ctx_sequence_num ctx, msg_timestamp = fst (get_time os w),
    msg_data = init_data (enc_MarketData md)\<rparr>"
  have "only_calls reply_call w (snd (get_time os w))"
    by (rule quiet_only_calls [OF quiet_get_time]) (rule log_reply_call)
  then show ?thesis
    using broadcast_loop_spec [of ?m, OF wf_response wire_market_data, OF wf_payload_lengths(1) assms,
        OF assms, of "clients ctx" MAX_CLIENTS os "snd (get_time os w)"]
    by (auto simp: broadcast_market_data_def next_sequence_num_def Let_def case_prod_unfold
        split: if_splits intro: only_calls_trans)
qed

section \<open>Orders\<close>

lemma wire_order_status:
  "wire \<lparr>msg_type = 5, sequence_num = q, msg_timestamp = ts, msg_data = d\<rparr> = None"
  by (simp add: wire_def payload_len_def)

lemma wire_heartbeat:
  "wire \<lparr>msg_type = 1, sequence_num = q, msg_timestamp = ts, msg_data = d\<rparr> = None"
  by (simp add: wire_def payload_len_def)

lemma process_order_rejects:
  assumes "quantity order = 0 \<or> quantity order > 1000000"
  shows "\<exists>w'. process_order os pow10 pad ctx order w = Some (code_of ERROR_INVALID_ORDER, ctx, w') \<and> quiet w w'"
  using assms log_message_quiet_total [of "[LInt (uint (quantity order))]" LOG_ERROR os "''Invalid order quantity: %u''" w]
  by (auto simp: process_order_def)

lemma process_order_accepted:
  assumes "quantity order \<noteq> 0" "quantity order \<le> 1000000" "wf_Order order"
  shows "process_order os pow10 pad ctx order w = None \<and>
      (improved_price pow10 pad ctx order = None
       \<or> find_client_socket (snd (next_sequence_num ctx)) (client_id order) = None)
    \<or> (\<exists>w'. process_order os pow10 pad ctx order w
          = Some (code_of ERROR_SERIALIZATION, snd (next_sequence_num ctx), w') \<and> quiet w w')"
proof (cases "improved_price pow10 pad ctx order")
  case None
  with assms show ?thesis by (auto simp: process_order_def get_client_position_def Let_def not_less)
next
  case (Some price)
  define w1 where "w1 = snd (get_time os w)"
  define w2 where "w2 = snd (get_time os w1)"
  define ord' where "ord' = order\<lparr>order_price := price, status := OrderStatus_val ORDER_STATUS_NEW,
    modification_time := fst (get_time os w)\<rparr>"
  define m where "m = \<lparr>msg_type = 5, sequence_num = ctx_sequence_num ctx,
    msg_timestamp = fst (get_time os w1), msg_data = init_data (enc_Order ord')\<rparr>"
  have q: "quiet w w2" unfolding w1_def w2_def using quiet_trans quiet_get_time by blast
  have "wf_Order ord'" using assms(3) by (simp add: wf_Order_def ord'_def)
  then have wf: "wf_Message m" by (simp add: m_def wf_response wf_payload_lengths)
  have nlt: "\<not> 1000000 < quantity order" using assms(2) by (simp add: not_less)
  have eq: "process_order os pow10 pad ctx order w =
      do { sock \<leftarrow> find_client_socket (snd (next_sequence_num ctx)) (client_id order);
           (rc, w3) \<leftarrow> send_response_message os sock m w2;
           Some (rc, snd (next_sequence_num ctx), w3) }"
    using assms(1) nlt Some
    by (simp add: process_order_def get_client_position_def Let_def case_prod_unfold
        next_sequence_num_def w1_def w2_def m_def ord'_def)
  show ?thesis
  proof (cases "find_client_socket (snd (next_sequence_num ctx)) (client_id order)")
    case None
    then show ?thesis by (simp add: eq)
  next
    case (Some sock)
    obtain w3 where "send_response_message os sock m w2 = Some (code_of ERROR_SERIALIZATION, w3)" "quiet w2 w3"
      using send_response_no_image [OF wf, of os sock w2] by (auto simp: m_def wire_order_status)
    then show ?thesis using Some quiet_trans [OF q] by (auto simp: eq)
  qed
qed

section \<open>Trade executions\<close>

definition send_if_found :: "int \<Rightarrow> byte list \<Rightarrow> (int \<times> byte list) list" where
  "send_if_found s bs = (if s > 0 then [(s, bs)] else [])"

lemma process_trade_execution_Some:
  assumes "wf_TradeExecution tr"
    and "find_client_socket (snd (next_sequence_num ctx)) (buyer_id tr) = Some b"
    and "find_client_socket (snd (next_sequence_num ctx)) (seller_id tr) = Some s"
  shows "\<exists>w'. process_trade_execution os ctx tr w = Some (code_of SUCCESS, snd (next_sequence_num ctx), w')
    \<and> only_calls reply_call w w'
    \<and> sends w' = sends w @ send_if_found b (frame 7 (enc_TradeExecution tr))
        @ send_if_found s (frame 7 (enc_TradeExecution tr))"
proof -
  define w1 where "w1 = snd (get_time os w)"
  define m where "m = \<lparr>msg_type = 7, sequence_num = ctx_sequence_num ctx,
    msg_timestamp = fst (get_time os w), msg_data = init_data (enc_TradeExecution tr)\<rparr>"
  have wf: "wf_Message m" using assms(1) by (simp add: m_def wf_response wf_payload_lengths)
  have im: "wire m = Some (frame 7 (enc_TradeExecution tr))" using assms(1) by (simp add: m_def wire_trade)
  have send: "\<exists>w''. (if sk > 0 then map_option snd (send_response_message os sk m w') else Some w') = Some w''
      \<and> only_calls reply_call w' w'' \<and> sends w'' = sends w' @ send_if_found sk (frame 7 (enc_TradeExecution tr))"
    for sk w'
    by (rule send_response_total [OF wf, of os sk w']) (auto simp: send_if_found_def im)
  from send [of b w1] obtain w2 where w2:
    "(if b > 0 then map_option snd (send_response_message os b m w1) else Some w1) = Some w2"
    "only_calls reply_call w1 w2" "sends w2 = sends w1 @ send_if_found b (frame 7 (enc_TradeExecution tr))" by blast
  from send [of s w2] obtain w3 where w3:
    "(if s > 0 then map_option snd (send_response_message os s m w2) else Some w2) = Some w3"
    "only_calls reply_call w2 w3" "sends w3 = sends w2 @ send_if_found s (frame 7 (enc_TradeExecution tr))" by blast
  have "only_calls reply_call w w1"
    unfolding w1_def by (rule quiet_only_calls [OF quiet_get_time]) (rule log_reply_call)
  then have calls: "only_calls reply_call w w3" using w2(2) w3(2) only_calls_trans by blast
  have "process_trade_execution os ctx tr w = Some (code_of SUCCESS, snd (next_sequence_num ctx), w3)"
    using assms(2,3) w2(1) w3(1)
    by (cases "b > 0"; cases "s > 0")
      (auto simp: process_trade_execution_def Let_def case_prod_unfold next_sequence_num_def m_def w1_def)
  moreover have "sends w1 = sends w" by (simp add: w1_def)
  ultimately show ?thesis using calls w2(3) w3(3) by simp
qed

section \<open>The contract of a server operation\<close>

text \<open>
  What the threads of the server rely on when they call a handler: it changes nothing of the
  context but possibly the sequence counter, by one; it makes only log and send calls; no lock is
  left taken. The argument \<open>op\<close> is the operation for a fixed environment, \<open>ok\<close> is the
  well-formedness of its argument.
\<close>

locale server_op =
  fixes oper :: "ServerContext \<Rightarrow> 'a \<Rightarrow> world \<Rightarrow> (int \<times> ServerContext \<times> world) option"
    and ok :: "'a \<Rightarrow> bool"
  assumes op_context: "ok x \<Longrightarrow> oper ctx x w = Some (rc, ctx', w') \<Longrightarrow>
      ctx' = ctx \<or> ctx' = snd (next_sequence_num ctx)"
    and op_calls: "ok x \<Longrightarrow> oper ctx x w = Some (rc, ctx', w') \<Longrightarrow> only_calls reply_call w w'"
begin

lemma op_frame:
  assumes "ok x" "oper ctx x w = Some (rc, ctx', w')"
  shows "clients ctx' = clients ctx" "client_count ctx' = client_count ctx" "config ctx' = config ctx"
    "server_state ctx' = server_state ctx" "server_socket ctx' = server_socket ctx"
    "server_stats ctx' = server_stats ctx"
  using op_context [OF assms] by (auto simp: next_sequence_num_def)

lemma op_sequence:
  assumes "ok x" "oper ctx x w = Some (rc, ctx', w')"
  shows "ctx_sequence_num ctx' \<in> {ctx_sequence_num ctx, ctx_sequence_num ctx + 1}"
  using op_context [OF assms] by (auto simp: next_sequence_num_def)

lemma op_no_close:
  assumes "ok x" "oper ctx x w = Some (rc, ctx', w')"
  shows "closes w' = closes w"
  by (rule only_calls_no_closes [OF op_calls [OF assms]]) simp

lemma op_locks:
  assumes "ok x" "oper ctx x w = Some (rc, ctx', w')" "held w = Some ls" "''log_mutex'' \<notin> set ls"
  shows "held w' = Some ls"
  using held_only_calls [OF op_calls [OF assms(1,2)] assms(3,4)] .

end

lemma process_order_cases:
  assumes "wf_Order order" "process_order os pow10 pad ctx order w = Some (rc, ctx', w')"
  shows "rc = code_of ERROR_INVALID_ORDER \<and> ctx' = ctx \<and> quiet w w'
    \<or> rc = code_of ERROR_SERIALIZATION \<and> ctx' = snd (next_sequence_num ctx) \<and> quiet w w'"
  using assms process_order_rejects [of order os pow10 pad ctx w]
    process_order_accepted [of order os pow10 pad ctx w]
  by (cases "quantity order = 0 \<or> quantity order > 1000000") (auto simp: not_less)

interpretation po: server_op "process_order os pow10 pad" wf_Order for os pow10 pad
proof unfold_locales
  fix order ctx w rc ctx' w'
  assume wf: "wf_Order order" and res: "process_order os pow10 pad ctx order w = Some (rc, ctx', w')"
  from process_order_cases [OF wf res] have "quiet w w'" and "ctx' = ctx \<or> ctx' = snd (next_sequence_num ctx)"
    by auto
  then show "ctx' = ctx \<or> ctx' = snd (next_sequence_num ctx)" "only_calls reply_call w w'"
    by (auto intro: quiet_only_calls log_reply_call)
qed

interpretation bc: server_op "broadcast_market_data os" wf_MarketData for os
proof unfold_locales
  fix md ctx w rc ctx' w'
  assume wf: "wf_MarketData md" and res: "broadcast_market_data os ctx md w = Some (rc, ctx', w')"
  with broadcast_market_data_cases [OF wf, of ctx os w]
  show "ctx' = ctx \<or> ctx' = snd (next_sequence_num ctx)" "only_calls reply_call w w'"
    by (auto split: if_splits)
qed

lemma process_trade_execution_None:
  assumes "find_client_socket (snd (next_sequence_num ctx)) (buyer_id tr) = None
    \<or> find_client_socket (snd (next_sequence_num ctx)) (seller_id tr) = None"
  shows "process_trade_execution os ctx tr w = None"
  using assms
  by (cases "find_client_socket (snd (next_sequence_num ctx)) (buyer_id tr)")
    (auto simp: process_trade_execution_def next_sequence_num_def Let_def case_prod_unfold)

interpretation te: server_op "process_trade_execution os" wf_TradeExecution for os
proof unfold_locales
  fix tr ctx w rc ctx' w'
  assume wf: "wf_TradeExecution tr" and res: "process_trade_execution os ctx tr w = Some (rc, ctx', w')"
  then obtain b s where "find_client_socket (snd (next_sequence_num ctx)) (buyer_id tr) = Some b"
    "find_client_socket (snd (next_sequence_num ctx)) (seller_id tr) = Some s"
    using process_trade_execution_None [of ctx tr os w] by fastforce
  from process_trade_execution_Some [OF wf this, of os w] res
  show "ctx' = ctx \<or> ctx' = snd (next_sequence_num ctx)" "only_calls reply_call w w'"
    by auto
qed

section \<open>The dispatcher\<close>

lemma wf_data:
  "wf_Message m \<Longrightarrow> wf_Order (data_order m)"
  "wf_Message m \<Longrightarrow> wf_MarketData (data_market_data m)"
  "wf_Message m \<Longrightarrow> wf_TradeExecution (data_trade m)"
  by (simp_all add: wf_Message_def data_order_def data_market_data_def data_trade_def sizeof_defs
      order_codec.wf_dec market_data_codec.wf_dec trade_codec.wf_dec)

lemma handle_order_message_logged:
  "handle_order_message os pow10 pad ctx msg w = Some (rc, ctx', w') \<Longrightarrow>
   \<exists>w1. quiet w w1 \<and> process_order os pow10 pad ctx (data_order msg) w1 = Some (rc, ctx', w')"
  by (auto simp: handle_order_message_def Let_def bind_eq_Some_conv simp del: log_lines.simps
      dest: log_lines_quiet)

lemma handle_market_data_logged:
  "handle_market_data os pow10 ctx msg w = Some (rc, ctx', w') \<Longrightarrow>
   \<exists>w1. quiet w w1 \<and> broadcast_market_data os ctx (data_market_data msg) w1 = Some (rc, ctx', w')"
  by (auto simp: handle_market_data_def Let_def bind_eq_Some_conv simp del: log_lines.simps
      dest: log_lines_quiet)

lemma handle_trade_exec_logged:
  "handle_trade_exec os pow10 ctx msg w = Some (rc, ctx', w') \<Longrightarrow>
   \<exists>w1. quiet w w1 \<and> process_trade_execution os ctx (data_trade msg) w1 = Some (rc, ctx', w')"
  by (auto simp: handle_trade_exec_def Let_def bind_eq_Some_conv simp del: log_lines.simps
      dest: log_lines_quiet)

lemma handle_heartbeat_spec:
  "\<exists>w'. handle_heartbeat os s msg w = Some (code_of ERROR_SERIALIZATION, w') \<and> quiet w w'"
proof -
  obtain w1 where w1: "log_message os LOG_DEBUG ''Received heartbeat, sequence: %lu''
      [LInt (uint (sequence_num msg))] w = Some w1" "quiet w w1"
    using log_message_quiet_total [of "[LInt (uint (sequence_num msg))]" LOG_DEBUG os _ w] by auto
  obtain w3 where w3: "send_response_message os s \<lparr>msg_type = 1, sequence_num = sequence_num msg + 1,
      msg_timestamp = fst (get_time os w1), msg_data = init_data []\<rparr> (snd (get_time os w1))
      = Some (code_of ERROR_SERIALIZATION, w3)" "quiet (snd (get_time os w1)) w3"
    using send_response_no_image [of "\<lparr>msg_type = 1, sequence_num = sequence_num msg + 1,
      msg_timestamp = fst (get_time os w1), msg_data = init_data []\<rparr>", OF wf_response wire_heartbeat,
      of os s "snd (get_time os w1)"]
    by auto
  have "quiet w w3" using w1(2) w3(2) quiet_get_time quiet_trans by blast
  with w1(1) w3(1) show ?thesis
    by (auto simp: handle_heartbeat_def Let_def case_prod_unfold)
qed

lemma handle_error_quiet:
  "handle_error os msg w = Some (rc, w') \<Longrightarrow> rc = code_of SUCCESS \<and> quiet w w'"
  by (auto simp: handle_error_def bind_eq_Some_conv dest: log_message_quiet)

text \<open>What a dispatched message does: the three processing operations, or nothing but log lines.\<close>

lemma handle_message_cases:
  assumes "handle_message os pow10 pad ctx s msg w = Some (rc, ctx', w')"
  obtains (order) t w1 where "t \<in> {MSG_ORDER_NEW, MSG_ORDER_CANCEL, MSG_ORDER_MODIFY, MSG_ORDER_STATUS}"
      "msg_type msg = MessageType_val t" "quiet w w1"
      "process_order os pow10 pad ctx (data_order msg) w1 = Some (rc, ctx', w')"
  | (market) w1 where "msg_type msg = MessageType_val MSG_MARKET_DATA" "quiet w w1"
      "broadcast_market_data os ctx (data_market_data msg) w1 = Some (rc, ctx', w')"
  | (trade) w1 where "msg_type msg = MessageType_val MSG_TRADE_EXEC" "quiet w w1"
      "process_trade_execution os ctx (data_trade msg) w1 = Some (rc, ctx', w')"
  | (other) "ctx' = ctx" "quiet w w'"
      "rc = (if msg_type msg = MessageType_val MSG_HEARTBEAT then code_of ERROR_SERIALIZATION
             else if msg_type msg = MessageType_val MSG_ERROR then code_of SUCCESS
             else code_of ERROR_INVALID_MESSAGE)"
proof -
  from assms obtain w1 where w1: "log_message os LOG_INFO ''Handling message type: %d''
      [LInt (sint (msg_type msg))] w = Some w1"
    by (auto simp: handle_message_def bind_eq_Some_conv)
  then have q: "quiet w w1" by (auto dest: log_message_quiet)
  have unknown: "quiet w w'" if "log_message os LOG_ERROR ''Unknown message type: %d''
      [LInt (sint (msg_type msg))] w1 = Some w'" for w'
    using that q by (auto dest: log_message_quiet intro: quiet_trans)
  show thesis
  proof (cases "MessageType_of (msg_type msg)")
    case None
    then have "msg_type msg \<noteq> 1" "msg_type msg \<noteq> 8"
      by (auto simp: MessageType_of_def)
    with None assms w1 unknown show thesis
      by (intro other) (auto simp: handle_message_def bind_eq_Some_conv)
  next
    case (Some t)
    then have t: "msg_type msg = MessageType_val t" by (simp add: message_type.of_val_Some_iff)
    show thesis
    proof (cases t)
      case MSG_NONE
      with Some t assms w1 unknown show thesis
        by (intro other) (auto simp: handle_message_def bind_eq_Some_conv)
    next
      case MSG_HEARTBEAT
      with Some t assms w1 q handle_heartbeat_spec [of os s msg w1] show thesis
        by (intro other) (auto simp: handle_message_def intro: quiet_trans)
    next
      case MSG_ERROR
      with Some t assms w1 q show thesis
        by (intro other) (auto simp: handle_message_def intro: quiet_trans dest: handle_error_quiet)
    next
      case MSG_MARKET_DATA
      with Some t assms w1 q show thesis
        by (auto simp: handle_message_def dest!: handle_market_data_logged intro!: market quiet_trans [OF q])
    next
      case MSG_TRADE_EXEC
      with Some t assms w1 q show thesis
        by (auto simp: handle_message_def dest!: handle_trade_exec_logged intro!: trade quiet_trans [OF q])
    qed (use Some t assms w1 q in
        \<open>auto simp: handle_message_def dest!: handle_order_message_logged intro!: order [of t] quiet_trans [OF q]\<close>)
  qed
qed

interpretation hm: server_op "\<lambda>ctx msg. handle_message os pow10 pad ctx s msg" wf_Message for os pow10 pad s
proof unfold_locales
  fix msg ctx w rc ctx' w'
  assume wf: "wf_Message msg" and res: "handle_message os pow10 pad ctx s msg w = Some (rc, ctx', w')"
  have q: "quiet w w1 \<Longrightarrow> only_calls reply_call w w1" for w1
    by (auto intro: quiet_only_calls log_reply_call)
  from res have "(ctx' = ctx \<or> ctx' = snd (next_sequence_num ctx)) \<and> only_calls reply_call w w'"
  proof (cases rule: handle_message_cases)
    case (order t w1)
    then show ?thesis
      using po.op_context [OF wf_data(1) [OF wf] order(4)] po.op_calls [OF wf_data(1) [OF wf] order(4)]
        only_calls_trans [OF q [OF order(3)]] by simp
  next
    case (market w1)
    then show ?thesis
      using bc.op_context [OF wf_data(2) [OF wf] market(3)] bc.op_calls [OF wf_data(2) [OF wf] market(3)]
        only_calls_trans [OF q [OF market(2)]] by simp
  next
    case (trade w1)
    then show ?thesis
      using te.op_context [OF wf_data(3) [OF wf] trade(3)] te.op_calls [OF wf_data(3) [OF wf] trade(3)]
        only_calls_trans [OF q [OF trade(2)]] by simp
  qed (simp add: q)
  then show "ctx' = ctx \<or> ctx' = snd (next_sequence_num ctx)" "only_calls reply_call w w'" by auto
qed

section \<open>Price improvement\<close>

lemma d_mul_zero: "d_mul (d_of_int 0) (DFin False m e) = DFin False 0 (-1074)"
  by (simp add: d_of_int_def round_double_0)

lemma zero_ask: "mantissa (ask zero_MarketData) = 0" "exponent (ask zero_MarketData) = 0"
proof -
  have "slice 48 16 (replicate 104 (0 :: byte)) = replicate 16 0" by (simp add: slice_def)
  moreover have "(le_word (slice 0 8 (replicate 16 0)) :: 64 word) = 0"
    "(le_word (slice 8 4 (replicate 16 0)) :: 32 word) = 0"
    by (simp_all add: slice_def numeral_eq_Suc)
  ultimately show "mantissa (ask zero_MarketData) = 0" "exponent (ask zero_MarketData) = 0"
    by (simp_all add: zero_MarketData_def dec_MarketData_def dec_Price_def sizeof_defs)
qed

lemma improved_price_nonneg:
  assumes "pow10 0 = DFin False m0 e0"
    and "pow10 (sint (exponent (order_price order))) = DFin False mp ep" "0 < mp"
    and "0 \<le> sint (mantissa (order_price order))"
  shows "improved_price pow10 pad ctx order = Some (order_price order)"
proof -
  have "\<not> d_less (price_to_double pow10 (order_price order)) (price_to_double pow10 (ask zero_MarketData))"
    using d_mul_of_int_mono [OF assms(4) _ sint_abs_64 assms(3), of ep] assms(1,2)
    by (simp add: price_to_double_def zero_ask d_mul_zero)
  then show ?thesis by (simp add: improved_price_def get_market_data_def)
qed

section \<open>Concrete contexts\<close>

definition sample_slot :: "int \<Rightarrow> string \<Rightarrow> ClientConnection" where
  "sample_slot s cid = zero_ClientConnection\<lparr>c_socket := s,
     c_id := map of_char cid @ replicate (32 - length cid) 0\<rparr>"

definition sample_config :: "int \<Rightarrow> ServerConfig" where
  "sample_config n = \<lparr>port = 8080, max_clients = n, socket_timeout = 30, bind_address = lit ''0.0.0.0'',
     cfg_log_level = 2, cfg_log_file = lit ''./server.log'', max_symbols = 0,
     max_orders_per_symbol = 0, position_limit = 0, client_handler = False\<rparr>"

definition sample_context :: "ClientConnection list \<Rightarrow> ServerContext" where
  "sample_context cs = (fresh_context (sample_config (int (length cs))) 0)\<lparr>server_socket := 3,
     server_state := SERVER_RUNNING, clients := cs, client_count := int (length (live cs))\<rparr>"

definition two_clients :: "ClientConnection list" where
  "two_clients = sample_slot 5 ''alice'' # sample_slot 6 ''bob'' # replicate 98 zero_ClientConnection"

lemma two_clients_facts:
  "length two_clients = 100" "live two_clients = [5, 6]" "ids_terminated two_clients"
  "find (serves (map of_char ''bob'' @ [0])) two_clients = Some (sample_slot 6 ''bob'')"
proof -
  have l: "live (replicate n zero_ClientConnection) = []" for n
    by (induction n) (simp_all add: zero_ClientConnection_def)
  show "length two_clients = 100" "live two_clients = [5, 6]"
    by (simp_all add: two_clients_def sample_slot_def l)
  show "ids_terminated two_clients"
    by (simp add: two_clients_def ids_terminated_def sample_slot_def terminated_def list_all_iff
        zero_ClientConnection_def size_constants)
  show "find (serves (map of_char ''bob'' @ [0])) two_clients = Some (sample_slot 6 ''bob'')"
    by (simp add: two_clients_def sample_slot_def serves_def c_str_def zero_ClientConnection_def)
qed

section \<open>Properties\<close>

text \<open>C18. \<open>process_order\<close> on a table of \<open>MAX_CLIENTS\<close> slots, for a nonnegative price: an order of 0 or
  more than a million lots is rejected with \<open>ERROR_INVALID_ORDER\<close> and changes nothing; every other
  order consumes a sequence number and fails with \<open>ERROR_SERIALIZATION\<close>, because the status message
  it answers with has no wire format. In no case does a byte reach a client.\<close>

theorem process_order_never_acknowledges:
  assumes "wf_Order order" "terminated (client_id order)"
    and "MAX_CLIENTS \<le> length (clients ctx)" "ids_terminated (clients ctx)"
    and "pow10 0 = DFin False m0 e0"
    and "pow10 (sint (exponent (order_price order))) = DFin False mp ep" "0 < mp"
    and "0 \<le> sint (mantissa (order_price order))"
  shows "\<exists>w'. process_order os pow10 pad ctx order w =
      Some (if quantity order = 0 \<or> quantity order > 1000000
            then (code_of ERROR_INVALID_ORDER, ctx, w')
            else (code_of ERROR_SERIALIZATION, ctx\<lparr>ctx_sequence_num := ctx_sequence_num ctx + 1\<rparr>, w'))
    \<and> sends w' = sends w \<and> closes w' = closes w"
proof -
  have "find_client_socket (snd (next_sequence_num ctx)) (client_id order) \<noteq> None"
    using find_client_socket_spec [of "snd (next_sequence_num ctx)"] assms(2-4)
    by (simp add: next_sequence_num_def)
  then show ?thesis
    using process_order_rejects [of order os pow10 pad ctx w]
      process_order_accepted [of order os pow10 pad ctx w] assms(1)
      improved_price_nonneg [OF assms(5-8)]
    by (cases "quantity order = 0 \<or> quantity order > 1000000")
      (auto simp: not_less next_sequence_num_def dest: quiet_projections)
qed

theorem process_order_never_acknowledges_witness:
  "\<exists>w'. process_order (const_os 0) pow10_rn 0 (sample_context two_clients)
      (zero_Order\<lparr>order_type := 2, side := 1, quantity := 100\<rparr>) fresh_world =
     Some (-11, (sample_context two_clients)\<lparr>ctx_sequence_num := 2\<rparr>, w') \<and> sends w' = []"
proof -
  have p: "pow10_rn 0 = DFin False 4503599627370496 (-52)" by code_simp
  have z: "exponent (order_price zero_Order) = 0" "mantissa (order_price zero_Order) = 0"
    "client_id zero_Order = replicate 32 0"
    by code_simp+
  show ?thesis
    using process_order_never_acknowledges
      [of "zero_Order\<lparr>order_type := 2, side := 1, quantity := 100\<rparr>" "sample_context two_clients"
        pow10_rn 4503599627370496 "-52" 4503599627370496 "-52" "const_os 0" 0 fresh_world]
      wf_zero_structs(1) two_clients_facts
    by (auto simp: p z sample_context_def fresh_context_def wf_Order_def terminated_def size_constants fresh_world_def sends_def)
qed

text \<open>C40. With a nonnegative price no limit order is ever improved: the ask it is compared with is the
  zero price of a placeholder, so the branch needs a price below zero. \<open>pow\<close> only has to return
  positive finite factors.\<close>

theorem price_improvement_inert:
  assumes "pow10 0 = DFin False m0 e0"
    and "pow10 (sint (exponent (order_price order))) = DFin False mp ep" "0 < mp"
    and "0 \<le> sint (mantissa (order_price order))"
  shows "improved_price pow10 pad ctx order = Some (order_price order)"
  by (rule improved_price_nonneg [OF assms])

theorem price_improvement_inert_witness:
  "improved_price pow10_rn 0 (sample_context two_clients)
     (zero_Order\<lparr>order_type := 2, side := 1,
        order_price := \<lparr>mantissa = 15000, exponent = -2, price_pad = 0\<rparr>\<rparr>)
   = Some \<lparr>mantissa = 15000, exponent = -2, price_pad = 0\<rparr>"
proof -
  have p: "pow10_rn 0 = DFin False 4503599627370496 (-52)" "pow10_rn (-2) = DFin False 5764607523034235 (-59)"
    by code_simp+
  show ?thesis
    using price_improvement_inert [of pow10_rn 4503599627370496 "-52"
        "zero_Order\<lparr>order_type := 2, side := 1, order_price := \<lparr>mantissa = 15000, exponent = -2, price_pad = 0\<rparr>\<rparr>"
        5764607523034235 "-59"]
    by (simp add: p)
qed

text \<open>C16. \<open>broadcast_market_data\<close> is undefined exactly when fewer than \<open>MAX_CLIENTS\<close> slots were
  allocated (the loop bound is the constant, not the configured maximum). Otherwise it succeeds and
  sends the same wire image to every slot with a positive socket, in slot order and whatever the
  outcome of the single sends; it uses up one sequence number and closes nothing.\<close>

theorem broadcast_market_data_spec:
  assumes "wf_MarketData md"
  shows "if length (clients ctx) < MAX_CLIENTS then broadcast_market_data os ctx md w = None
    else \<exists>w'. broadcast_market_data os ctx md w =
        Some (code_of SUCCESS, ctx\<lparr>ctx_sequence_num := ctx_sequence_num ctx + 1\<rparr>, w')
      \<and> sends w' = sends w @ map (\<lambda>c. (c_socket c, frame (MessageType_val MSG_MARKET_DATA) (enc_MarketData md)))
          (filter (\<lambda>c. c_socket c > 0) (take MAX_CLIENTS (clients ctx)))
      \<and> closes w' = closes w"
proof -
  have live: "map (\<lambda>s. (s, bs)) (live cs) = map (\<lambda>c. (c_socket c, bs)) (filter (\<lambda>c. c_socket c > 0) cs)"
    for cs :: "ClientConnection list" and bs :: "byte list"
    by (induction cs) simp_all
  show ?thesis
    using broadcast_market_data_cases [OF assms, of ctx os w] bc.op_no_close [OF assms, of os ctx w]
    by (fastforce simp: live next_sequence_num_def)
qed

theorem broadcast_market_data_spec_witness:
  "(\<exists>w'. broadcast_market_data (const_os (-1)) (sample_context two_clients) zero_MarketData fresh_world
      = Some (0, (sample_context two_clients)\<lparr>ctx_sequence_num := 2\<rparr>, w')
    \<and> map fst (sends w') = [5, 6])
   \<and> broadcast_market_data (const_os 0) (sample_context (replicate 10 zero_ClientConnection))
       zero_MarketData fresh_world = None"
proof
  have "filter (\<lambda>c. c_socket c > 0) two_clients = [sample_slot 5 ''alice'', sample_slot 6 ''bob'']"
    by (simp add: two_clients_def sample_slot_def zero_ClientConnection_def)
  then show "\<exists>w'. broadcast_market_data (const_os (-1)) (sample_context two_clients) zero_MarketData fresh_world
      = Some (0, (sample_context two_clients)\<lparr>ctx_sequence_num := 2\<rparr>, w') \<and> map fst (sends w') = [5, 6]"
    using broadcast_market_data_spec [OF wf_zero_structs(2), of "sample_context two_clients" "const_os (-1)" fresh_world]
      two_clients_facts(1)
    by (fastforce simp: sample_context_def fresh_context_def size_constants fresh_world_def sends_def sample_slot_def)
  show "broadcast_market_data (const_os 0) (sample_context (replicate 10 zero_ClientConnection))
       zero_MarketData fresh_world = None"
    using broadcast_market_data_spec [OF wf_zero_structs(2), of "sample_context (replicate 10 zero_ClientConnection)"]
    by (simp add: sample_context_def fresh_context_def size_constants)
qed

text \<open>C17. \<open>process_trade_execution\<close> sends the trade to the first live slot with the buyer's id and then
  to the first live slot with the seller's id, skips a party that is not connected, reaches nobody
  else, and always succeeds.\<close>

theorem process_trade_execution_spec:
  assumes "wf_TradeExecution tr" "terminated (buyer_id tr)" "terminated (seller_id tr)"
    and "MAX_CLIENTS \<le> length (clients ctx)" "ids_terminated (clients ctx)"
  shows "\<exists>w'. process_trade_execution os ctx tr w =
        Some (code_of SUCCESS, ctx\<lparr>ctx_sequence_num := ctx_sequence_num ctx + 1\<rparr>, w')
      \<and> sends w' = sends w @
          map (\<lambda>s. (s, frame (MessageType_val MSG_TRADE_EXEC) (enc_TradeExecution tr)))
            (filter (\<lambda>s. s > 0) (map (socket_of (take MAX_CLIENTS (clients ctx))) [buyer_id tr, seller_id tr]))
      \<and> closes w' = closes w"
proof -
  let ?cs = "take MAX_CLIENTS (clients ctx)"
  have "find_client_socket (snd (next_sequence_num ctx)) (buyer_id tr) = Some (socket_of ?cs (buyer_id tr))"
    "find_client_socket (snd (next_sequence_num ctx)) (seller_id tr) = Some (socket_of ?cs (seller_id tr))"
    using find_client_socket_spec [of "snd (next_sequence_num ctx)"] assms
    by (simp_all add: next_sequence_num_def)
  from process_trade_execution_Some [OF assms(1) this, of os w] te.op_no_close [OF assms(1), of os ctx w]
  show ?thesis by (auto simp: send_if_found_def next_sequence_num_def)
qed

theorem process_trade_execution_spec_witness:
  "\<exists>w'. process_trade_execution (const_os 148) (sample_context two_clients)
      (zero_TradeExecution\<lparr>buyer_id := map of_char ''bob'' @ replicate 29 0,
                           seller_id := map of_char ''carol'' @ replicate 27 0\<rparr>) fresh_world
    = Some (0, (sample_context two_clients)\<lparr>ctx_sequence_num := 2\<rparr>, w') \<and> map fst (sends w') = [6]"
proof -
  let ?tr = "zero_TradeExecution\<lparr>buyer_id := map of_char ''bob'' @ replicate 29 0,
                           seller_id := map of_char ''carol'' @ replicate 27 0\<rparr>"
  have "find P (replicate n zero_ClientConnection) = None" if "\<not> P zero_ClientConnection" for P n
    using that by (simp add: find_None_iff)
  then have s: "socket_of two_clients (buyer_id ?tr) = 6" "socket_of two_clients (seller_id ?tr) = -1"
    by (simp_all add: socket_of_def two_clients_def sample_slot_def serves_def c_str_def zero_ClientConnection_def)
  show ?thesis
    using process_trade_execution_spec [of ?tr "sample_context two_clients" "const_os 148" fresh_world]
      wf_zero_structs(3) two_clients_facts s
    by (auto simp: sample_context_def fresh_context_def size_constants fresh_world_def sends_def wf_TradeExecution_def terminated_def)
qed

text \<open>C19. Whatever message is dispatched, \<open>handle_message\<close> leaves the client table, the client count,
  the configuration, the state and the statistics of the server as they are, moves the sequence
  counter by at most one, closes no socket, and returns with the same locks held as before. A
  heartbeat is not answered: its reply cannot be serialised.\<close>

theorem handle_message_contract:
  assumes "wf_Message msg" "handle_message os pow10 pad ctx s msg w = Some (rc, ctx', w')"
  shows "ctx' = ctx\<lparr>ctx_sequence_num := ctx_sequence_num ctx'\<rparr>
    \<and> ctx_sequence_num ctx' \<in> {ctx_sequence_num ctx, ctx_sequence_num ctx + 1}
    \<and> closes w' = closes w
    \<and> (held w = Some [] \<longrightarrow> held w' = Some [])
    \<and> (msg_type msg = MessageType_val MSG_HEARTBEAT \<longrightarrow> rc = code_of ERROR_SERIALIZATION \<and> sends w' = sends w)"
proof -
  have "ctx' = ctx\<lparr>ctx_sequence_num := ctx_sequence_num ctx'\<rparr>"
    using hm.op_context [OF assms] by (auto simp: next_sequence_num_def)
  moreover have "rc = code_of ERROR_SERIALIZATION \<and> sends w' = sends w"
    if "msg_type msg = MessageType_val MSG_HEARTBEAT"
    using assms(2)
  proof (cases rule: handle_message_cases)
    case (order t w1)
    with that show ?thesis by (auto simp: message_type.val_inject)
  qed (use that in \<open>auto simp: message_type.val_inject quiet_projections\<close>)
  ultimately show ?thesis
    using hm.op_sequence [OF assms] hm.op_no_close [OF assms] hm.op_locks [OF assms, of "[]"] by simp
qed

theorem handle_message_contract_witness:
  "\<exists>w'. handle_message (const_os 0) pow10_rn 0 (sample_context two_clients) 5
      \<lparr>msg_type = 1, sequence_num = 9, msg_timestamp = 0, msg_data = replicate 264 0\<rparr> fresh_world
      = Some (-11, sample_context two_clients, w') \<and> sends w' = []"
proof -
  let ?m = "\<lparr>msg_type = 1, sequence_num = 9, msg_timestamp = 0, msg_data = replicate 264 0\<rparr>"
  obtain w1 where w1: "log_message (const_os 0) LOG_INFO ''Handling message type: %d'' [LInt 1] fresh_world = Some w1"
    using log_message_total by fastforce
  obtain w' where w': "handle_heartbeat (const_os 0) 5 ?m w1 = Some (-11, w')"
    using handle_heartbeat_spec by fastforce
  have "handle_message (const_os 0) pow10_rn 0 (sample_context two_clients) 5 ?m fresh_world
      = Some (-11, sample_context two_clients, w')"
    using w1 w' by (simp add: handle_message_def MessageType_of_def)
  with handle_message_contract [OF _ this] show ?thesis
    by (simp add: wf_Message_def sizeof_defs fresh_world_def sends_def)
qed

end
