(* ===== verification/Server_Network.thy ===== *)
theory Server_Network
  imports Server_Handlers
begin

text \<open>
  \<open>src/server/server_network.c\<close>: the listening socket, accepting a client, the body of a client
  thread and the removal of a client. A \<open>ClientConnection*\<close> is the index of a slot of the table, so
  that a pointer kept across a \<open>memmove\<close> refers to whatever the slot holds afterwards. The flag
  \<open>server_running\<close> is threaded through; the environment may deliver a signal whenever it is read.
\<close>

section \<open>Definitions\<close>

definition MAX_PENDING_CONNECTIONS :: nat where "MAX_PENDING_CONNECTIONS = 10"

text \<open>\<open>signal_handler\<close> of \<open>src/server/server_core.c\<close>, and reading \<open>server_running\<close>: if the
  environment delivers a signal, the handler runs first.\<close>

definition signal_handler :: "os \<Rightarrow> int \<Rightarrow> world \<Rightarrow> (int \<times> world) option" where
  "signal_handler os signum w =
     do {
       w1 \<leftarrow> log_message os LOG_INFO ''Received signal %d, initiating shutdown'' [LInt signum] w;
       Some (0, w1) }"

definition read_running :: "os \<Rightarrow> int \<Rightarrow> world \<Rightarrow> (int \<times> world) option" where
  "read_running os server_running w =
     (let (r, w1) = syscall os EnvSignal w
      in if ret r = 0 then Some (server_running, w1) else signal_handler os (ret r) w1)"

definition setup_socket :: "os \<Rightarrow> ServerContext \<Rightarrow> world \<Rightarrow> (int \<times> world) option" where
  "setup_socket os ctx w =
     (let (r, w1) = syscall os SysSocket w; server_socket = ret r
      in if server_socket < 0
         then do {
           w2 \<leftarrow> log_message os LOG_ERROR ''Failed to create socket: %s'' [LErrno (errno w1)] w1;
           Some (code_of ERROR_SOCKET_CREATE, w2) }
         else
           let (r2, w2) = syscall os (SysSetsockopt server_socket) w1
           in if ret r2 \<noteq> 0
              then do {
                w3 \<leftarrow> log_message os LOG_ERROR ''Failed to set socket options: %s'' [LErrno (errno w2)] w2;
                Some (code_of ERROR_SOCKET_CREATE, docall os (SysClose server_socket) w3) }
              else
                let (r3, w3) = syscall os (SysBind server_socket (word_of_int (port (config ctx)))) w2
                in if ret r3 < 0
                   then do {
                     w4 \<leftarrow> log_message os LOG_ERROR ''Failed to bind socket: %s'' [LErrno (errno w3)] w3;
                     Some (code_of ERROR_SOCKET_BIND, docall os (SysClose server_socket) w4) }
                   else
                     let (r4, w4) = syscall os (SysListen server_socket MAX_PENDING_CONNECTIONS) w3
                     in if ret r4 < 0
                        then do {
                          w5 \<leftarrow> log_message os LOG_ERROR ''Failed to listen on socket: %s'' [LErrno (errno w4)] w4;
                          Some (code_of ERROR_SOCKET_LISTEN, docall os (SysClose server_socket) w5) }
                        else do {
                          w5 \<leftarrow> log_message os LOG_INFO ''Server socket setup successfully on port %d''
                            [LInt (port (config ctx))] w4;
                          Some (server_socket, w5) })"

text \<open>Registering an accepted socket in the slot \<open>client_count\<close>.\<close>

definition add_client :: "os \<Rightarrow> int \<Rightarrow> byte list \<Rightarrow> ServerContext \<Rightarrow> world \<Rightarrow> (ServerContext \<times> world) option" where
  "add_client os client_socket addr ctx w =
     (let i = client_count ctx
      in if i < 0 \<or> int (length (clients ctx)) \<le> i then None
         else
           let (now1, w1) = get_time os w;
               (now2, w2) = get_time os w1;
               client = (clients ctx ! nat i)\<lparr>c_socket := client_socket, c_address := addr,
                 c_connect_time := now1, c_last_heartbeat := now2, c_has_context := True\<rparr>
           in Some (ctx\<lparr>clients := (clients ctx)[nat i := client], client_count := i + 1\<rparr>, w2))"

definition accept_client :: "os \<Rightarrow> ServerContext option \<Rightarrow> world \<Rightarrow> (int \<times> ServerContext option \<times> world) option" where
  "accept_client os context w =
     (case context of
        None \<Rightarrow> Some (ERROR_INVALID_PARAM_macro, None, w)
      | Some ctx \<Rightarrow>
          let (r, w1) = syscall os (SysAccept (server_socket ctx)) w; client_socket = ret r
          in if client_socket < 0
             then if errno w1 = EAGAIN
                  then Some (code_of ERROR_TIMEOUT, Some ctx, docall os (SysUsleep 10000) w1)
                  else do {
                    w2 \<leftarrow> log_message os LOG_ERROR ''Failed to accept client connection: %s''
                      [LErrno (errno w1)] w1;
                    Some (code_of ERROR_SOCKET_ACCEPT, Some ctx, w2) }
             else do {
               w2 \<leftarrow> log_message os LOG_INFO ''Accepted new client connection from %s:%d''
                 [LAddr (rbytes r)] w1;
               let w3 = docall os (SysLock ''clients_mutex'') w2;
               if client_count ctx \<ge> max_clients (config ctx)
               then do {
                 w4 \<leftarrow> log_message os LOG_ERROR ''Maximum client limit reached, rejecting connection'' [] w3;
                 let w5 = docall os (SysClose client_socket) w4;
                 Some (code_of ERROR_INVALID_STATE, Some ctx, docall os (SysUnlock ''clients_mutex'') w5) }
               else do {
                 (ctx', w4) \<leftarrow> add_client os client_socket (rbytes r) ctx w3;
                 Some (code_of SUCCESS, Some ctx', docall os (SysUnlock ''clients_mutex'') w4) } })"

text \<open>The search of \<open>disconnect_client\<close>: from slot \<open>j\<close> with \<open>n\<close> slots left, the first slot whose id
  equals \<open>cid\<close>.\<close>

fun same_id_loop :: "ClientConnection list \<Rightarrow> byte list \<Rightarrow> nat \<Rightarrow> nat \<Rightarrow> nat option option" where
  "same_id_loop cs cid j 0 = Some None"
| "same_id_loop cs cid j (Suc n) =
     (if length cs \<le> j then None
      else do {
        eq \<leftarrow> c_streq (c_id (cs ! j)) cid;
        if eq then Some (Some j) else same_id_loop cs cid (Suc j) n })"

text \<open>\<open>memmove(&clients[j], &clients[j + 1], (count - j - 1) * sizeof(ClientConnection))\<close>.\<close>

definition move_down :: "nat \<Rightarrow> nat \<Rightarrow> ClientConnection list \<Rightarrow> ClientConnection list option" where
  "move_down j count cs =
     do { block \<leftarrow> load_at (Suc j) (count - j - 1) cs; store_at j block cs }"

definition remove_client :: "nat \<Rightarrow> ServerContext \<Rightarrow> ServerContext option" where
  "remove_client i ctx =
     do {
       found \<leftarrow> same_id_loop (clients ctx) (c_id (clients ctx ! i)) 0 (nat (client_count ctx));
       (case found of
          None \<Rightarrow> Some ctx
        | Some j \<Rightarrow> do {
            cs \<leftarrow> (if int j < client_count ctx - 1 then move_down j (nat (client_count ctx)) (clients ctx)
                  else Some (clients ctx));
            Some (ctx\<lparr>clients := cs, client_count := client_count ctx - 1\<rparr>) }) }"

definition disconnect_client :: "os \<Rightarrow> ServerContext \<Rightarrow> nat \<Rightarrow> world \<Rightarrow> (ServerContext \<times> world) option" where
  "disconnect_client os ctx i w =
     (if length (clients ctx) \<le> i then None
      else
        let w1 = docall os (SysLock ''clients_mutex'') w
        in do {
          ctx' \<leftarrow> remove_client i ctx;
          let w2 = docall os (SysUnlock ''clients_mutex'') w1;
          let w3 = docall os (SysClose (c_socket (clients ctx' ! i))) w2;
          w4 \<leftarrow> log_message os LOG_INFO ''Client %s disconnected and cleaned up''
            [LStr (c_id (clients ctx' ! i))] w3;
          Some (ctx', w4) })"

text \<open>The switch of \<open>handle_client\<close> over the type of a received message; results are ignored.\<close>

definition dispatch ::
  "os \<Rightarrow> (int \<Rightarrow> double) \<Rightarrow> 32 word \<Rightarrow> byte list \<Rightarrow> Message \<Rightarrow> ServerContext \<Rightarrow> world \<Rightarrow> (ServerContext \<times> world) option" where
  "dispatch os pow10 pad cid msg ctx w =
     (if MessageType_of (msg_type msg) \<in> {Some MSG_ORDER_NEW, Some MSG_ORDER_MODIFY, Some MSG_ORDER_CANCEL}
      then do {
        w1 \<leftarrow> log_message os LOG_INFO ''Processing order type %d from client %s''
          [LInt (sint (msg_type msg)), LStr cid] w;
        map_option snd (process_order os pow10 pad ctx (data_order msg) w1) }
      else if MessageType_of (msg_type msg) = Some MSG_MARKET_DATA
      then do {
        w1 \<leftarrow> log_message os LOG_DEBUG ''Market data update for %s'' [LStr (md_symbol (data_market_data msg))] w;
        map_option snd (broadcast_market_data os ctx (data_market_data msg) w1) }
      else if MessageType_of (msg_type msg) = Some MSG_TRADE_EXEC
      then do {
        w1 \<leftarrow> log_message os LOG_INFO ''Trade execution for %s'' [LStr (trade_symbol (data_trade msg))] w;
        map_option snd (process_trade_execution os ctx (data_trade msg) w1) }
      else do {
        w1 \<leftarrow> log_message os LOG_WARN ''Unknown message type %d from client %s''
          [LInt (sint (msg_type msg)), LStr cid] w;
        Some (ctx, w1) })"

text \<open>The locals of a client thread that live across iterations.\<close>

record client_thread =
  t_slot :: nat
  t_buffer :: "byte list"
  t_msg :: Message

text \<open>One iteration of the loop of \<open>handle_client\<close>; the flag tells whether the loop goes on.\<close>

definition handle_client_iter ::
  "os \<Rightarrow> (int \<Rightarrow> double) \<Rightarrow> 32 word \<Rightarrow> client_thread \<Rightarrow> ServerContext \<Rightarrow> world \<Rightarrow>
   (bool \<times> client_thread \<times> ServerContext \<times> world) option" where
  "handle_client_iter os pow10 pad t ctx w =
     (if length (clients ctx) \<le> t_slot t then None
      else
        let client = clients ctx ! t_slot t;
            (r, w1) = syscall os (SysRecv (c_socket client) BUFFER_SIZE) w
        in if ret r = 0
           then do {
             w2 \<leftarrow> log_message os LOG_INFO ''Client %s disconnected'' [LStr (c_id client)] w1;
             Some (False, t, ctx, w2) }
           else if ret r < 0
           then do {
             w2 \<leftarrow> log_message os LOG_ERROR ''Error receiving from client %s: %s''
               [LStr (c_id client), LErrno (errno w1)] w1;
             Some (False, t, ctx, w2) }
           else do {
             buf \<leftarrow> store_at 0 (take (nat (ret r)) (rbytes r)) (t_buffer t);
             (rc, msg) \<leftarrow> deserialize_message (Some buf) (nat (ret r)) (Some (t_msg t));
             let t1 = t\<lparr>t_buffer := buf, t_msg := the msg\<rparr>;
             if rc \<noteq> code_of SUCCESS
             then do {
               w2 \<leftarrow> log_message os LOG_ERROR ''Failed to deserialize message from client %s''
                 [LStr (c_id client)] w1;
               Some (True, t1, ctx, w2) }
             else
               let (now, w2) = get_time os w1;
                   client' = client\<lparr>c_messages_received := c_messages_received client + 1,
                     c_last_heartbeat := now\<rparr>;
                   ctx1 = ctx\<lparr>clients := (clients ctx)[t_slot t := client']\<rparr>
               in do {
                 (ctx2, w3) \<leftarrow> dispatch os pow10 pad (c_id client') (the msg) ctx1 w2;
                 Some (True, t1, ctx2, w3) } })"

text \<open>The loop of \<open>handle_client\<close> cut off after \<open>n\<close> iterations: \<^term>\<open>Inl\<close> is a thread still in the loop,
  \<^term>\<open>Inr\<close> one that has left it.\<close>

type_synonym client_run = "int \<times> client_thread \<times> ServerContext \<times> world"

fun handle_client_loop ::
  "os \<Rightarrow> (int \<Rightarrow> double) \<Rightarrow> 32 word \<Rightarrow> nat \<Rightarrow> client_run \<Rightarrow> (client_run + client_run) option" where
  "handle_client_loop os pow10 pad 0 st = Some (Inl st)"
| "handle_client_loop os pow10 pad (Suc n) (server_running, t, ctx, w) =
     do {
       (running, w1) \<leftarrow> read_running os server_running w;
       if running = 0 then Some (Inr (running, t, ctx, w1))
       else do {
         (continue, t', ctx', w2) \<leftarrow> handle_client_iter os pow10 pad t ctx w1;
         if continue then handle_client_loop os pow10 pad n (running, t', ctx', w2)
         else Some (Inr (running, t', ctx', w2)) } }"

definition handle_client ::
  "os \<Rightarrow> (int \<Rightarrow> double) \<Rightarrow> 32 word \<Rightarrow> nat \<Rightarrow> client_run \<Rightarrow> (client_run + client_run) option" where
  "handle_client os pow10 pad n st =
     (case st of (server_running, t, ctx, w) \<Rightarrow>
        if length (clients ctx) \<le> t_slot t then None
        else do {
          w1 \<leftarrow> log_message os LOG_INFO ''Handling new client connection: %s''
            [LStr (c_id (clients ctx ! t_slot t))] w;
          result \<leftarrow> handle_client_loop os pow10 pad n (server_running, t, ctx, w1);
          (case result of
             Inl st' \<Rightarrow> Some (Inl st')
           | Inr (running, t', ctx', w2) \<Rightarrow> do {
               (ctx'', w3) \<leftarrow> disconnect_client os ctx' (t_slot t') w2;
               Some (Inr (running, t', ctx'', w3)) }) })"

section \<open>The client table\<close>

text \<open>
  The invariant of the table: as many slots as the configured maximum, a count within them, and
  slots whose id is still the zero bytes of \<open>calloc\<close> and that are not marked active (no code
  assigns \<open>id\<close>, \<open>active\<close> or the statistics).
\<close>

definition blank :: "ClientConnection \<Rightarrow> bool" where
  "blank c \<longleftrightarrow> c_id c = replicate MAX_CLIENT_ID_LENGTH 0 \<and> c_active c = 0"

definition table_inv :: "ServerConfig \<Rightarrow> ServerContext \<Rightarrow> bool" where
  "table_inv cfg ctx \<longleftrightarrow> config ctx = cfg \<and> int (length (clients ctx)) = max_clients cfg
     \<and> 0 \<le> client_count ctx \<and> client_count ctx \<le> max_clients cfg
     \<and> list_all blank (clients ctx) \<and> server_stats ctx = zero_ServerStats"

lemma blank_terminated: "blank c \<Longrightarrow> terminated (c_id c)"
  by (simp add: blank_def terminated_def size_constants)

lemma table_inv_ids: "table_inv cfg ctx \<Longrightarrow> ids_terminated (clients ctx)"
  by (auto simp: table_inv_def ids_terminated_def list_all_iff blank_terminated)

text \<open>The contract every operation on the server context shares: it keeps the table invariant.\<close>

locale keeps_table =
  fixes act :: "ServerContext \<Rightarrow> 'a \<Rightarrow> world \<Rightarrow> (int \<times> ServerContext \<times> world) option"
    and ok :: "'a \<Rightarrow> bool"
  assumes keeps: "table_inv cfg ctx \<Longrightarrow> ok x \<Longrightarrow> act ctx x w = Some (rc, ctx', w') \<Longrightarrow> table_inv cfg ctx'"
begin

lemma keeps_bounds:
  assumes "table_inv cfg ctx" "ok x" "act ctx x w = Some (rc, ctx', w')"
  shows "0 \<le> client_count ctx'" "client_count ctx' \<le> max_clients cfg"
    "length (clients ctx') = length (clients ctx)"
  using keeps [OF assms] assms(1) by (auto simp: table_inv_def)

end

sublocale server_op \<subseteq> keeps_table oper ok
proof
  fix cfg ctx x w rc ctx' w'
  assume "table_inv cfg ctx" "ok x" "oper ctx x w = Some (rc, ctx', w')"
  then show "table_inv cfg ctx'"
    using op_frame [of x ctx w rc ctx' w'] by (simp add: table_inv_def)
qed

lemma blank_update:
  "blank c \<Longrightarrow> blank (c\<lparr>c_socket := s, c_address := a, c_connect_time := t1, c_last_heartbeat := t2, c_has_context := b\<rparr>)"
  "blank c \<Longrightarrow> blank (c\<lparr>c_messages_received := n, c_last_heartbeat := t2\<rparr>)"
  by (simp_all add: blank_def)

lemma blank_list_update:
  assumes "list_all blank cs" "i < length cs"
  shows "list_all blank (cs[i := (cs ! i)\<lparr>c_socket := s, c_address := a, c_connect_time := t1,
      c_last_heartbeat := t2, c_has_context := b\<rparr>])"
    and "list_all blank (cs[i := (cs ! i)\<lparr>c_messages_received := n, c_last_heartbeat := t2\<rparr>])"
  using assms by (auto simp: list_all_length nth_list_update blank_update)

subsection \<open>Accepting\<close>

lemma add_client_table:
  assumes "table_inv cfg ctx" "client_count ctx < max_clients cfg"
  shows "\<exists>ctx' w'. add_client os s addr ctx w = Some (ctx', w') \<and> table_inv cfg ctx'
    \<and> client_count ctx' = client_count ctx + 1
    \<and> (\<forall>j. j \<noteq> nat (client_count ctx) \<longrightarrow> clients ctx' ! j = clients ctx ! j)
    \<and> c_socket (clients ctx' ! nat (client_count ctx)) = s
    \<and> c_address (clients ctx' ! nat (client_count ctx)) = addr \<and> quiet w w'
    \<and> server_socket ctx' = server_socket ctx"
proof -
  have i: "nat (client_count ctx) < length (clients ctx)" "0 \<le> client_count ctx"
    using assms by (auto simp: table_inv_def)
  have b: "list_all blank (clients ctx)" using assms(1) by (simp add: table_inv_def)
  have q: "quiet w (snd (get_time os (snd (get_time os w))))"
    using quiet_get_time quiet_trans by blast
  show ?thesis
    using i assms b q
    by (auto simp: add_client_def Let_def case_prod_unfold table_inv_def intro!: blank_list_update(1))
qed

lemma held_table_lock:
  assumes "held w = Some []" "quiet (docall os (SysLock l) w) w'" "l \<noteq> ''log_mutex''"
  shows "held (docall os (SysUnlock l) w') = Some []"
  using held_quiet [OF assms(2) held_lock [OF assms(1)]] assms(3) held_unlock by fastforce

text \<open>The three outcomes of \<open>accept\<close>: an error, a connection to a full table, a connection that is stored.
  In the last two the lock is taken first.\<close>

lemma accept_client_error:
  fixes os w ctx
  defines "r \<equiv> os (trace w) (SysAccept (server_socket ctx))"
  assumes "ret r < 0"
  shows "\<exists>rc w'. rc \<in> {code_of ERROR_TIMEOUT, code_of ERROR_SOCKET_ACCEPT}
    \<and> accept_client os (Some ctx) w = Some (rc, Some ctx, w') \<and> closes w' = closes w
    \<and> sends w' = sends w \<and> (held w = Some [] \<longrightarrow> held w' = Some []) \<and> polls (trace w') = polls (trace w)"
proof -
  define w1 where "w1 = docall os (SysAccept (server_socket ctx)) w"
  note sys = sys_pair [of os "SysAccept (server_socket ctx)" w, folded r_def w1_def]
  have p1: "closes w1 = closes w" "sends w1 = sends w" "held w1 = held w" "polls (trace w1) = polls (trace w)"
    by (simp_all add: w1_def docall_projections)
  show ?thesis
  proof (cases "errno w1 = EAGAIN")
    case True
    with assms(2) sys p1 show ?thesis by (simp add: accept_client_def docall_projections)
  next
    case False
    obtain w2 where w2: "log_message os LOG_ERROR ''Failed to accept client connection: %s''
        [LErrno (errno w1)] w1 = Some w2" "quiet w1 w2"
      using log_message_quiet_total [of "[LErrno (errno w1)]" LOG_ERROR os _ w1] by auto
    with False assms(2) sys p1 held_quiet [OF w2(2), of "[]"] show ?thesis
      by (simp add: accept_client_def quiet_projections [OF w2(2)])
  qed
qed

lemma accept_client_taken:
  fixes os w ctx
  defines "r \<equiv> os (trace w) (SysAccept (server_socket ctx))"
  assumes "\<not> ret r < 0"
  obtains w2 where "closes w2 = closes w" "sends w2 = sends w" "held w = Some [] \<Longrightarrow> held w2 = Some []"
    "polls (trace w2) = polls (trace w)"
    "accept_client os (Some ctx) w =
      (let w3 = docall os (SysLock ''clients_mutex'') w2
       in if client_count ctx \<ge> max_clients (config ctx)
          then do {
            w4 \<leftarrow> log_message os LOG_ERROR ''Maximum client limit reached, rejecting connection'' [] w3;
            Some (code_of ERROR_INVALID_STATE, Some ctx,
              docall os (SysUnlock ''clients_mutex'') (docall os (SysClose (ret r)) w4)) }
          else do {
            (ctx', w4) \<leftarrow> add_client os (ret r) (rbytes r) ctx w3;
            Some (code_of SUCCESS, Some ctx', docall os (SysUnlock ''clients_mutex'') w4) })"
proof -
  define w1 where "w1 = docall os (SysAccept (server_socket ctx)) w"
  note sys = sys_pair [of os "SysAccept (server_socket ctx)" w, folded r_def w1_def]
  obtain w2 where w2: "log_message os LOG_INFO ''Accepted new client connection from %s:%d''
      [LAddr (rbytes r)] w1 = Some w2" "quiet w1 w2"
    using log_message_quiet_total [of "[LAddr (rbytes r)]" LOG_INFO os _ w1] by auto
  have "closes w2 = closes w" "sends w2 = sends w" "held w = Some [] \<Longrightarrow> held w2 = Some []"
    "polls (trace w2) = polls (trace w)"
    using quiet_projections [OF w2(2)] held_quiet [OF w2(2), of "[]"] by (simp_all add: w1_def docall_projections)
  then show thesis using assms(2) w2(1) sys by (intro that [of w2]) (simp_all add: accept_client_def Let_def)
qed

lemma accept_client_full:
  fixes os w ctx
  defines "r \<equiv> os (trace w) (SysAccept (server_socket ctx))"
  assumes "\<not> ret r < 0" "client_count ctx \<ge> max_clients (config ctx)"
  shows "\<exists>w'. accept_client os (Some ctx) w = Some (code_of ERROR_INVALID_STATE, Some ctx, w')
    \<and> closes w' = closes w @ [ret r] \<and> sends w' = sends w \<and> (held w = Some [] \<longrightarrow> held w' = Some [])
    \<and> polls (trace w') = polls (trace w)"
proof -
  obtain w2 where w2: "closes w2 = closes w" "sends w2 = sends w" "held w = Some [] \<Longrightarrow> held w2 = Some []"
    "polls (trace w2) = polls (trace w)"
    and eq: "accept_client os (Some ctx) w = do {
        w4 \<leftarrow> log_message os LOG_ERROR ''Maximum client limit reached, rejecting connection'' []
          (docall os (SysLock ''clients_mutex'') w2);
        Some (code_of ERROR_INVALID_STATE, Some ctx,
          docall os (SysUnlock ''clients_mutex'') (docall os (SysClose (ret r)) w4)) }"
    using accept_client_taken [of os w ctx] assms by (auto simp: r_def)
  define w3 where "w3 = docall os (SysLock ''clients_mutex'') w2"
  obtain w4 where w4: "log_message os LOG_ERROR ''Maximum client limit reached, rejecting connection'' [] w3 = Some w4"
    "quiet w3 w4"
    using log_message_quiet_total [of "[]" LOG_ERROR os _ w3] by auto
  have "held (docall os (SysUnlock ''clients_mutex'') (docall os (SysClose (ret r)) w4)) = Some []" if "held w = Some []"
    using held_quiet [OF w4(2), of "[''clients_mutex'']"] w2(3) [OF that] by (simp add: w3_def held_lock held_unlock)
  then show ?thesis
    using eq w4(1) w2 quiet_projections [OF w4(2)] by (simp add: w3_def [symmetric]) (simp add: w3_def docall_projections)
qed

lemma accept_client_added:
  fixes os w ctx
  defines "r \<equiv> os (trace w) (SysAccept (server_socket ctx))"
  assumes "table_inv cfg ctx" "\<not> ret r < 0" "client_count ctx < max_clients cfg"
  shows "\<exists>ctx' w'. table_inv cfg ctx' \<and> accept_client os (Some ctx) w = Some (code_of SUCCESS, Some ctx', w')
    \<and> client_count ctx' = client_count ctx + 1 \<and> c_socket (clients ctx' ! nat (client_count ctx)) = ret r
    \<and> (\<forall>j. j \<noteq> nat (client_count ctx) \<longrightarrow> clients ctx' ! j = clients ctx ! j)
    \<and> closes w' = closes w \<and> sends w' = sends w \<and> (held w = Some [] \<longrightarrow> held w' = Some [])
    \<and> server_socket ctx' = server_socket ctx \<and> polls (trace w') = polls (trace w)"
proof -
  have room: "\<not> client_count ctx \<ge> max_clients (config ctx)" using assms(2,4) by (simp add: table_inv_def)
  obtain w2 where w2: "closes w2 = closes w" "sends w2 = sends w" "held w = Some [] \<Longrightarrow> held w2 = Some []"
    "polls (trace w2) = polls (trace w)"
    and eq: "accept_client os (Some ctx) w = do {
        (ctx', w4) \<leftarrow> add_client os (ret r) (rbytes r) ctx (docall os (SysLock ''clients_mutex'') w2);
        Some (code_of SUCCESS, Some ctx', docall os (SysUnlock ''clients_mutex'') w4) }"
    using accept_client_taken [of os w ctx] assms(3) room by (auto simp: r_def)
  define w3 where "w3 = docall os (SysLock ''clients_mutex'') w2"
  obtain ctx' w4 where a: "add_client os (ret r) (rbytes r) ctx w3 = Some (ctx', w4)" "table_inv cfg ctx'"
    "client_count ctx' = client_count ctx + 1"
    "\<forall>j. j \<noteq> nat (client_count ctx) \<longrightarrow> clients ctx' ! j = clients ctx ! j"
    "c_socket (clients ctx' ! nat (client_count ctx)) = ret r" "quiet w3 w4" "server_socket ctx' = server_socket ctx"
    using add_client_table [OF assms(2), of os "ret r" "rbytes r" w3] assms(4) by auto
  have "held (docall os (SysUnlock ''clients_mutex'') w4) = Some []" if "held w = Some []"
    using held_table_lock [OF w2(3) [OF that]] a(6) by (simp add: w3_def)
  then show ?thesis
    using eq a w2 quiet_projections [OF a(6)] by (simp add: w3_def [symmetric]) (simp add: w3_def docall_projections)
qed

lemma accept_client_cases:
  fixes os w ctx
  defines "r \<equiv> os (trace w) (SysAccept (server_socket ctx))"
  assumes "table_inv cfg ctx"
  obtains (failed) rc w' where "ret r < 0" "rc \<in> {code_of ERROR_TIMEOUT, code_of ERROR_SOCKET_ACCEPT}"
      "accept_client os (Some ctx) w = Some (rc, Some ctx, w')" "closes w' = closes w"
      "sends w' = sends w" "held w = Some [] \<Longrightarrow> held w' = Some []"
      "polls (trace w') = polls (trace w)"
  | (full) w' where "0 \<le> ret r" "client_count ctx = max_clients cfg"
      "accept_client os (Some ctx) w = Some (code_of ERROR_INVALID_STATE, Some ctx, w')"
      "closes w' = closes w @ [ret r]" "sends w' = sends w" "held w = Some [] \<Longrightarrow> held w' = Some []"
      "polls (trace w') = polls (trace w)"
  | (added) ctx' w' where "0 \<le> ret r" "client_count ctx < max_clients cfg" "table_inv cfg ctx'"
      "accept_client os (Some ctx) w = Some (code_of SUCCESS, Some ctx', w')"
      "client_count ctx' = client_count ctx + 1" "c_socket (clients ctx' ! nat (client_count ctx)) = ret r"
      "\<forall>j. j \<noteq> nat (client_count ctx) \<longrightarrow> clients ctx' ! j = clients ctx ! j"
      "closes w' = closes w" "sends w' = sends w" "held w = Some [] \<Longrightarrow> held w' = Some []"
      "server_socket ctx' = server_socket ctx" "polls (trace w') = polls (trace w)"
proof (cases "ret r < 0")
  case True
  with accept_client_error [of os w ctx] failed show thesis by (auto simp: r_def)
next
  case False
  have bounds: "config ctx = cfg" "client_count ctx \<le> max_clients cfg" using assms(2) by (auto simp: table_inv_def)
  show thesis
  proof (cases "client_count ctx \<ge> max_clients cfg")
    case True
    with accept_client_full [of os w ctx] False bounds full show thesis by (auto simp: r_def)
  next
    case room: False
    with accept_client_added [of cfg ctx os w] assms(2) False added show thesis by (auto simp: r_def)
  qed
qed

subsection \<open>Disconnecting\<close>

definition same_id :: "ClientConnection \<Rightarrow> ClientConnection \<Rightarrow> bool" where
  "same_id c d \<longleftrightarrow> c_str (c_id c) = c_str (c_id d)"

lemma same_id_loop_finds:
  assumes "ids_terminated cs" "terminated cid" "j + n \<le> length cs"
    and "k < n" "c_str (c_id (cs ! (j + k))) = c_str cid" "\<And>l. l < k \<Longrightarrow> c_str (c_id (cs ! (j + l))) \<noteq> c_str cid"
  shows "same_id_loop cs cid j n = Some (Some (j + k))"
  using assms(3-6)
proof (induction n arbitrary: j k)
  case (Suc n)
  have "terminated (c_id (cs ! j))"
    using assms(1) Suc.prems(1) by (simp add: ids_terminated_def list_all_length)
  then have eq: "c_streq (c_id (cs ! j)) cid = Some (c_str (c_id (cs ! j)) = c_str cid)"
    using assms(2) by (simp add: c_streq_terminated)
  show ?case
  proof (cases k)
    case 0
    with Suc.prems eq show ?thesis by simp
  next
    case (Suc k')
    then have "same_id_loop cs cid (Suc j) n = Some (Some (Suc j + k'))"
      using Suc.prems(1-3) Suc.prems(4) [of "Suc _"] by (intro Suc.IH) simp_all
    with Suc Suc.prems eq show ?thesis using Suc.prems(4) [of 0] by simp
  qed
qed simp

lemma move_down_spec:
  assumes "j < count" "count \<le> length cs"
  shows "\<exists>cs'. move_down j count cs = Some cs' \<and> length cs' = length cs
    \<and> (\<forall>k < length cs. cs' ! k = (if j \<le> k \<and> k < count - 1 then cs ! Suc k else cs ! k))"
proof -
  let ?b = "slice (Suc j) (count - j - 1) cs"
  have len: "length ?b = count - j - 1" using assms by (simp add: length_slice)
  have "move_down j count cs = Some (take j cs @ ?b @ drop (count - 1) cs)"
    using assms len by (simp add: move_down_def load_at_def store_at_def)
  moreover have "(take j cs @ ?b @ drop (count - 1) cs) ! k
      = (if j \<le> k \<and> k < count - 1 then cs ! Suc k else cs ! k)" if "k < length cs" for k
    using that assms len by (auto simp: nth_append slice_def min_def)
  ultimately show ?thesis using assms len by auto
qed

text \<open>Slot \<open>j\<close> is the first one with the id of slot \<open>i\<close>.\<close>

definition first_same :: "ServerContext \<Rightarrow> nat \<Rightarrow> nat \<Rightarrow> bool" where
  "first_same ctx i j \<longleftrightarrow> j \<le> i \<and> same_id (clients ctx ! j) (clients ctx ! i)
     \<and> (\<forall>l < j. \<not> same_id (clients ctx ! l) (clients ctx ! i))"

lemma remove_client_spec:
  assumes "ids_terminated (clients ctx)" "client_count ctx \<le> int (length (clients ctx))"
    and "int i < client_count ctx" "first_same ctx i j"
  shows "\<exists>cs. remove_client i ctx = Some (ctx\<lparr>clients := cs, client_count := client_count ctx - 1\<rparr>)
    \<and> length cs = length (clients ctx)
    \<and> (\<forall>k < length cs. cs ! k = clients ctx !
          (if j \<le> k \<and> int k < client_count ctx - 1 then Suc k else k))"
proof -
  have i: "i < length (clients ctx)" and c: "nat (client_count ctx) \<le> length (clients ctx)"
    using assms(2,3) by auto
  have j: "j < nat (client_count ctx)" using assms(3,4) unfolding first_same_def by linarith
  have "same_id_loop (clients ctx) (c_id (clients ctx ! i)) 0 (nat (client_count ctx)) = Some (Some (0 + j))"
    using assms i c
    by (intro same_id_loop_finds) (auto simp: first_same_def same_id_def ids_terminated_def list_all_length)
  moreover obtain cs' where cs': "move_down j (nat (client_count ctx)) (clients ctx) = Some cs'"
    "length cs' = length (clients ctx)"
    "\<forall>k < length (clients ctx). cs' ! k =
       (if j \<le> k \<and> k < nat (client_count ctx) - 1 then clients ctx ! Suc k else clients ctx ! k)"
    using move_down_spec [of j "nat (client_count ctx)" "clients ctx"] j c by blast
  ultimately have r: "remove_client i ctx = Some (ctx\<lparr>clients := (if int j < client_count ctx - 1 then cs' else clients ctx),
      client_count := client_count ctx - 1\<rparr>)"
    by (simp add: remove_client_def)
  show ?thesis
    by (rule exI [of _ "if int j < client_count ctx - 1 then cs' else clients ctx"]) (use r cs' in auto)
qed

lemma disconnect_client_spec:
  assumes "ids_terminated (clients ctx)" "client_count ctx \<le> int (length (clients ctx))"
    and "int i < client_count ctx" "first_same ctx i j"
  shows "\<exists>cs w'. disconnect_client os ctx i w
      = Some (ctx\<lparr>clients := cs, client_count := client_count ctx - 1\<rparr>, w')
    \<and> length cs = length (clients ctx)
    \<and> (\<forall>k < length cs. cs ! k = clients ctx !
          (if j \<le> k \<and> int k < client_count ctx - 1 then Suc k else k))
    \<and> closes w' = closes w @ [c_socket (clients ctx ! (if int i < client_count ctx - 1 then Suc i else i))]
    \<and> sends w' = sends w \<and> (held w = Some [] \<longrightarrow> held w' = Some [])"
proof -
  obtain cs where cs: "remove_client i ctx = Some (ctx\<lparr>clients := cs, client_count := client_count ctx - 1\<rparr>)"
    "length cs = length (clients ctx)"
    "\<forall>k < length cs. cs ! k = clients ctx ! (if j \<le> k \<and> int k < client_count ctx - 1 then Suc k else k)"
    using remove_client_spec [OF assms] by auto
  have i: "i < length (clients ctx)" using assms(2,3) by simp
  have csi: "cs ! i = clients ctx ! (if int i < client_count ctx - 1 then Suc i else i)"
    using cs(2,3) i assms(4) by (simp add: first_same_def)
  then have t: "terminated (c_id (cs ! i))"
    using assms(1-3) i by (auto simp: ids_terminated_def list_all_length)
  define w3 where "w3 = docall os (SysClose (c_socket (cs ! i)))
    (docall os (SysUnlock ''clients_mutex'') (docall os (SysLock ''clients_mutex'') w))"
  obtain w' where w': "log_message os LOG_INFO ''Client %s disconnected and cleaned up''
      [LStr (c_id (cs ! i))] w3 = Some w'" "quiet w3 w'"
    using log_message_quiet_total [of "[LStr (c_id (cs ! i))]" LOG_INFO os _ w3] t by auto
  have "disconnect_client os ctx i w = Some (ctx\<lparr>clients := cs, client_count := client_count ctx - 1\<rparr>, w')"
    using i cs(1) w'(1) by (simp add: disconnect_client_def w3_def)
  moreover have "held w = Some [] \<Longrightarrow> held w' = Some []"
    using held_quiet [OF w'(2), of "[]"] by (simp add: w3_def held_lock held_unlock)
  moreover have "closes w' = closes w @ [c_socket (cs ! i)]" "sends w' = sends w"
    using quiet_projections [OF w'(2)] by (simp_all add: w3_def docall_projections)
  ultimately show ?thesis using cs(2,3) csi by auto
qed

text \<open>In a table of blank slots every slot has the id of slot 0.\<close>

lemma table_id: "table_inv cfg ctx \<Longrightarrow> k < length (clients ctx) \<Longrightarrow>
    c_id (clients ctx ! k) = replicate MAX_CLIENT_ID_LENGTH 0"
  by (simp add: table_inv_def blank_def list_all_length)

lemma table_first_same: "table_inv cfg ctx \<Longrightarrow> int i < client_count ctx \<Longrightarrow> first_same ctx i 0"
  using table_id [of cfg ctx 0] table_id [of cfg ctx i]
  by (cases "clients ctx") (simp_all add: first_same_def table_inv_def same_id_def)

lemma disconnect_client_table:
  assumes "table_inv cfg ctx" "disconnect_client os ctx i w = Some (ctx', w')"
  shows "table_inv cfg ctx'"
proof (cases "int i < client_count ctx")
  case True
  have le: "client_count ctx \<le> int (length (clients ctx))" using assms(1) by (simp add: table_inv_def)
  have "Suc k < length (clients ctx)" if "int k < client_count ctx - 1" for k using that le by linarith
  then show ?thesis
    using disconnect_client_spec [OF table_inv_ids [OF assms(1)] le True table_first_same [OF assms(1) True], of os w]
      assms True
    by (auto simp: table_inv_def list_all_length)
next
  case False
  with assms have i: "client_count ctx \<le> int i" "i < length (clients ctx)"
    by (auto simp: disconnect_client_def split: if_splits)
  show ?thesis
  proof (cases "client_count ctx = 0")
    case True
    then have "remove_client i ctx = Some ctx" by (simp add: remove_client_def)
    with assms i show ?thesis by (auto simp: disconnect_client_def bind_eq_Some_conv Let_def)
  next
    case False
    let ?n = "nat (client_count ctx)"
    have n: "0 < ?n" "?n \<le> length (clients ctx)" "0 < client_count ctx" using False assms(1) by (auto simp: table_inv_def)
    have len0: "0 < length (clients ctx)" using n(1,2) by linarith
    have "same_id_loop (clients ctx) (c_id (clients ctx ! i)) 0 ?n = Some (Some (0 + 0))"
      using table_inv_ids [OF assms(1)] table_id [OF assms(1) len0] table_id [OF assms(1) i(2)] n i
      by (intro same_id_loop_finds) (auto simp: terminated_def size_constants)
    moreover obtain cs where "move_down 0 ?n (clients ctx) = Some cs" "length cs = length (clients ctx)"
      "\<forall>k < length (clients ctx). cs ! k = (if 0 \<le> k \<and> k < ?n - 1 then clients ctx ! Suc k else clients ctx ! k)"
      using move_down_spec [OF n(1,2)] by blast
    ultimately show ?thesis
      using assms i n
      by (auto simp: disconnect_client_def remove_client_def bind_eq_Some_conv Let_def table_inv_def
          list_all_length split: if_splits)
  qed
qed

subsection \<open>Client threads\<close>

definition wf_thread :: "client_thread \<Rightarrow> bool" where
  "wf_thread t \<longleftrightarrow> length (t_buffer t) = BUFFER_SIZE \<and> wf_Message (t_msg t)"

lemma dispatch_logged:
  assumes "dispatch os pow10 pad cid msg ctx w = Some (ctx', w')"
  obtains (order) w1 rc where "quiet w w1" "process_order os pow10 pad ctx (data_order msg) w1 = Some (rc, ctx', w')"
  | (market) w1 rc where "quiet w w1" "broadcast_market_data os ctx (data_market_data msg) w1 = Some (rc, ctx', w')"
  | (trade) w1 rc where "quiet w w1" "process_trade_execution os ctx (data_trade msg) w1 = Some (rc, ctx', w')"
  | (unknown) "ctx' = ctx" "quiet w w'"
  using assms unfolding dispatch_def
  by (auto simp: bind_eq_Some_conv split: if_splits dest: log_message_quiet)

interpretation ds: server_op
  "\<lambda>ctx msg w. map_option (Pair 0) (dispatch os pow10 pad cid msg ctx w)" wf_Message for os pow10 pad cid
proof -
  have "(ctx' = ctx \<or> ctx' = snd (next_sequence_num ctx)) \<and> only_calls reply_call w w'"
    if "wf_Message msg" "dispatch os pow10 pad cid msg ctx w = Some (ctx', w')" for msg ctx w ctx' w'
  proof -
    have q: "quiet w w1 \<Longrightarrow> only_calls reply_call w w1" for w1
      by (auto intro: quiet_only_calls log_reply_call)
    note wf = wf_data [OF that(1)]
    from that(2) show ?thesis
    proof (cases rule: dispatch_logged)
      case (order w1 rc)
      then show ?thesis
        using po.op_context [OF wf(1) order(2)] po.op_calls [OF wf(1) order(2)] only_calls_trans [OF q] by simp
    next
      case (market w1 rc)
      then show ?thesis
        using bc.op_context [OF wf(2) market(2)] bc.op_calls [OF wf(2) market(2)] only_calls_trans [OF q] by simp
    next
      case (trade w1 rc)
      then show ?thesis
        using te.op_context [OF wf(3) trade(2)] te.op_calls [OF wf(3) trade(2)] only_calls_trans [OF q] by simp
    qed (simp add: q)
  qed
  then show "server_op (\<lambda>ctx msg w. map_option (Pair 0) (dispatch os pow10 pad cid msg ctx w)) wf_Message"
    by unfold_locales auto
qed

text \<open>What an iteration does: it stops without touching the table, goes on after a packet that does
  not parse, or counts a message in its slot and dispatches it.\<close>

lemma handle_client_iter_cases:
  assumes "handle_client_iter os pow10 pad t ctx w = Some (continue, t', ctx', w')" "wf_thread t"
  obtains (stop) "\<not> continue" "t' = t" "ctx' = ctx"
  | (skip) "continue" "ctx' = ctx" "wf_thread t'" "t_slot t' = t_slot t"
  | (message) now w2 ctx1 where "continue" "wf_thread t'" "t_slot t' = t_slot t" "t_slot t < length (clients ctx)"
      "ctx1 = ctx\<lparr>clients := (clients ctx)[t_slot t := (clients ctx ! t_slot t)
         \<lparr>c_messages_received := c_messages_received (clients ctx ! t_slot t) + 1, c_last_heartbeat := now\<rparr>]\<rparr>"
      "dispatch os pow10 pad (c_id (clients ctx ! t_slot t)) (t_msg t') ctx1 w2 = Some (ctx', w')"
proof -
  let ?c = "clients ctx ! t_slot t"
  define r where "r = os (trace w) (SysRecv (c_socket ?c) BUFFER_SIZE)"
  define w1 where "w1 = snd (syscall os (SysRecv (c_socket ?c) BUFFER_SIZE) w)"
  have sys: "syscall os (SysRecv (c_socket ?c) BUFFER_SIZE) w = (r, w1)"
    by (simp add: prod_eq_iff r_def w1_def)
  have i: "t_slot t < length (clients ctx)"
    using assms(1) by (auto simp: handle_client_iter_def split: if_splits)
  note eq = assms(1) [unfolded handle_client_iter_def Let_def sys split]
  show thesis
  proof (cases "ret r \<le> 0")
    case True
    with eq i show thesis by (intro stop) (auto simp: bind_eq_Some_conv split: if_splits)
  next
    case False
    with eq i obtain buf rc m where buf: "store_at 0 (take (nat (ret r)) (rbytes r)) (t_buffer t) = Some buf"
      and des: "deserialize_message (Some buf) (nat (ret r)) (Some (t_msg t)) = Some (rc, m)"
      by (auto simp: bind_eq_Some_conv)
    from des obtain m' where m': "m = Some m'"
      by (auto simp: deserialize_message_def deserialize_payload_def Let_def bind_eq_Some_conv
          split: if_splits option.splits MessageType.splits)
    have wf: "wf_thread (t\<lparr>t_buffer := buf, t_msg := m'\<rparr>)"
      using length_store_at [OF buf] deserialize_keeps_wf [OF des [unfolded m']] assms(2)
      by (simp add: wf_thread_def)
    show thesis
    proof (cases "rc = code_of SUCCESS")
      case True
      then show thesis
        using eq i False buf des m' wf
        by (intro message [of _ "fst (get_time os w1)" "snd (get_time os w1)"])
          (auto simp: bind_eq_Some_conv case_prod_unfold)
    next
      case rc: False
      then show thesis
        using eq i False buf des m' wf by (intro skip) (auto simp: bind_eq_Some_conv)
    qed
  qed
qed

lemma handle_client_iter_table:
  assumes "table_inv cfg ctx" "wf_thread t"
    and "handle_client_iter os pow10 pad t ctx w = Some (continue, t', ctx', w')"
  shows "table_inv cfg ctx'" "wf_thread t'" "t_slot t' = t_slot t"
proof -
  from assms(3,2) have "table_inv cfg ctx' \<and> wf_thread t' \<and> t_slot t' = t_slot t"
  proof (cases rule: handle_client_iter_cases)
    case (message now w2 ctx1)
    have "table_inv cfg ctx1"
      using assms(1) message(4) by (auto simp: table_inv_def message(5) intro: blank_list_update(2))
    moreover have "wf_Message (t_msg t')" using message(2) by (simp add: wf_thread_def)
    ultimately show ?thesis using message ds.keeps [of cfg ctx1 "t_msg t'"] by simp
  qed (use assms in auto)
  then show "table_inv cfg ctx'" "wf_thread t'" "t_slot t' = t_slot t" by auto
qed

interpretation ac: keeps_table
  "\<lambda>ctx (_ :: unit) w. case accept_client os (Some ctx) w of Some (rc, Some ctx', w') \<Rightarrow> Some (rc, ctx', w') | _ \<Rightarrow> None"
  "\<lambda>_. True" for os
proof
  fix cfg ctx w rc ctx' w'
  assume inv: "table_inv cfg ctx"
    and res: "(case accept_client os (Some ctx) w of Some (rc, Some ctx', w') \<Rightarrow> Some (rc, ctx', w') | _ \<Rightarrow> None)
      = Some (rc, ctx', w')"
  from inv show "table_inv cfg ctx'"
    by (cases rule: accept_client_cases [of cfg ctx os w]) (use res inv in auto)
qed

interpretation dc: keeps_table "\<lambda>ctx i w. map_option (Pair 0) (disconnect_client os ctx i w)" "\<lambda>_. True" for os
  by unfold_locales (auto dest: disconnect_client_table)

interpretation it: keeps_table
  "\<lambda>ctx t w. map_option (\<lambda>(continue, t', ctx', w'). (0, ctx', w')) (handle_client_iter os pow10 pad t ctx w)"
  wf_thread for os pow10 pad
  by unfold_locales (auto dest: handle_client_iter_table)

text \<open>The loop and the whole thread.\<close>

fun run_context :: "client_run + client_run \<Rightarrow> ServerContext" where
  "run_context (Inl (running, t, ctx, w)) = ctx"
| "run_context (Inr (running, t, ctx, w)) = ctx"

fun run_thread :: "client_run + client_run \<Rightarrow> client_thread" where
  "run_thread (Inl (running, t, ctx, w)) = t"
| "run_thread (Inr (running, t, ctx, w)) = t"

lemma handle_client_loop_table:
  assumes "handle_client_loop os pow10 pad n (running, t, ctx, w) = Some res" "table_inv cfg ctx" "wf_thread t"
  shows "table_inv cfg (run_context res) \<and> wf_thread (run_thread res)"
  using assms
proof (induction n arbitrary: running t ctx w)
  case (Suc n)
  from Suc.prems(1) obtain running' w1 where rr: "read_running os running w = Some (running', w1)"
    by (auto simp: bind_eq_Some_conv)
  show ?case
  proof (cases "running' = 0")
    case True
    with rr Suc.prems show ?thesis by auto
  next
    case False
    with rr Suc.prems(1) obtain continue t' ctx' w2
      where it: "handle_client_iter os pow10 pad t ctx w1 = Some (continue, t', ctx', w2)"
      by (auto simp: bind_eq_Some_conv)
    note keep = handle_client_iter_table [OF Suc.prems(2,3) it]
    show ?thesis
      using Suc.prems(1) Suc.IH [of running' t' ctx' w2] False rr it keep
      by (cases continue) auto
  qed
qed auto

lemma removal_take:
  assumes "length cs = length xs" "j < count" "count \<le> length xs"
    and "\<forall>k < length cs. cs ! k = xs ! (if j \<le> k \<and> k < count - 1 then Suc k else k)"
  shows "take (count - 1) cs = take j xs @ drop (Suc j) (take count xs)"
proof (rule nth_equalityI)
  show "length (take (count - 1) cs) = length (take j xs @ drop (Suc j) (take count xs))"
    using assms(1-3) by simp
next
  fix k assume "k < length (take (count - 1) cs)"
  then have k: "k < count - 1" "k < length cs" by simp_all
  then show "take (count - 1) cs ! k = (take j xs @ drop (Suc j) (take count xs)) ! k"
    using assms by (simp add: nth_append)
qed

lemma removal_take_int:
  assumes "length cs = length xs" "int j < count" "count \<le> int (length xs)"
    and "\<forall>k < length cs. cs ! k = xs ! (if j \<le> k \<and> int k < count - 1 then Suc k else k)"
  shows "take (nat count - 1) cs = take j xs @ drop (Suc j) (take (nat count) xs)"
proof -
  have "int k < count - 1 \<longleftrightarrow> k < nat count - 1" for k using assms(2) by linarith
  then show ?thesis using assms by (intro removal_take) auto
qed

section \<open>Properties\<close>

text \<open>C15. \<open>accept_client\<close> is total on a well-formed table and keeps it well-formed, takes and releases
  its lock, and does one of three things: nothing when \<open>accept\<close> fails, closing the new socket when
  the table is full, or storing the new socket in the first free slot and nowhere else.\<close>

theorem accept_client_spec:
  assumes "table_inv cfg ctx" "r = os (trace w) (SysAccept (server_socket ctx))"
  shows "\<exists>rc ctx' w'. accept_client os (Some ctx) w = Some (rc, Some ctx', w')
    \<and> table_inv cfg ctx' \<and> sends w' = sends w \<and> (held w = Some [] \<longrightarrow> held w' = Some [])
    \<and> (if ret r < 0
       then rc \<in> {code_of ERROR_TIMEOUT, code_of ERROR_SOCKET_ACCEPT} \<and> ctx' = ctx \<and> closes w' = closes w
       else if client_count ctx = max_clients cfg
       then rc = code_of ERROR_INVALID_STATE \<and> ctx' = ctx \<and> closes w' = closes w @ [ret r]
       else rc = code_of SUCCESS \<and> client_count ctx' = client_count ctx + 1 \<and> closes w' = closes w
         \<and> c_socket (clients ctx' ! nat (client_count ctx)) = ret r
         \<and> (\<forall>j. j \<noteq> nat (client_count ctx) \<longrightarrow> clients ctx' ! j = clients ctx ! j))"
  using assms(1)
proof (cases rule: accept_client_cases [of cfg ctx os w])
  case (added ctx' w')
  then show ?thesis using assms by (intro exI [of _ "code_of SUCCESS"] exI [of _ ctx'] exI [of _ w']) simp
qed (use assms in auto)

theorem accept_client_spec_witness:
  "\<exists>w'. accept_client (const_os 9) (Some (sample_context [])) fresh_world
      = Some (-9, Some (sample_context []), w') \<and> closes w' = [9] \<and> sends w' = []"
proof -
  have inv: "table_inv (sample_config 0) (sample_context [])"
    by (simp add: table_inv_def sample_context_def fresh_context_def sample_config_def)
  show ?thesis
    using accept_client_spec [OF inv, of "const_os 9 [] (SysAccept 3)" "const_os 9" fresh_world]
    by (auto simp: sample_context_def fresh_context_def sample_config_def fresh_world_def const_os_def sends_def closes_def)
qed



end
