(* ===== verification/Server_Core.thy ===== *)
theory Server_Core
  imports Server_Network
begin

text \<open>
  \<open>src/server/server_core.c\<close>: validating a configuration, creating, running, stopping and
  destroying a server, and the states a running server can reach. The accept loop is cut off after
  a number of iterations, so that a loop that never ends is one that is still running at every
  bound.
\<close>

section \<open>Definitions\<close>

definition validate_server_config :: "os \<Rightarrow> ServerConfig option \<Rightarrow> world \<Rightarrow> (int \<times> world) option" where
  "validate_server_config os cfg w =
     (case cfg of
        None \<Rightarrow> Some (0, w)
      | Some c \<Rightarrow>
          if port c \<le> 0 \<or> port c > 65535
          then do { w1 \<leftarrow> log_message os LOG_ERROR ''Invalid port number: %d'' [LInt (port c)] w; Some (0, w1) }
          else if max_clients c \<le> 0 \<or> max_clients c > int MAX_CLIENTS
          then do { w1 \<leftarrow> log_message os LOG_ERROR ''Invalid max clients: %d'' [LInt (max_clients c)] w; Some (0, w1) }
          else if socket_timeout c < 0
          then do { w1 \<leftarrow> log_message os LOG_ERROR ''Invalid socket timeout: %d'' [LInt (socket_timeout c)] w; Some (0, w1) }
          else Some (1, w))"

definition sizeof_ServerContext :: nat where "sizeof_ServerContext = 696"
definition sizeof_ClientConnection :: nat where "sizeof_ClientConnection = 160"

text \<open>\<open>calloc(n, size)\<close> with \<open>n\<close> converted to \<open>size_t\<close>: NULL when the product overflows, otherwise
  the allocator decides. The result is the number of elements obtained.\<close>

definition c_calloc :: "os \<Rightarrow> int \<Rightarrow> nat \<Rightarrow> world \<Rightarrow> nat option \<times> world" where
  "c_calloc os n sz w =
     (let count = unat (word_of_int n :: 64 word);
          (r, w1) = syscall os (SysAlloc (int count * int sz)) w
      in (if 2 ^ 64 \<le> count * sz \<or> ret r = 0 then None else Some count, w1))"

text \<open>The chain of initialisations joined by \<open>||\<close>: it stops at the first failure.\<close>

fun init_locks :: "os \<Rightarrow> string list \<Rightarrow> world \<Rightarrow> bool \<times> world" where
  "init_locks os [] w = (True, w)"
| "init_locks os (l # ls) w =
     (let (r, w1) = syscall os (SysMutexInit l) w
      in if ret r \<noteq> 0 then (False, w1) else init_locks os ls w1)"

definition initialize_server_context :: "os \<Rightarrow> ServerConfig \<Rightarrow> world \<Rightarrow> (ServerContext option \<times> world) option" where
  "initialize_server_context os cfg w =
     (let (a, w1) = c_calloc os 1 sizeof_ServerContext w
      in case a of
           None \<Rightarrow> do {
             w2 \<leftarrow> log_message os LOG_ERROR ''Failed to allocate server context'' [] w1;
             Some (None, w2) }
         | Some _ \<Rightarrow>
             let (b, w2) = c_calloc os (max_clients cfg) sizeof_ClientConnection w1
             in case b of
                  None \<Rightarrow> do {
                    w3 \<leftarrow> log_message os LOG_ERROR ''Failed to allocate client array'' [] w2;
                    Some (None, docall os (SysFree ''context'') w3) }
                | Some n \<Rightarrow>
                    let (ok, w3) = init_locks os [''stats_mutex'', ''clients_mutex'', ''market_data_lock'',
                          ''order_book_lock'', ''position_lock''] w2
                    in if \<not> ok
                       then do {
                         w4 \<leftarrow> log_message os LOG_ERROR ''Failed to initialize locks'' [] w3;
                         let w5 = docall os (SysFree ''clients'') w4;
                         Some (None, docall os (SysFree ''context'') w5) }
                       else Some (Some
                         (fresh_context cfg n), w3))"

text \<open>The loop of \<open>stop_server\<close> at slot \<open>j\<close> with \<open>n\<close> slots left.\<close>

fun close_clients_loop :: "os \<Rightarrow> nat \<Rightarrow> nat \<Rightarrow> ClientConnection list \<Rightarrow> world \<Rightarrow> (ClientConnection list \<times> world) option" where
  "close_clients_loop os j 0 cs w = Some (cs, w)"
| "close_clients_loop os j (Suc n) cs w =
     (if length cs \<le> j then None
      else
        let c = cs ! j;
            (cs1, w1) = (if c_active c \<noteq> 0
               then (cs[j := c\<lparr>c_active := 0\<rparr>], docall os (SysThreadJoin (c_thread c)) w)
               else (cs, w));
            w2 = docall os (SysClose (c_socket (cs1 ! j))) w1
        in close_clients_loop os (Suc j) n cs1 w2)"

definition stop_server :: "os \<Rightarrow> ServerContext option \<Rightarrow> world \<Rightarrow> (ServerContext option \<times> world) option" where
  "stop_server os context w =
     (case context of
        None \<Rightarrow> Some (None, w)
      | Some ctx \<Rightarrow> do {
          w1 \<leftarrow> log_message os LOG_INFO ''Stopping server'' [] w;
          let ctx1 = ctx\<lparr>server_state := SERVER_STOPPING\<rparr>;
          let (ctx2, w2) = (if server_socket ctx1 \<ge> 0
             then (ctx1\<lparr>server_socket := -1\<rparr>, docall os (SysClose (server_socket ctx1)) w1)
             else (ctx1, w1));
          let w3 = docall os (SysLock ''clients_mutex'') w2;
          (cs, w4) \<leftarrow> close_clients_loop os 0 (nat (client_count ctx2)) (clients ctx2) w3;
          let w5 = docall os (SysUnlock ''clients_mutex'') w4;
          let ctx3 = ctx2\<lparr>clients := cs, client_count := 0, server_state := SERVER_STOPPED\<rparr>;
          w6 \<leftarrow> log_message os LOG_INFO ''Server stopped'' [] w5;
          Some (Some ctx3, w6) })"

text \<open>One turn of the accept loop.\<close>

definition accept_turn :: "os \<Rightarrow> int \<Rightarrow> ServerContext \<Rightarrow> world \<Rightarrow> (ServerContext \<times> world) option" where
  "accept_turn os server_running ctx w =
     do {
       w1 \<leftarrow> log_message os LOG_DEBUG ''Server running: %d'' [LInt server_running] w;
       (result, c, w2) \<leftarrow> accept_client os (Some ctx) w1;
       ctx' \<leftarrow> c;
       if result < 0
       then if errno w2 = EAGAIN
            then Some (ctx', docall os (SysUsleep 9000000) w2)
            else do {
              w3 \<leftarrow> log_message os LOG_ERROR ''Failed to accept client connection: %s'' [LErrno (errno w2)] w2;
              Some (ctx', w3) }
       else Some (ctx', w2) }"

text \<open>The accept loop cut off after \<open>n\<close> turns.\<close>

type_synonym server_run = "int \<times> ServerContext \<times> world"

fun accept_loop :: "os \<Rightarrow> nat \<Rightarrow> server_run \<Rightarrow> (server_run + server_run) option" where
  "accept_loop os 0 st = Some (Inl st)"
| "accept_loop os (Suc n) (server_running, ctx, w) =
     do {
       (running, w1) \<leftarrow> read_running os server_running w;
       if running = 0 then Some (Inr (running, ctx, w1))
       else do {
         (ctx', w2) \<leftarrow> accept_turn os running ctx w1;
         accept_loop os n (running, ctx', w2) } }"

definition SIGINT :: int where "SIGINT = 2"
definition SIGTERM :: int where "SIGTERM = 15"

text \<open>\<^term>\<open>Inl\<close>: still serving after \<open>n\<close> turns; \<^term>\<open>Inr\<close>: returned, with the result.\<close>

definition start_server ::
  "os \<Rightarrow> nat \<Rightarrow> int \<Rightarrow> ServerContext option \<Rightarrow> world \<Rightarrow>
   (server_run + int \<times> int \<times> ServerContext option \<times> world) option" where
  "start_server os n server_running context w =
     (case context of
        None \<Rightarrow> do {
          w1 \<leftarrow> log_message os LOG_ERROR ''Null server context'' [] w;
          Some (Inr (ERROR_INVALID_PARAM_macro, server_running, None, w1)) }
      | Some ctx \<Rightarrow> do {
          w1 \<leftarrow> log_message os LOG_INFO ''Starting server on port %d'' [LInt (port (config ctx))] w;
          let w2 = docall os (SysSigaction SIGTERM) (docall os (SysSigaction SIGINT) w1);
          (sock, w3) \<leftarrow> setup_socket os ctx w2;
          let ctx1 = ctx\<lparr>server_socket := sock\<rparr>;
          if sock < 0
          then do {
            w4 \<leftarrow> log_message os LOG_ERROR ''Failed to set up server socket'' [] w3;
            Some (Inr (sock, server_running, Some ctx1, w4)) }
          else do {
            let w4 = docall os (SysFcntl sock) (docall os (SysFcntl sock) w3);
            let ctx2 = ctx1\<lparr>server_state := SERVER_RUNNING\<rparr>;
            w5 \<leftarrow> log_message os LOG_INFO ''Server started successfully'' [] w4;
            result \<leftarrow> accept_loop os n (server_running, ctx2, w5);
            (case result of
               Inl st \<Rightarrow> Some (Inl st)
             | Inr (running, ctx3, w6) \<Rightarrow> do {
                 (ctx4, w7) \<leftarrow> stop_server os (Some ctx3) w6;
                 Some (Inr (code_of SUCCESS, running, ctx4, w7)) }) } })"

definition cleanup_server :: "os \<Rightarrow> ServerContext option \<Rightarrow> world \<Rightarrow> world option" where
  "cleanup_server os context w =
     (case context of
        None \<Rightarrow> Some w
      | Some ctx \<Rightarrow> do {
          (ctx', w1) \<leftarrow> stop_server os (Some ctx) w;
          let w2 = docall os (SysMutexDestroy ''stats_mutex'') w1;
          let w3 = docall os (SysMutexDestroy ''clients_mutex'') w2;
          let w4 = docall os (SysFree ''clients'') w3;
          let w5 = docall os (SysFree ''context'') w4;
          log_message os LOG_INFO ''Server resources cleaned up'' [] w5 })"

section \<open>Creating a server\<close>

lemma c_calloc_negative: "n < 0 \<Longrightarrow> - (2 ^ 31) \<le> n \<Longrightarrow> 1 < sz \<Longrightarrow> fst (c_calloc os n sz w) = None"
proof -
  assume n: "n < 0" "- (2 ^ 31) \<le> n" and sz: "1 < sz"
  have "n mod 2 ^ 64 = (n + 2 ^ 64) mod 2 ^ 64" by simp
  also have "\<dots> = n + 2 ^ 64" using n by (intro mod_pos_pos_trivial) simp_all
  finally have "uint (word_of_int n :: 64 word) = n + 2 ^ 64" by (simp add: uint_word_of_int)
  then have "2 ^ 63 \<le> unat (word_of_int n :: 64 word)"
    using n by (simp add: unat_eq_nat_uint)
  then have "2 ^ 64 \<le> unat (word_of_int n :: 64 word) * sz"
    using sz mult_le_mono [of "2 ^ 63" "unat (word_of_int n :: 64 word)" 2 sz] by simp
  then show ?thesis by (simp add: c_calloc_def Let_def case_prod_unfold)
qed

lemma c_calloc_nonneg:
  "0 \<le> n \<Longrightarrow> n < 2 ^ 31 \<Longrightarrow> fst (c_calloc os n sz w) = Some k \<Longrightarrow> int k = n"
  by (auto simp: c_calloc_def Let_def case_prod_unfold unat_eq_nat_uint uint_word_of_int split: if_splits)

definition int_config :: "ServerConfig \<Rightarrow> bool" where
  "int_config cfg \<longleftrightarrow> - (2 ^ 31) \<le> max_clients cfg \<and> max_clients cfg < 2 ^ 31"

lemma initialize_table:
  assumes "initialize_server_context os cfg w = Some (Some ctx, w')" "int_config cfg"
  shows "table_inv cfg ctx" "client_count ctx = 0" "0 \<le> max_clients cfg" "server_socket ctx = 0"
proof -
  let ?w1 = "snd (c_calloc os 1 sizeof_ServerContext w)"
  from assms(1) obtain n where n: "fst (c_calloc os (max_clients cfg) sizeof_ClientConnection ?w1) = Some n"
    and ctx: "ctx = (fresh_context cfg n)"
    by (auto simp: initialize_server_context_def Let_def case_prod_unfold bind_eq_Some_conv
        split: option.splits if_splits simp del: init_locks.simps)
  have nn: "0 \<le> max_clients cfg"
    using c_calloc_negative [of "max_clients cfg" sizeof_ClientConnection os ?w1] n assms(2)
    by (cases "max_clients cfg < 0") (auto simp: int_config_def sizeof_ClientConnection_def)
  then have "int n = max_clients cfg"
    using c_calloc_nonneg [of "max_clients cfg"] n assms(2) by (simp add: int_config_def)
  then show "table_inv cfg ctx" "client_count ctx = 0" "0 \<le> max_clients cfg" "server_socket ctx = 0"
    using nn by (simp_all add: ctx fresh_context_def table_inv_def list_all_iff blank_def zero_ClientConnection_def)
qed

section \<open>Stopping a server\<close>

lemma close_clients_spec:
  "j + n \<le> length cs \<Longrightarrow>
   \<exists>cs' w'. close_clients_loop os j n cs w = Some (cs', w')
     \<and> length cs' = length cs
     \<and> (\<forall>k < length cs. cs' ! k = (if j \<le> k \<and> k < j + n then (cs ! k)\<lparr>c_active := 0\<rparr> else cs ! k))
     \<and> closes w' = closes w @ map c_socket (take n (drop j cs)) \<and> sends w' = sends w \<and> held w' = held w"
proof (induction n arbitrary: j cs w)
  case (Suc n)
  define cs1 where "cs1 = cs[j := (cs ! j)\<lparr>c_active := 0\<rparr>]"
  define w1 where "w1 = (if c_active (cs ! j) \<noteq> 0 then docall os (SysThreadJoin (c_thread (cs ! j))) w else w)"
  define w2 where "w2 = docall os (SysClose (c_socket (cs ! j))) w1"
  have j: "j < length cs" using Suc.prems by simp
  have "cs = cs1" if "c_active (cs ! j) = 0"
  proof -
    from that have "(cs ! j)\<lparr>c_active := 0\<rparr> = cs ! j" by (cases "cs ! j") simp
    then show ?thesis by (simp add: cs1_def)
  qed
  then have eq: "close_clients_loop os j (Suc n) cs w = close_clients_loop os (Suc j) n cs1 w2"
    using j by (auto simp: w1_def w2_def cs1_def Let_def)
  have p: "closes w2 = closes w @ [c_socket (cs ! j)]" "sends w2 = sends w" "held w2 = held w"
    by (simp_all add: w2_def w1_def docall_projections)
  have len: "length cs1 = length cs" by (simp add: cs1_def)
  have dr: "take (Suc n) (drop j cs) = cs ! j # take n (drop (Suc j) cs1)"
    using j by (simp add: cs1_def Cons_nth_drop_Suc [symmetric])
  obtain cs' w' where "close_clients_loop os (Suc j) n cs1 w2 = Some (cs', w')" "length cs' = length cs1"
    "\<forall>k < length cs1. cs' ! k = (if Suc j \<le> k \<and> k < Suc j + n then (cs1 ! k)\<lparr>c_active := 0\<rparr> else cs1 ! k)"
    "closes w' = closes w2 @ map c_socket (take n (drop (Suc j) cs1))" "sends w' = sends w2" "held w' = held w2"
    using Suc.IH [of "Suc j" cs1 w2] Suc.prems len by auto
  then show ?case
    using eq p len dr j by (intro exI [of _ cs'] exI [of _ w']) (auto simp: cs1_def nth_list_update)
qed simp

lemma stop_server_spec:
  assumes "client_count ctx \<le> int (length (clients ctx))"
  shows "\<exists>cs w'. stop_server os (Some ctx) w = Some (Some (ctx\<lparr>clients := cs, client_count := 0,
        server_state := SERVER_STOPPED, server_socket := (if server_socket ctx \<ge> 0 then -1 else server_socket ctx)\<rparr>), w')
    \<and> length cs = length (clients ctx)
    \<and> (\<forall>k < length cs. cs ! k = (if int k < client_count ctx then (clients ctx ! k)\<lparr>c_active := 0\<rparr> else clients ctx ! k))
    \<and> closes w' = closes w @ (if server_socket ctx \<ge> 0 then [server_socket ctx] else [])
        @ map c_socket (take (nat (client_count ctx)) (clients ctx))
    \<and> sends w' = sends w \<and> (held w = Some [] \<longrightarrow> held w' = Some [])"
proof -
  obtain w1 where w1: "log_message os LOG_INFO ''Stopping server'' [] w = Some w1" "quiet w w1"
    using log_message_quiet_total [of "[]" LOG_INFO os _ w] by auto
  define w2 where "w2 = (if server_socket ctx \<ge> 0 then docall os (SysClose (server_socket ctx)) w1 else w1)"
  define w3 where "w3 = docall os (SysLock ''clients_mutex'') w2"
  obtain cs w4 where l: "close_clients_loop os 0 (nat (client_count ctx)) (clients ctx) w3 = Some (cs, w4)"
    "length cs = length (clients ctx)"
    "\<forall>k < length (clients ctx). cs ! k = (if 0 \<le> k \<and> k < 0 + nat (client_count ctx)
        then (clients ctx ! k)\<lparr>c_active := 0\<rparr> else clients ctx ! k)"
    "closes w4 = closes w3 @ map c_socket (take (nat (client_count ctx)) (drop 0 (clients ctx)))"
    "sends w4 = sends w3" "held w4 = held w3"
    using close_clients_spec [of 0 "nat (client_count ctx)" "clients ctx" os w3] assms by fastforce
  define w5 where "w5 = docall os (SysUnlock ''clients_mutex'') w4"
  obtain w6 where w6: "log_message os LOG_INFO ''Server stopped'' [] w5 = Some w6" "quiet w5 w6"
    using log_message_quiet_total [of "[]" LOG_INFO os _ w5] by auto
  have "closes w6 = closes w @ (if server_socket ctx \<ge> 0 then [server_socket ctx] else [])
        @ map c_socket (take (nat (client_count ctx)) (clients ctx))" "sends w6 = sends w"
    using l(4,5) quiet_projections [OF w1(2)] quiet_projections [OF w6(2)]
    by (simp_all add: w5_def w3_def w2_def docall_projections)
  moreover have "held w6 = Some []" if "held w = Some []"
    using held_quiet [OF w1(2) that] held_quiet [OF w6(2), of "[]"] l(6)
    by (simp add: w5_def w3_def w2_def held_lock held_unlock)
  moreover have "stop_server os (Some ctx) w = Some (Some (ctx\<lparr>clients := cs, client_count := 0,
        server_state := SERVER_STOPPED, server_socket := (if server_socket ctx \<ge> 0 then -1 else server_socket ctx)\<rparr>), w6)"
    using w1(1) w6(1) l(1)
    by (cases "server_socket ctx \<ge> 0"; cases ctx) (simp_all add: stop_server_def w5_def w3_def w2_def Let_def)
  ultimately show ?thesis using l(2,3) by (intro exI [of _ cs] exI [of _ w6]) auto
qed

section \<open>Opening the listening socket\<close>

text \<open>A log line, with or without closing a socket after it, as the branches of \<open>setup_socket\<close> end.\<close>

definition same_io :: "world \<Rightarrow> world \<Rightarrow> bool" where
  "same_io w w' \<longleftrightarrow> polls (trace w') = polls (trace w) \<and> sends w' = sends w \<and> (held w = Some [] \<longrightarrow> held w' = Some [])"

lemma log_then_return:
  assumes "lvl \<noteq> LOG_FATAL" "arg_ok a"
  shows "\<exists>w'. do { v \<leftarrow> log_message os lvl f [a] w; Some (rc, v) } = Some (rc, w') \<and> same_io w w' \<and> closes w' = closes w"
    and "\<exists>w'. do { v \<leftarrow> log_message os lvl f [a] w; Some (rc, docall os (SysClose s) v) } = Some (rc, w')
      \<and> same_io w w' \<and> closes w' = closes w @ [s]"
proof -
  obtain v where v: "log_message os lvl f [a] w = Some v" "quiet w v"
    using log_message_quiet_total [of "[a]" lvl os f w] assms by auto
  have "same_io w v" "closes v = closes w"
    using quiet_projections [OF v(2)] held_quiet [OF v(2), of "[]"] by (simp_all add: same_io_def)
  then show "\<exists>w'. do { v \<leftarrow> log_message os lvl f [a] w; Some (rc, v) } = Some (rc, w') \<and> same_io w w' \<and> closes w' = closes w"
    "\<exists>w'. do { v \<leftarrow> log_message os lvl f [a] w; Some (rc, docall os (SysClose s) v) } = Some (rc, w')
      \<and> same_io w w' \<and> closes w' = closes w @ [s]"
    using v(1) by (simp_all add: same_io_def docall_projections)
qed

lemma setup_socket_cases:
  fixes os w
  defines "s \<equiv> ret (os (trace w) SysSocket)"
  shows "\<exists>rc w'. setup_socket os ctx w = Some (rc, w') \<and> polls (trace w') = polls (trace w)
    \<and> sends w' = sends w \<and> (held w = Some [] \<longrightarrow> held w' = Some [])
    \<and> (if s < 0 then rc = code_of ERROR_SOCKET_CREATE \<and> closes w' = closes w
       else rc = s \<and> closes w' = closes w
         \<or> rc \<in> {code_of ERROR_SOCKET_CREATE, code_of ERROR_SOCKET_BIND, code_of ERROR_SOCKET_LISTEN}
           \<and> closes w' = closes w @ [s])"
proof -
  define w1 where "w1 = docall os SysSocket w"
  define w2 where "w2 = docall os (SysSetsockopt s) w1"
  define w3 where "w3 = docall os (SysBind s (word_of_int (port (config ctx)))) w2"
  define w4 where "w4 = docall os (SysListen s MAX_PENDING_CONNECTIONS) w3"
  have same: "(same_io v w' \<longleftrightarrow> same_io w w') \<and> closes v = closes w" if "v \<in> {w1, w2, w3, w4}" for v w'
    using that by (auto simp: same_io_def w4_def w3_def w2_def w1_def docall_projections)
  note fold = s_def [symmetric] w1_def [symmetric] w2_def [symmetric] w3_def [symmetric] w4_def [symmetric]
  have eq: "setup_socket os ctx w =
      (if s < 0
       then do { v \<leftarrow> log_message os LOG_ERROR ''Failed to create socket: %s'' [LErrno (errno w1)] w1;
                 Some (code_of ERROR_SOCKET_CREATE, v) }
       else if ret (os (trace w1) (SysSetsockopt s)) \<noteq> 0
       then do { v \<leftarrow> log_message os LOG_ERROR ''Failed to set socket options: %s'' [LErrno (errno w2)] w2;
                 Some (code_of ERROR_SOCKET_CREATE, docall os (SysClose s) v) }
       else if ret (os (trace w2) (SysBind s (word_of_int (port (config ctx))))) < 0
       then do { v \<leftarrow> log_message os LOG_ERROR ''Failed to bind socket: %s'' [LErrno (errno w3)] w3;
                 Some (code_of ERROR_SOCKET_BIND, docall os (SysClose s) v) }
       else if ret (os (trace w3) (SysListen s MAX_PENDING_CONNECTIONS)) < 0
       then do { v \<leftarrow> log_message os LOG_ERROR ''Failed to listen on socket: %s'' [LErrno (errno w4)] w4;
                 Some (code_of ERROR_SOCKET_LISTEN, docall os (SysClose s) v) }
       else do { v \<leftarrow> log_message os LOG_INFO ''Server socket setup successfully on port %d''
                   [LInt (port (config ctx))] w4;
                 Some (s, v) })"
    unfolding setup_socket_def sys_pair Let_def prod.case fold ..
  have "\<exists>rc w'. setup_socket os ctx w = Some (rc, w') \<and> same_io w w'
    \<and> (if s < 0 then rc = code_of ERROR_SOCKET_CREATE \<and> closes w' = closes w
       else rc = s \<and> closes w' = closes w
         \<or> rc \<in> {code_of ERROR_SOCKET_CREATE, code_of ERROR_SOCKET_BIND, code_of ERROR_SOCKET_LISTEN}
           \<and> closes w' = closes w @ [s])"
    using log_then_return(1) [of LOG_ERROR "LErrno (errno w1)" os _ w1] log_then_return(2) [of LOG_ERROR "LErrno (errno w2)" os _ w2 _ s]
      log_then_return(2) [of LOG_ERROR "LErrno (errno w3)" os _ w3 _ s] log_then_return(2) [of LOG_ERROR "LErrno (errno w4)" os _ w4 _ s]
      log_then_return(1) [of LOG_INFO "LInt (port (config ctx))" os _ w4] same [of w1] same [of w2] same [of w3] same [of w4]
    unfolding eq by (cases "s < 0") (fastforce split: if_splits)+
  then show ?thesis by (simp add: same_io_def)
qed

section \<open>The accept loop\<close>

lemma accept_turn_table:
  assumes "table_inv cfg ctx"
  shows "\<exists>ctx' w'. accept_turn os running ctx w = Some (ctx', w') \<and> table_inv cfg ctx'
    \<and> polls (trace w') = polls (trace w) \<and> sends w' = sends w \<and> server_socket ctx' = server_socket ctx
    \<and> (held w = Some [] \<longrightarrow> held w' = Some [])"
proof -
  obtain w1 where w1: "log_message os LOG_DEBUG ''Server running: %d'' [LInt running] w = Some w1" "quiet w w1"
    using log_message_quiet_total [of "[LInt running]" LOG_DEBUG os _ w] by auto
  have h1: "held w = Some [] \<Longrightarrow> held w1 = Some []" using held_quiet [OF w1(2), of "[]"] by simp
  have "\<exists>rc ctx' w2. accept_client os (Some ctx) w1 = Some (rc, Some ctx', w2) \<and> table_inv cfg ctx'
    \<and> polls (trace w2) = polls (trace w1) \<and> sends w2 = sends w1 \<and> server_socket ctx' = server_socket ctx
    \<and> (held w1 = Some [] \<longrightarrow> held w2 = Some [])"
    using assms by (cases rule: accept_client_cases [of cfg ctx os w1]) (use assms in auto)
  then obtain rc ctx' w2 where a: "accept_client os (Some ctx) w1 = Some (rc, Some ctx', w2)" "table_inv cfg ctx'"
    "polls (trace w2) = polls (trace w1)" "sends w2 = sends w1" "server_socket ctx' = server_socket ctx"
    "held w1 = Some [] \<longrightarrow> held w2 = Some []" by blast
  obtain w3 where w3: "log_message os LOG_ERROR ''Failed to accept client connection: %s'' [LErrno (errno w2)] w2
      = Some w3" "quiet w2 w3"
    using log_message_quiet_total [of "[LErrno (errno w2)]" LOG_ERROR os _ w2] by auto
  show ?thesis
    using w1(1) a w3(1) quiet_projections [OF w1(2)] quiet_projections [OF w3(2)] h1 held_quiet [OF w3(2), of "[]"]
    by (auto simp: accept_turn_def docall_projections)
qed

lemma read_running_total:
  "\<exists>w'. read_running os running w =
      Some (if ret (os (trace w) EnvSignal) = 0 then running else 0, w')
    \<and> polls (trace w') = Suc (polls (trace w)) \<and> closes w' = closes w \<and> sends w' = sends w
    \<and> (held w = Some [] \<longrightarrow> held w' = Some [])"
proof -
  let ?r = "os (trace w) EnvSignal"
  have sys: "syscall os EnvSignal w = (?r, docall os EnvSignal w)"
    by (simp add: prod_eq_iff snd_syscall)
  obtain w' where w': "log_message os LOG_INFO ''Received signal %d, initiating shutdown'' [LInt (ret ?r)]
      (docall os EnvSignal w) = Some w'" "quiet (docall os EnvSignal w) w'"
    using log_message_quiet_total [of "[LInt (ret ?r)]" LOG_INFO os _ "docall os EnvSignal w"] by auto
  show ?thesis
    using w'(1) quiet_projections [OF w'(2)] held_quiet [OF w'(2), of "[]"]
    by (cases "ret ?r = 0") (auto simp: read_running_def signal_handler_def sys docall_projections)
qed

text \<open>The environment delivers a signal at the latest when the flag has been read \<open>k\<close> times before.\<close>

definition signals_after :: "nat \<Rightarrow> os \<Rightarrow> bool" where
  "signals_after k os \<longleftrightarrow> (\<forall>h. k \<le> polls h \<longrightarrow> ret (os h EnvSignal) \<noteq> 0)"

lemma accept_loop_stops:
  assumes "table_inv cfg ctx" "signals_after k os" "k - polls (trace w) < n"
  shows "\<exists>ctx' w'. accept_loop os n (running, ctx, w) = Some (Inr (0, ctx', w')) \<and> table_inv cfg ctx'
    \<and> server_socket ctx' = server_socket ctx \<and> sends w' = sends w \<and> (held w = Some [] \<longrightarrow> held w' = Some [])"
  using assms(1,3)
proof (induction n arbitrary: running ctx w)
  case (Suc n)
  obtain w1 where rr: "read_running os running w = Some (if ret (os (trace w) EnvSignal) = 0 then running else 0, w1)"
    "polls (trace w1) = Suc (polls (trace w))" "sends w1 = sends w" "held w = Some [] \<longrightarrow> held w1 = Some []"
    using read_running_total by metis
  show ?case
  proof (cases "ret (os (trace w) EnvSignal) = 0 \<and> running \<noteq> 0")
    case False
    then show ?thesis using rr Suc.prems(1) by auto
  next
    case True
    then have "\<not> k \<le> polls (trace w)" using assms(2) by (auto simp: signals_after_def)
    moreover obtain ctx' w2 where t: "accept_turn os running ctx w1 = Some (ctx', w2)" "table_inv cfg ctx'"
      "polls (trace w2) = polls (trace w1)" "sends w2 = sends w1" "server_socket ctx' = server_socket ctx"
      "held w1 = Some [] \<longrightarrow> held w2 = Some []"
      using accept_turn_table [OF Suc.prems(1)] by blast
    ultimately have "k - polls (trace w2) < n" using rr(2) Suc.prems(2) by simp
    from Suc.IH [OF t(2) this, of running] show ?thesis
      using True rr t by auto
  qed
qed simp

section \<open>Reachable states\<close>

text \<open>The states of the context under any interleaving of the operations, each in any environment.\<close>

inductive server_reach :: "ServerConfig \<Rightarrow> ServerContext \<Rightarrow> bool" for cfg where
  init: "initialize_server_context os cfg w = Some (Some ctx, w') \<Longrightarrow> server_reach cfg ctx"
| listening: "server_reach cfg ctx \<Longrightarrow> setup_socket os ctx w = Some (sock, w') \<Longrightarrow>
    server_reach cfg (ctx\<lparr>server_socket := sock, server_state := SERVER_RUNNING\<rparr>)"
| accept: "server_reach cfg ctx \<Longrightarrow> accept_client os (Some ctx) w = Some (rc, Some ctx', w') \<Longrightarrow>
    server_reach cfg ctx'"
| message: "server_reach cfg ctx \<Longrightarrow> wf_Message msg \<Longrightarrow>
    handle_message os pow10 pad ctx s msg w = Some (rc, ctx', w') \<Longrightarrow> server_reach cfg ctx'"
| client: "server_reach cfg ctx \<Longrightarrow> wf_thread t \<Longrightarrow>
    handle_client_iter os pow10 pad t ctx w = Some (continue, t', ctx', w') \<Longrightarrow> server_reach cfg ctx'"
| leave: "server_reach cfg ctx \<Longrightarrow> disconnect_client os ctx i w = Some (ctx', w') \<Longrightarrow> server_reach cfg ctx'"
| stop: "server_reach cfg ctx \<Longrightarrow> stop_server os (Some ctx) w = Some (Some ctx', w') \<Longrightarrow> server_reach cfg ctx'"

inductive_cases server_reachE: "server_reach cfg ctx"

lemma stop_server_table:
  assumes "table_inv cfg ctx" "stop_server os (Some ctx) w = Some (Some ctx', w')"
  shows "table_inv cfg ctx'"
proof -
  have le: "client_count ctx \<le> int (length (clients ctx))" using assms(1) by (simp add: table_inv_def)
  have b: "list_all blank (clients ctx)" using assms(1) by (simp add: table_inv_def)
  obtain cs where "ctx' = ctx\<lparr>clients := cs, client_count := 0, server_state := SERVER_STOPPED,
      server_socket := (if server_socket ctx \<ge> 0 then -1 else server_socket ctx)\<rparr>"
    and cs: "length cs = length (clients ctx)"
    "\<forall>k < length cs. cs ! k = (if int k < client_count ctx then (clients ctx ! k)\<lparr>c_active := 0\<rparr> else clients ctx ! k)"
    using stop_server_spec [OF le, of os w] assms(2) by auto
  moreover have "list_all blank cs"
    using b cs by (auto simp: list_all_length blank_def)
  ultimately show ?thesis using assms(1) by (auto simp: table_inv_def)
qed

interpretation st: keeps_table
  "\<lambda>ctx (_ :: unit) w. case stop_server os (Some ctx) w of Some (Some ctx', w') \<Rightarrow> Some (0, ctx', w') | _ \<Rightarrow> None"
  "\<lambda>_. True" for os
  by unfold_locales (auto split: option.splits dest: stop_server_table)

lemma server_reach_table:
  assumes "server_reach cfg ctx" "int_config cfg"
  shows "table_inv cfg ctx"
  using assms(1)
proof induction
  case (init os w ctx w')
  then show ?case using initialize_table assms(2) by blast
next
  case (listening ctx os w sock w')
  then show ?case by (simp add: table_inv_def)
next
  case (accept ctx os w rc ctx' w')
  then show ?case using ac.keeps [of cfg ctx os w rc ctx' w'] by simp
next
  case (message ctx msg os pow10 pad s w rc ctx' w')
  then show ?case using hm.keeps by blast
next
  case (client ctx t os pow10 pad w continue t' ctx' w')
  then show ?case using it.keeps [of cfg ctx t os pow10 pad w 0 ctx' w'] by simp
next
  case (leave ctx os i w ctx' w')
  then show ?case using dc.keeps [of cfg ctx os i w 0 ctx' w'] by simp
next
  case (stop ctx os w ctx' w')
  then show ?case using st.keeps [of cfg ctx os w 0 ctx' w'] by simp
qed

lemma start_server_stops:
  assumes "table_inv cfg ctx" "signals_after k os" "k < n"
  shows "\<exists>rc running ctx' w'. start_server os n server_running (Some ctx) w = Some (Inr (rc, running, Some ctx', w'))
    \<and> (rc = code_of SUCCESS \<and> running = 0 \<and> server_state ctx' = SERVER_STOPPED \<and> client_count ctx' = 0
         \<and> server_socket ctx' = -1
       \<or> rc \<in> {code_of ERROR_SOCKET_CREATE, code_of ERROR_SOCKET_BIND, code_of ERROR_SOCKET_LISTEN}
         \<and> running = server_running \<and> server_socket ctx' = rc)
    \<and> (held w = Some [] \<longrightarrow> held w' = Some []) \<and> table_inv cfg ctx'
    \<and> (client_count ctx = 0 \<longrightarrow> client_count ctx' = 0)"
proof -
  obtain w1 where w1: "log_message os LOG_INFO ''Starting server on port %d'' [LInt (port (config ctx))] w = Some w1"
    "quiet w w1"
    using log_message_quiet_total [of "[LInt (port (config ctx))]" LOG_INFO os _ w] by auto
  define w2 where "w2 = docall os (SysSigaction SIGTERM) (docall os (SysSigaction SIGINT) w1)"
  have h2: "held w = Some [] \<Longrightarrow> held w2 = Some []"
    using held_quiet [OF w1(2), of "[]"] by (simp add: w2_def)
  obtain sock w3 where w3: "setup_socket os ctx w2 = Some (sock, w3)" "held w2 = Some [] \<longrightarrow> held w3 = Some []"
    "0 \<le> sock \<or> sock \<in> {code_of ERROR_SOCKET_CREATE, code_of ERROR_SOCKET_BIND, code_of ERROR_SOCKET_LISTEN}"
    using setup_socket_cases [of os ctx w2] by (auto split: if_splits)
  show ?thesis
  proof (cases "sock < 0")
    case True
    obtain w4 where "log_message os LOG_ERROR ''Failed to set up server socket'' [] w3 = Some w4" "quiet w3 w4"
      using log_message_quiet_total [of "[]" LOG_ERROR os _ w3] by auto
    then show ?thesis
      using True w1(1) w3 h2 held_quiet [of w3 w4 "[]"] assms(1)
      by (auto simp: start_server_def w2_def [symmetric] table_inv_def)
  next
    case False
    define w4 where "w4 = docall os (SysFcntl sock) (docall os (SysFcntl sock) w3)"
    define ctx2 where "ctx2 = ctx\<lparr>server_socket := sock, server_state := SERVER_RUNNING\<rparr>"
    obtain w5 where w5: "log_message os LOG_INFO ''Server started successfully'' [] w4 = Some w5" "quiet w4 w5"
      using log_message_quiet_total [of "[]" LOG_INFO os _ w4] by auto
    have h5: "held w = Some [] \<Longrightarrow> held w5 = Some []"
      using held_quiet [OF w5(2), of "[]"] h2 w3(2) by (simp add: w4_def)
    have inv2: "table_inv cfg ctx2" using assms(1) by (simp add: table_inv_def ctx2_def)
    obtain ctx3 w6 where l: "accept_loop os n (server_running, ctx2, w5) = Some (Inr (0, ctx3, w6))"
      "table_inv cfg ctx3" "server_socket ctx3 = sock" "held w5 = Some [] \<longrightarrow> held w6 = Some []"
      using accept_loop_stops [OF inv2 assms(2) le_less_trans [OF diff_le_self assms(3)], of server_running w5]
      by (auto simp: ctx2_def)
    have "client_count ctx3 \<le> int (length (clients ctx3))" using l(2) by (simp add: table_inv_def)
    then obtain ctx4 w7 where st: "stop_server os (Some ctx3) w6 = Some (Some ctx4, w7)"
      "server_state ctx4 = SERVER_STOPPED" "client_count ctx4 = 0" "server_socket ctx4 = -1"
      "held w6 = Some [] \<longrightarrow> held w7 = Some []"
      using stop_server_spec [of ctx3 os w6] l(3) False by auto
    then show ?thesis
      using False w1(1) w3(1) w5(1) l(1,4) h5 stop_server_table [OF l(2) st(1)]
      by (simp add: start_server_def w2_def [symmetric] w4_def [symmetric] ctx2_def)
  qed
qed

section \<open>Properties\<close>

lemma blank_streq: "blank c \<Longrightarrow> terminated cid \<Longrightarrow> c_str cid \<noteq> [] \<Longrightarrow> c_streq (c_id c) cid = Some False"
proof -
  assume b: "blank c" and t: "terminated cid" and n: "c_str cid \<noteq> []"
  have "c_str (c_id c) = []" using b by (simp add: blank_def c_str_def size_constants)
  then show ?thesis using c_streq_terminated [OF blank_terminated [OF b] t] n by simp
qed

lemma find_client_loop_short:
  "length cs < n \<Longrightarrow> list_all blank cs \<Longrightarrow> terminated cid \<Longrightarrow> c_str cid \<noteq> [] \<Longrightarrow> find_client_loop n cs cid = None"
  by (induction n cs cid rule: find_client_loop.induct) (simp_all add: blank_streq)

lemma blank_not_serves: "blank c \<Longrightarrow> c_str cid \<noteq> [] \<Longrightarrow> \<not> serves cid c"
  by (simp add: serves_def blank_def c_str_def size_constants)

lemma socket_of_blank: "list_all blank cs \<Longrightarrow> c_str cid \<noteq> [] \<Longrightarrow> socket_of cs cid = -1"
proof -
  assume "list_all blank cs" "c_str cid \<noteq> []"
  then have "find (serves cid) cs = None" by (auto simp: find_None_iff list_all_iff blank_not_serves)
  then show ?thesis by (simp add: socket_of_def)
qed

text \<open>C6. In every reachable state of a server, under any interleaving of accepting, dispatching,
  client threads, disconnecting and stopping, the client count stays between 0 and the configured
  maximum, which is exactly the number of allocated slots; no slot ever gets an id or becomes active,
  and the statistics keep their initial zeros.\<close>

theorem server_table_invariant:
  assumes "server_reach cfg ctx" "int_config cfg"
  shows "config ctx = cfg \<and> 0 \<le> client_count ctx \<and> client_count ctx \<le> max_clients cfg
    \<and> int (length (clients ctx)) = max_clients cfg
    \<and> (\<forall>i < length (clients ctx). c_id (clients ctx ! i) = replicate 32 0 \<and> c_active (clients ctx ! i) = 0)
    \<and> server_stats ctx = zero_ServerStats"
  using server_reach_table [OF assms] by (simp add: table_inv_def list_all_length blank_def size_constants)

definition two_slot_context :: ServerContext where
  "two_slot_context = fresh_context (sample_config 2) 2"

text \<open>An allocator that succeeds and locks that initialise.\<close>

definition good_os :: os where
  "good_os h c = \<lparr>ret = (case c of SysAlloc n \<Rightarrow> 1 | _ \<Rightarrow> 0), err = 0, rbytes = []\<rparr>"

lemma init_locks_good: "fst (init_locks good_os ls w)"
  by (induction ls arbitrary: w) (simp_all add: Let_def case_prod_unfold good_os_def)

lemma c_calloc_good: "0 \<le> n \<Longrightarrow> n < 2 ^ 31 \<Longrightarrow> sz < 2 ^ 32 \<Longrightarrow> fst (c_calloc good_os n sz w) = Some (nat n)"
proof -
  assume n: "0 \<le> n" "n < 2 ^ 31" and sz: "sz < 2 ^ 32"
  have u: "unat (word_of_int n :: 64 word) = nat n"
    using n by (simp add: unat_eq_nat_uint uint_word_of_int)
  have "nat n * sz \<le> 2 ^ 31 * 2 ^ 32" using n sz by (intro mult_le_mono) auto
  then have "\<not> 2 ^ 64 \<le> nat n * sz" by simp
  then show ?thesis by (simp add: c_calloc_def Let_def case_prod_unfold u good_os_def)
qed

lemma initialize_good:
  assumes "0 \<le> n" "n < 2 ^ 31"
  shows "\<exists>w'. initialize_server_context good_os (sample_config n) w =
    Some (Some (fresh_context (sample_config n) (nat n)), w')"
  using assms
  by (auto simp: initialize_server_context_def Let_def case_prod_unfold c_calloc_good init_locks_good
      sizeof_ServerContext_def sizeof_ClientConnection_def sample_config_def simp del: init_locks.simps)

lemma reach_fresh:
  assumes "0 \<le> n" "n < 2 ^ 31"
  shows "server_reach (sample_config n) (fresh_context (sample_config n) (nat n))"
  using initialize_good [OF assms] by (auto intro: server_reach.init)

lemma int_config_sample: "- (2 ^ 31) \<le> n \<Longrightarrow> n < 2 ^ 31 \<Longrightarrow> int_config (sample_config n)"
  by (simp add: int_config_def sample_config_def)

theorem server_table_invariant_witness:
  "server_reach (sample_config 2) two_slot_context \<and> client_count two_slot_context \<le> 2"
proof -
  have r: "server_reach (sample_config 2) two_slot_context"
    using reach_fresh [of 2] by (simp add: two_slot_context_def)
  have "client_count two_slot_context \<le> max_clients (sample_config 2)"
    using server_table_invariant [OF r int_config_sample] by simp
  then show ?thesis using r by (simp add: sample_config_def)
qed

text \<open>C31. A server configured for fewer than \<open>MAX_CLIENTS\<close> clients (any validated maximum below 100) has
  undefined behaviour, in every reachable state, when it broadcasts market data or when it processes
  a trade whose buyer has an id: the loops run to \<open>MAX_CLIENTS\<close>, past the end of the table.\<close>

theorem small_table_undefined:
  assumes "server_reach cfg ctx" "int_config cfg" "max_clients cfg < int MAX_CLIENTS"
    and "wf_MarketData md" "terminated (buyer_id tr)" "c_str (buyer_id tr) \<noteq> []"
  shows "broadcast_market_data os ctx md w = None \<and> process_trade_execution os ctx tr w = None"
proof -
  have inv: "table_inv cfg ctx" using server_reach_table assms by blast
  then have len: "length (clients ctx) < MAX_CLIENTS" using assms(3) by (simp add: table_inv_def)
  have "find_client_socket (snd (next_sequence_num ctx)) (buyer_id tr) = None"
    using find_client_loop_short [OF len, of "buyer_id tr"] inv assms(5,6)
    by (simp add: find_client_socket_def next_sequence_num_def table_inv_def)
  then show ?thesis
    using process_trade_execution_None broadcast_market_data_cases [OF assms(4), of ctx os w] len by simp
qed

theorem small_table_undefined_witness:
  "broadcast_market_data (const_os 0) two_slot_context zero_MarketData fresh_world = None
   \<and> process_trade_execution (const_os 0) two_slot_context
       (zero_TradeExecution\<lparr>buyer_id := map of_char ''bob'' @ replicate 29 0\<rparr>) fresh_world = None"
  using small_table_undefined [OF _ int_config_sample, of 2 two_slot_context zero_MarketData
      "zero_TradeExecution\<lparr>buyer_id := map of_char ''bob'' @ replicate 29 0\<rparr>"] reach_fresh [of 2]
    wf_zero_structs(2)
  by (simp add: two_slot_context_def sample_config_def size_constants terminated_def c_str_def)



text \<open>C20. \<open>stop_server\<close> closes the listening socket and then the socket of every connected client, once
  each and in slot order, empties the table and ends in \<open>SERVER_STOPPED\<close> with its lock released.
  Stopping again (as \<open>cleanup_server\<close> does after \<open>start_server\<close>) closes nothing more.\<close>

theorem stop_server_closes_all:
  assumes "client_count ctx \<le> int (length (clients ctx))"
  shows "\<exists>ctx' w'. stop_server os (Some ctx) w = Some (Some ctx', w')
    \<and> server_state ctx' = SERVER_STOPPED \<and> client_count ctx' = 0 \<and> server_socket ctx' < 0
    \<and> closes w' = closes w @ filter (\<lambda>s. 0 \<le> s) [server_socket ctx]
        @ map c_socket (take (nat (client_count ctx)) (clients ctx))
    \<and> (held w = Some [] \<longrightarrow> held w' = Some [])
    \<and> (\<exists>ctx'' w''. stop_server os (Some ctx') w' = Some (Some ctx'', w'') \<and> closes w'' = closes w')"
proof -
  obtain ctx' w' where s: "stop_server os (Some ctx) w = Some (Some ctx', w')"
    "server_state ctx' = SERVER_STOPPED" "client_count ctx' = 0" "server_socket ctx' < 0"
    "closes w' = closes w @ filter (\<lambda>s. 0 \<le> s) [server_socket ctx]
        @ map c_socket (take (nat (client_count ctx)) (clients ctx))"
    "held w = Some [] \<longrightarrow> held w' = Some []"
    using stop_server_spec [OF assms, of os w] by (auto split: if_splits)
  moreover have "\<exists>ctx'' w''. stop_server os (Some ctx') w' = Some (Some ctx'', w'') \<and> closes w'' = closes w'"
    using stop_server_spec [of ctx' os w'] s(3,4) by auto
  ultimately show ?thesis by blast
qed

theorem stop_server_closes_all_witness:
  "\<exists>ctx' w'. stop_server (const_os 0) (Some (sample_context two_clients)) fresh_world = Some (Some ctx', w')
    \<and> closes w' = [3, 5, 6]"
proof -
  have "take 2 two_clients = [sample_slot 5 ''alice'', sample_slot 6 ''bob'']" by (simp add: two_clients_def)
  then show ?thesis
    using stop_server_closes_all [of "sample_context two_clients" "const_os 0" fresh_world] two_clients_facts
    by (auto simp: sample_context_def fresh_context_def fresh_world_def closes_def sample_slot_def)
qed





end
