(* ===== verification/Server_Queue.thy ===== *)
theory Server_Queue
  imports Server_Core
begin

text \<open>
  The client table of the server as an abstract data type. What a client of the table sees is the
  list of connected sockets in the order of the slots. The operations of the server that touch the
  table refine a first-in first-out queue: this is what the code does to its table, not what it is
  meant to do, since \<open>disconnect_client\<close> compares ids that are never assigned.
\<close>

section \<open>Refinement of labelled steps\<close>

text \<open>Sequences of labelled steps.\<close>

inductive steps :: "('c \<Rightarrow> 'e \<Rightarrow> 'c \<Rightarrow> bool) \<Rightarrow> 'c \<Rightarrow> 'e list \<Rightarrow> 'c \<Rightarrow> bool" for step where
  none: "steps step c [] c"
| more: "step c e c' \<Longrightarrow> steps step c' es c'' \<Longrightarrow> steps step c (e # es) c''"

inductive_simps steps_Nil: "steps step c [] c'"
inductive_simps steps_Cons: "steps step c (e # es) c'"

text \<open>A concrete system whose every step keeps its invariant and acts on the abstract state like the
  label's function.\<close>

locale refines =
  fixes inv :: "'c \<Rightarrow> bool"
    and abs_state :: "'c \<Rightarrow> 'a"
    and step :: "'c \<Rightarrow> 'e \<Rightarrow> 'c \<Rightarrow> bool"
    and spec :: "'e \<Rightarrow> 'a \<Rightarrow> 'a"
  assumes step_inv: "inv c \<Longrightarrow> step c e c' \<Longrightarrow> inv c'"
    and step_refines: "inv c \<Longrightarrow> step c e c' \<Longrightarrow> abs_state c' = spec e (abs_state c)"
begin

lemma steps_refine: "steps step c es c' \<Longrightarrow> inv c \<Longrightarrow> inv c' \<and> abs_state c' = fold spec es (abs_state c)"
  by (induction rule: steps.induct) (auto simp: step_inv step_refines)

end

section \<open>The table and its events\<close>

datatype table_event = Joined int | Departed | Unchanged | Cleared

definition connections :: "ServerContext \<Rightarrow> int list" where
  "connections ctx = map c_socket (take (nat (client_count ctx)) (clients ctx))"

lemma connections_length: "table_inv cfg ctx \<Longrightarrow> int (length (connections ctx)) = client_count ctx"
  by (auto simp: connections_def table_inv_def)

primrec queue_spec :: "table_event \<Rightarrow> int list \<Rightarrow> int list" where
  "queue_spec (Joined s) q = q @ [s]"
| "queue_spec Departed q = tl q"
| "queue_spec Unchanged q = q"
| "queue_spec Cleared q = []"

text \<open>The calls of the server that reach the table.\<close>

inductive table_step :: "ServerContext \<Rightarrow> table_event \<Rightarrow> ServerContext \<Rightarrow> bool" where
  accepted: "accept_client os (Some ctx) w = Some (code_of SUCCESS, Some ctx', w') \<Longrightarrow>
    table_step ctx (Joined (ret (os (trace w) (SysAccept (server_socket ctx))))) ctx'"
| refused: "accept_client os (Some ctx) w = Some (rc, Some ctx', w') \<Longrightarrow> rc \<noteq> code_of SUCCESS \<Longrightarrow>
    table_step ctx Unchanged ctx'"
| served: "handle_client_iter os pow10 pad t ctx w = Some (continue, t', ctx', w') \<Longrightarrow> wf_thread t \<Longrightarrow>
    table_step ctx Unchanged ctx'"
| departed: "disconnect_client os ctx i w = Some (ctx', w') \<Longrightarrow> table_step ctx Departed ctx'"
| stopped: "stop_server os (Some ctx) w = Some (Some ctx', w') \<Longrightarrow> table_step ctx Cleared ctx'"

inductive_cases table_stepE: "table_step ctx e ctx'"

section \<open>The operations on the queue\<close>

lemma accept_connected:
  assumes "table_inv cfg ctx" "accept_client os (Some ctx) w = Some (rc, Some ctx', w')"
  shows "connections ctx' = (if rc = code_of SUCCESS
    then connections ctx @ [ret (os (trace w) (SysAccept (server_socket ctx)))] else connections ctx)"
  using assms(1)
proof (cases rule: accept_client_cases [of cfg ctx os w])
  case (added ctx1 w1)
  let ?n = "nat (client_count ctx)"
  have n: "nat (client_count ctx') = Suc ?n" "?n < length (clients ctx)" "length (clients ctx') = length (clients ctx)"
    using added assms by (auto simp: table_inv_def)
  have "take ?n (clients ctx') = take ?n (clients ctx)"
    using added assms(2) n by (intro nth_equalityI) auto
  then show ?thesis
    using added assms(2) n by (simp add: connections_def take_Suc_conv_app_nth)
qed (use assms in \<open>auto split: if_splits\<close>)

lemma served_connected:
  assumes "handle_client_iter os pow10 pad t ctx w = Some (continue, t', ctx', w')" "wf_thread t"
  shows "connections ctx' = connections ctx"
  using assms
proof (cases rule: handle_client_iter_cases)
  case (message now w2 ctx1)
  have "wf_Message (t_msg t')" using message(2) by (simp add: wf_thread_def)
  from ds.op_frame [OF this, of os pow10 pad "c_id (clients ctx ! t_slot t)" ctx1 w2 0 ctx' w'] message(6)
  have "connections ctx' = connections ctx1" by (simp add: connections_def)
  also have "map c_socket (clients ctx1) = map c_socket (clients ctx)"
    using message(4) by (intro nth_equalityI) (auto simp: message(5) nth_list_update)
  then have "connections ctx1 = connections ctx" by (simp add: connections_def message(5) take_map [symmetric])
  finally show ?thesis .
qed simp_all

lemma remove_client_blank:
  assumes "table_inv cfg ctx" "i < length (clients ctx)" "0 < client_count ctx"
  shows "\<exists>cs. remove_client i ctx = Some (ctx\<lparr>clients := cs, client_count := client_count ctx - 1\<rparr>)
    \<and> length cs = length (clients ctx)
    \<and> take (nat (client_count ctx) - 1) cs = tl (take (nat (client_count ctx)) (clients ctx))"
proof -
  let ?n = "nat (client_count ctx)"
  have n: "0 < ?n" "?n \<le> length (clients ctx)" using assms by (auto simp: table_inv_def)
  then have len0: "0 < length (clients ctx)" by linarith
  have "same_id_loop (clients ctx) (c_id (clients ctx ! i)) 0 ?n = Some (Some (0 + 0))"
    using table_inv_ids [OF assms(1)] table_id [OF assms(1) len0] table_id [OF assms(1,2)] n
    by (intro same_id_loop_finds) (auto simp: terminated_def size_constants)
  moreover obtain cs where cs: "move_down 0 ?n (clients ctx) = Some cs" "length cs = length (clients ctx)"
    "\<forall>k < length (clients ctx). cs ! k = (if 0 \<le> k \<and> k < ?n - 1 then clients ctx ! Suc k else clients ctx ! k)"
    using move_down_spec [OF n] by blast
  moreover have "take (?n - 1) cs = tl (take ?n (clients ctx))"
    using removal_take [of cs "clients ctx" 0 ?n] cs(2,3) n by (simp add: drop_Suc)
  moreover have "take (?n - 1) (clients ctx) = tl (take ?n (clients ctx))" if "\<not> 0 < client_count ctx - 1"
  proof -
    from that assms(3) have "?n = 1" by linarith
    then show ?thesis by (cases "clients ctx") simp_all
  qed
  moreover have "ctx\<lparr>client_count := k\<rparr> = ctx\<lparr>clients := clients ctx, client_count := k\<rparr>" for k
    by (cases ctx) simp
  ultimately show ?thesis
    by (cases "0 < client_count ctx - 1")
      (simp_all add: remove_client_def exI [of _ cs] exI [of _ "clients ctx"])
qed

lemma disconnect_connected:
  assumes "table_inv cfg ctx" "disconnect_client os ctx i w = Some (ctx', w')"
  shows "connections ctx' = tl (connections ctx)"
proof -
  have i: "i < length (clients ctx)" and r: "remove_client i ctx = Some ctx'"
    using assms(2) by (auto simp: disconnect_client_def Let_def bind_eq_Some_conv split: if_splits)
  show ?thesis
  proof (cases "client_count ctx = 0")
    case True
    then have "remove_client i ctx = Some ctx" by (simp add: remove_client_def)
    with r True show ?thesis by (simp add: connections_def)
  next
    case False
    then have pos: "0 < client_count ctx" using assms(1) by (simp add: table_inv_def)
    have "nat (client_count ctx - 1) = nat (client_count ctx) - 1" using pos by linarith
    with remove_client_blank [OF assms(1) i pos] r show ?thesis by (auto simp: connections_def map_tl)
  qed
qed

interpretation tq: refines "table_inv cfg" connections table_step queue_spec for cfg
proof
  fix c e c'
  assume inv: "table_inv cfg c" and step: "table_step c e c'"
  from step show "table_inv cfg c'"
  proof cases
    case (accepted os w w')
    then show ?thesis using ac.keeps [OF inv, of os w "code_of SUCCESS" c' w'] by simp
  next
    case (refused os w rc w')
    then show ?thesis using ac.keeps [OF inv, of os w rc c' w'] by simp
  next
    case (served os pow10 pad t w continue t' w')
    then show ?thesis using handle_client_iter_table [OF inv] by blast
  next
    case (departed os i w w')
    then show ?thesis using disconnect_client_table [OF inv] by blast
  next
    case (stopped os w w')
    then show ?thesis using stop_server_table [OF inv] by blast
  qed
  from step show "connections c' = queue_spec e (connections c)"
  proof cases
    case (stopped os w w')
    have "client_count c' = 0"
      using stop_server_spec [of c os w] stopped inv by (auto simp: table_inv_def)
    then show ?thesis using stopped by (simp add: connections_def)
  next
    case (accepted os w w')
    then show ?thesis using accept_connected [OF inv, of os w] by simp
  next
    case (refused os w rc w')
    then show ?thesis using accept_connected [OF inv, of os w] by simp
  next
    case (served os pow10 pad t w continue t' w')
    then show ?thesis using served_connected [of os pow10 pad t c w] by simp
  next
    case (departed os i w w')
    then show ?thesis using disconnect_connected [OF inv, of os i w] by simp
  qed
qed

section \<open>Properties\<close>

text \<open>C5. Whatever calls of \<open>accept_client\<close>, \<open>handle_client\<close>, \<open>disconnect_client\<close> and \<open>stop_server\<close> a
  server makes, in whatever order and for whatever clients, its table behaves as a first-in
  first-out queue of sockets: an accepted socket enters at the end, every disconnect (of any client)
  removes the oldest one, serving changes nothing and stopping empties it; the queue is never longer
  than \<open>max_clients\<close>.\<close>

theorem table_refines_queue:
  assumes "table_inv cfg ctx" "steps table_step ctx es ctx'"
  shows "connections ctx' = fold queue_spec es (connections ctx)
    \<and> int (length (connections ctx')) = client_count ctx' \<and> client_count ctx' \<le> max_clients cfg"
  using tq.steps_refine [OF assms(2,1)] connections_length [of cfg ctx'] by (simp add: table_inv_def)

theorem table_refines_queue_witness:
  "\<exists>ctx'. steps table_step (sample_context [sample_slot 5 [], sample_slot 6 []]) [Departed] ctx'
     \<and> connections ctx' = [6] \<and> client_count ctx' = 1"
proof -
  let ?ctx = "sample_context [sample_slot 5 [], sample_slot 6 []]"
  have inv: "table_inv (sample_config 2) ?ctx"
    by (simp add: table_inv_def sample_context_def fresh_context_def sample_config_def blank_def sample_slot_def
        zero_ClientConnection_def size_constants)
  have "client_count ?ctx = 2" "length (clients ?ctx) = 2"
    by (simp_all add: sample_context_def fresh_context_def sample_slot_def)
  then obtain ctx' w' where "disconnect_client (const_os 0) ?ctx 1 fresh_world = Some (ctx', w')"
    using disconnect_client_spec [OF table_inv_ids [OF inv] _ _ table_first_same [OF inv], of 1 "const_os 0" fresh_world]
    by auto
  then have s: "steps table_step ?ctx [Departed] ctx'"
    by (auto intro: steps.intros table_step.departed)
  have "connections ?ctx = [5, 6]"
    by (simp add: connections_def sample_context_def fresh_context_def sample_slot_def)
  then show ?thesis using table_refines_queue [OF inv s] s by auto
qed

end
