(* ===== verification/Utils.thy ===== *)
theory Utils
  imports Price Logger
begin

text \<open>
  The helpers of \<open>src/common/utils.c\<close> other than the price routines: time, strings, numbers, memory,
  validation, names, random numbers and hashes. Character arrays are byte lists; \<^term>\<open>None\<close> is an
  access outside of them. The C library functions on characters are those of the C locale; \<open>strtod\<close>
  is a parameter.
\<close>

section \<open>Definitions\<close>

subsection \<open>Time\<close>

definition get_current_timestamp :: "os \<Rightarrow> world \<Rightarrow> 64 word \<times> world" where
  "get_current_timestamp os w = get_time os w"

text \<open>The text \<open>strftime\<close> produces is the reply; when it does not fit, the bytes \<open>junk\<close> are what the buffer
  holds afterwards. The result of \<open>localtime\<close> is not checked: a time it cannot represent (reply 0) is
  undefined behaviour.\<close>

definition format_timestamp ::
  "os \<Rightarrow> 64 word \<Rightarrow> byte list \<Rightarrow> nat \<Rightarrow> byte list \<Rightarrow> world \<Rightarrow> (byte list \<times> world) option" where
  "format_timestamp os timestamp buffer buffer_size junk w =
     (let (r, w1) = syscall os (SysStrftime timestamp) w
      in if ret r = 0 then None
         else do {
           buf \<leftarrow> store_at 0 (if length (rbytes r) < buffer_size then rbytes r @ [0] else take buffer_size junk) buffer;
           Some (buf, w1) })"

record timespec =
  tv_sec :: int
  tv_nsec :: int

text \<open>A signed 64-bit result; overflow is undefined.\<close>

definition int64 :: "int \<Rightarrow> int option" where
  "int64 i = (if - (2 ^ 63) \<le> i \<and> i < 2 ^ 63 then Some i else None)"

definition get_time_diff_ms :: "timespec \<Rightarrow> timespec \<Rightarrow> int option" where
  "get_time_diff_ms start fin =
     do {
       secs \<leftarrow> int64 (tv_sec fin - tv_sec start);
       millis \<leftarrow> int64 (secs * 1000);
       nanos \<leftarrow> int64 (tv_nsec fin - tv_nsec start);
       int64 (millis + nanos sdiv 1000000) }"

subsection \<open>Strings\<close>

definition isspace :: "byte \<Rightarrow> bool" where
  "isspace b \<longleftrightarrow> b = 32 \<or> 9 \<le> b \<and> b \<le> 13"

definition toupper :: "byte \<Rightarrow> byte" where
  "toupper b = (if 97 \<le> b \<and> b \<le> 122 then b - 32 else b)"

definition tolower :: "byte \<Rightarrow> byte" where
  "tolower b = (if 65 \<le> b \<and> b \<le> 90 then b + 32 else b)"

text \<open>\<open>while (isspace(*str)) str++\<close>: how far the pointer moves.\<close>

fun skip_space :: "byte list \<Rightarrow> nat option" where
  "skip_space [] = None"
| "skip_space (b # bs) = (if isspace b then map_option Suc (skip_space bs) else Some 0)"

text \<open>\<open>while (end > str && isspace(*end)) end--\<close>, on positions.\<close>

fun back_space :: "byte list \<Rightarrow> nat \<Rightarrow> nat \<Rightarrow> nat" where
  "back_space buf str 0 = 0"
| "back_space buf str (Suc e) =
     (if str < Suc e \<and> isspace (buf ! Suc e) then back_space buf str e else Suc e)"

text \<open>The result is the returned pointer as a position of the array, with the changed array.\<close>

definition trim_whitespace :: "byte list option \<Rightarrow> ((nat \<times> byte list) option) option" where
  "trim_whitespace str =
     (case str of
        None \<Rightarrow> Some None
      | Some buf \<Rightarrow> do {
          start \<leftarrow> skip_space buf;
          if buf ! start = 0 then Some (Some (start, buf))
          else do {
            len \<leftarrow> c_strlen (drop start buf);
            let fin = back_space buf start (start + len - 1);
            buf' \<leftarrow> store_at (fin + 1) [0] buf;
            Some (Some (start, buf')) } })"

fun case_loop :: "(byte \<Rightarrow> byte) \<Rightarrow> byte list \<Rightarrow> byte list option" where
  "case_loop f [] = None"
| "case_loop f (b # bs) = (if b = 0 then Some (b # bs) else map_option (Cons (f b)) (case_loop f bs))"

definition string_to_upper :: "byte list option \<Rightarrow> (int \<times> byte list option) option" where
  "string_to_upper str =
     (case str of
        None \<Rightarrow> Some (ERROR_INVALID_PARAM_macro, None)
      | Some buf \<Rightarrow> map_option (\<lambda>b. (code_of SUCCESS, Some b)) (case_loop toupper buf))"

definition string_to_lower :: "byte list option \<Rightarrow> (int \<times> byte list option) option" where
  "string_to_lower str =
     (case str of
        None \<Rightarrow> Some (ERROR_INVALID_PARAM_macro, None)
      | Some buf \<Rightarrow> map_option (\<lambda>b. (code_of SUCCESS, Some b)) (case_loop tolower buf))"

definition safe_strncpy :: "byte list option \<Rightarrow> byte list option \<Rightarrow> nat \<Rightarrow> (byte list option) option" where
  "safe_strncpy dest src n =
     (case (dest, src) of
        (Some d, Some s) \<Rightarrow>
          if n = 0 then Some None
          else do {
            d1 \<leftarrow> c_strncpy d s (n - 1);
            d2 \<leftarrow> store_at (n - 1) [0] d1;
            Some (Some d2) }
      | _ \<Rightarrow> Some None)"

subsection \<open>Numbers\<close>

definition isdigit :: "byte \<Rightarrow> bool" where
  "isdigit b \<longleftrightarrow> 48 \<le> b \<and> b \<le> 57"

text \<open>The digits at the front of a string: their value and the rest; the flag tells whether there was one.\<close>

fun digit_loop :: "byte list \<Rightarrow> int \<Rightarrow> bool \<Rightarrow> (int \<times> bool \<times> byte list) option" where
  "digit_loop [] acc seen = None"
| "digit_loop (b # bs) acc seen =
     (if isdigit b then digit_loop bs (acc * 10 + (uint b - 48)) True else Some (acc, seen, b # bs))"

text \<open>\<open>strtoll(str, &endptr, 10)\<close>: the value, whether \<open>errno\<close> was set, and the string at \<open>endptr\<close>. With no
  digits \<open>endptr\<close> is \<open>str\<close>; out of range the value is clamped and \<open>errno\<close> is \<open>ERANGE\<close>.\<close>

definition c_strtoll :: "byte list \<Rightarrow> (int \<times> bool \<times> byte list) option" where
  "c_strtoll str =
     do {
       n \<leftarrow> skip_space str;
       let s = drop n str;
       let neg = (hd s = 45);
       let s1 = (if hd s = 45 \<or> hd s = 43 then tl s else s);
       (mag, seen, rest) \<leftarrow> digit_loop s1 0 False;
       let v = (if neg then - mag else mag);
       Some (if \<not> seen then (0, False, str)
             else if v < - (2 ^ 63) then (- (2 ^ 63), True, rest)
             else if v > 2 ^ 63 - 1 then (2 ^ 63 - 1, True, rest)
             else (v, False, rest)) }"

definition safe_atoi64 :: "byte list option \<Rightarrow> int option" where
  "safe_atoi64 str =
     (case str of
        None \<Rightarrow> Some 0
      | Some s \<Rightarrow> do {
          (val, range_error, endptr) \<leftarrow> c_strtoll s;
          Some (if \<not> range_error \<and> hd endptr = 0 then val else 0) })"

definition safe_atod :: "(byte list \<Rightarrow> (double \<times> bool \<times> byte list) option) \<Rightarrow> byte list option \<Rightarrow> double option" where
  "safe_atod strtod str =
     (case str of
        None \<Rightarrow> Some d_zero
      | Some s \<Rightarrow> do {
          (val, range_error, endptr) \<leftarrow> strtod s;
          Some (if \<not> range_error \<and> hd endptr = 0 then val else d_zero) })"

definition is_valid_price :: "double \<Rightarrow> bool" where
  "is_valid_price price \<longleftrightarrow> d_less d_zero price \<and> d_less price d_million
     \<and> price \<noteq> DNaN \<and> (\<forall>s \<in> {True, False}. price \<noteq> DInf s)"

definition is_valid_quantity :: "int \<Rightarrow> bool" where
  "is_valid_quantity n \<longleftrightarrow> n > 0 \<and> n \<le> 1000000"

subsection \<open>Memory\<close>

definition safe_malloc :: "os \<Rightarrow> nat \<Rightarrow> world \<Rightarrow> (int \<times> world) option" where
  "safe_malloc os n w =
     (let (r, w1) = syscall os (SysAlloc (int n)) w
      in if ret r = 0
         then do {
           w2 \<leftarrow> log_message os LOG_ERROR ''Memory allocation failed for size %zu'' [LInt (int n)] w1;
           Some (0, w2) }
         else Some (ret r, w1))"

definition safe_calloc :: "os \<Rightarrow> nat \<Rightarrow> nat \<Rightarrow> world \<Rightarrow> (int \<times> world) option" where
  "safe_calloc os nmemb n w =
     (let (r, w1) = syscall os (SysAlloc (int nmemb * int n)) w
      in if 2 ^ 64 \<le> nmemb * n \<or> ret r = 0
         then do {
           w2 \<leftarrow> log_message os LOG_ERROR ''Memory allocation failed for %zu elements of size %zu''
             [LInt (int nmemb), LInt (int n)] w1;
           Some (0, w2) }
         else Some (ret r, w1))"

text \<open>The argument is the pointer \<open>*ptr\<close> (0 for NULL), or nothing when \<open>ptr\<close> itself is NULL.\<close>

definition safe_free :: "os \<Rightarrow> int option \<Rightarrow> world \<Rightarrow> int option \<times> world" where
  "safe_free os ptr w =
     (case ptr of
        Some p \<Rightarrow> if p \<noteq> 0 then (Some 0, docall os (SysFree ''ptr'') w) else (ptr, w)
      | None \<Rightarrow> (ptr, w))"

subsection \<open>Validation\<close>

definition is_valid_order_type :: "32 word \<Rightarrow> bool" where
  "is_valid_order_type t \<longleftrightarrow>
     t \<ge> OrderType_val ORDER_TYPE_MARKET \<and> t \<le> OrderType_val ORDER_TYPE_STOP_LIMIT"

definition is_valid_order_side :: "32 word \<Rightarrow> bool" where
  "is_valid_order_side s \<longleftrightarrow> s = OrderSide_val ORDER_SIDE_BUY \<or> s = OrderSide_val ORDER_SIDE_SELL"

definition is_valid_time_in_force :: "32 word \<Rightarrow> bool" where
  "is_valid_time_in_force t \<longleftrightarrow> t \<ge> TimeInForce_val TIF_DAY \<and> t \<le> TimeInForce_val TIF_GTC"

definition validate_order_fields :: "os \<Rightarrow> Order option \<Rightarrow> world \<Rightarrow> (int \<times> world) option" where
  "validate_order_fields os order w =
     (case order of
        None \<Rightarrow> Some (ERROR_INVALID_PARAM_macro, w)
      | Some ord \<Rightarrow> do {
          len \<leftarrow> c_strlen (order_symbol ord);
          if len = 0 \<or> len \<ge> MAX_SYMBOL_LENGTH
          then do {
            w1 \<leftarrow> log_message os LOG_ERROR ''Invalid symbol length for order ID=%lu'' [LInt (uint (order_id ord))] w;
            Some (code_of ERROR_INVALID_ORDER, w1) }
          else if quantity ord \<le> 0
          then do {
            w1 \<leftarrow> log_message os LOG_ERROR ''Invalid quantity %u for order ID=%lu''
              [LInt (uint (quantity ord)), LInt (uint (order_id ord))] w;
            Some (code_of ERROR_INVALID_ORDER, w1) }
          else if \<not> is_valid_order_type (order_type ord)
          then do {
            w1 \<leftarrow> log_message os LOG_ERROR ''Invalid order type %d for order ID=%lu''
              [LInt (sint (order_type ord)), LInt (uint (order_id ord))] w;
            Some (code_of ERROR_INVALID_ORDER, w1) }
          else if \<not> is_valid_order_side (side ord)
          then do {
            w1 \<leftarrow> log_message os LOG_ERROR ''Invalid order side %d for order ID=%lu''
              [LInt (sint (side ord)), LInt (uint (order_id ord))] w;
            Some (code_of ERROR_INVALID_ORDER, w1) }
          else Some (code_of SUCCESS, w) })"

definition validate_market_data :: "os \<Rightarrow> (int \<Rightarrow> double) \<Rightarrow> MarketData option \<Rightarrow> world \<Rightarrow> (int \<times> world) option" where
  "validate_market_data os pow10 data w =
     (case data of
        None \<Rightarrow> Some (ERROR_INVALID_PARAM_macro, w)
      | Some md \<Rightarrow> do {
          len \<leftarrow> c_strlen (md_symbol md);
          if len = 0 \<or> len \<ge> MAX_SYMBOL_LENGTH
          then do {
            w1 \<leftarrow> log_message os LOG_ERROR ''Invalid symbol in market data'' [] w;
            Some (code_of ERROR_MARKET_DATA, w1) }
          else if d_ge (price_to_double pow10 (bid md)) (price_to_double pow10 (ask md))
          then do {
            w1 \<leftarrow> log_message os LOG_ERROR ''Invalid bid/ask spread for %s'' [LStr (md_symbol md)] w;
            Some (code_of ERROR_MARKET_DATA, w1) }
          else Some (code_of SUCCESS, w) })"

subsection \<open>Names\<close>

definition order_type_to_string :: "32 word \<Rightarrow> string" where
  "order_type_to_string t =
     (case OrderType_of t of
        Some ORDER_TYPE_MARKET \<Rightarrow> ''MARKET'' | Some ORDER_TYPE_LIMIT \<Rightarrow> ''LIMIT''
      | Some ORDER_TYPE_STOP \<Rightarrow> ''STOP'' | Some ORDER_TYPE_STOP_LIMIT \<Rightarrow> ''STOP_LIMIT''
      | None \<Rightarrow> ''UNKNOWN'')"

definition order_side_to_string :: "32 word \<Rightarrow> string" where
  "order_side_to_string s =
     (case OrderSide_of s of
        Some ORDER_SIDE_BUY \<Rightarrow> ''BUY'' | Some ORDER_SIDE_SELL \<Rightarrow> ''SELL'' | None \<Rightarrow> ''UNKNOWN'')"

definition order_status_to_string :: "32 word \<Rightarrow> string" where
  "order_status_to_string s =
     (case OrderStatus_of s of
        Some ORDER_STATUS_NEW \<Rightarrow> ''NEW'' | Some ORDER_STATUS_PARTIAL \<Rightarrow> ''PARTIAL''
      | Some ORDER_STATUS_FILLED \<Rightarrow> ''FILLED'' | Some ORDER_STATUS_CANCELLED \<Rightarrow> ''CANCELLED''
      | Some ORDER_STATUS_REJECTED \<Rightarrow> ''REJECTED'' | None \<Rightarrow> ''UNKNOWN'')"

subsection \<open>Random numbers and hashes\<close>

text \<open>\<open>r\<close> is what \<open>rand()\<close> returned; the \<open>int\<close> arithmetic overflows outside of 32 bits and \<open>%\<close> is
  undefined for 0.\<close>

definition int32 :: "int \<Rightarrow> int option" where
  "int32 i = (if - (2 ^ 31) \<le> i \<and> i < 2 ^ 31 then Some i else None)"

definition generate_random_quantity :: "int \<Rightarrow> int \<Rightarrow> int \<Rightarrow> int option" where
  "generate_random_quantity r lo hi =
     do {
       d \<leftarrow> int32 (hi - lo);
       span \<leftarrow> int32 (d + 1);
       if span = 0 then None else int32 (lo + r smod span) }"

definition RAND_MAX :: int where "RAND_MAX = 2147483647"

definition generate_random_price :: "int \<Rightarrow> double \<Rightarrow> double \<Rightarrow> double" where
  "generate_random_price r lo hi = d_add lo (d_mul (d_div (d_of_int r) (d_of_int RAND_MAX)) (d_sub hi lo))"

text \<open>\<open>char\<close> is signed, so a byte above 127 is sign-extended before it is added.\<close>

fun hash_loop :: "byte list \<Rightarrow> 64 word \<Rightarrow> 64 word option" where
  "hash_loop [] h = None"
| "hash_loop (c # cs) h = (if c = 0 then Some h else hash_loop cs ((push_bit 5 h + h) + scast c))"

definition hash_string :: "byte list \<Rightarrow> 64 word option" where
  "hash_string str = hash_loop str 5381"

definition hash_order :: "Order option \<Rightarrow> 64 word option" where
  "hash_order order =
     (case order of
        None \<Rightarrow> Some 0
      | Some ord \<Rightarrow> do {
          h \<leftarrow> hash_string (order_symbol ord);
          let h = push_bit 5 h + h + order_id ord;
          let h = push_bit 5 h + h + ucast (order_type ord);
          let h = push_bit 5 h + h + ucast (side ord);
          let h = push_bit 5 h + h + ucast (quantity ord);
          Some h })"

section \<open>Timestamps and random prices\<close>

lemma format_timestamp_fits:
  assumes "ret (os (trace w) (SysStrftime t)) \<noteq> 0" "rbytes (os (trace w) (SysStrftime t)) = text"
    and "0 \<notin> set text" "length text < n" "n \<le> length buffer"
  shows "\<exists>buf w'. format_timestamp os t buffer n junk w = Some (buf, w') \<and> c_str buf = text \<and> length buf = length buffer"
  using assms
  by (auto simp: format_timestamp_def sys_pair store_at_def c_str_def takeWhile_append)

lemma format_timestamp_truncated:
  assumes "ret (os (trace w) (SysStrftime t)) \<noteq> 0" "n \<le> length (rbytes (os (trace w) (SysStrftime t)))"
    and "length junk = n" "0 \<notin> set junk" "length buffer = n"
  shows "\<exists>buf w'. format_timestamp os t buffer n junk w = Some (buf, w') \<and> \<not> terminated buf"
  using assms by (auto simp: format_timestamp_def sys_pair store_at_def terminated_def)

text \<open>Doubles that are not below zero; a NaN counts among them.\<close>

definition nonneg :: "double \<Rightarrow> bool" where
  "nonneg x \<longleftrightarrow> canonical x \<and> x \<noteq> DInf True \<and> (\<forall>s m e. x = DFin s m e \<longrightarrow> s \<longrightarrow> m = 0)"

lemma nonneg_round: "0 \<le> m \<Longrightarrow> s \<longrightarrow> m = 0 \<Longrightarrow> nonneg (round_double s m e)"
  using canonical_round_double [of m s e] by (auto simp: nonneg_def round_double_def Let_def)

lemma nonneg_fin: "nonneg (DFin s m e) \<longleftrightarrow> canonical (DFin s m e) \<and> (s \<longrightarrow> m = 0)"
  by (auto simp: nonneg_def)

lemma nonneg_d_mul:
  assumes "nonneg a" "nonneg b"
  shows "nonneg (d_mul a b)"
proof (cases a; cases b)
  fix s m e s' m' e' assume ab: "a = DFin s m e" "b = DFin s' m' e'"
  with assms have "0 \<le> m" "0 \<le> m'" "s \<longrightarrow> m = 0" "s' \<longrightarrow> m' = 0" by (auto simp: nonneg_def)
  then show ?thesis using ab by (auto intro!: nonneg_round)
qed (use assms in \<open>auto simp: nonneg_def\<close>)

lemma nonneg_d_sub:
  assumes "canonical hi" "canonical lo" "\<not> d_less hi lo"
  shows "nonneg (d_sub hi lo)"
proof (cases hi; cases lo)
  fix s m e s' m' e' assume "hi = DFin s m e" "lo = DFin s' m' e'"
  with assms show ?thesis
    by (auto simp: d_sub_def Let_def signed_def nonneg_fin intro!: nonneg_round split: if_splits)
qed (use assms in \<open>auto simp: nonneg_def d_sub_def\<close>)

lemma d_div_RAND_MAX:
  assumes "0 \<le> r" "r \<le> RAND_MAX"
  shows "nonneg (d_div (d_of_int r) (d_of_int RAND_MAX))"
proof -
  obtain q t where q: "d_of_int r = DFin (r < 0) q t" "0 \<le> q"
    using d_of_int_finite [of r] assms by (auto simp: RAND_MAX_def)
  have "d_of_int RAND_MAX = DFin False 9007199250546688 (-22)" unfolding RAND_MAX_def by code_simp
  with q assms(1) show ?thesis
    by (auto simp: Let_def not_less [symmetric] intro!: nonneg_round)
qed

text \<open>A random price is never below the lower bound, but rounding can take it above the upper one.\<close>

lemma generate_random_price_lower:
  assumes "canonical lo" "canonical hi" "\<not> d_less hi lo" "0 \<le> r" "r \<le> RAND_MAX"
  shows "\<not> d_less (generate_random_price r lo hi) lo"
proof -
  have "nonneg (d_mul (d_div (d_of_int r) (d_of_int RAND_MAX)) (d_sub hi lo))"
    using assms by (intro nonneg_d_mul d_div_RAND_MAX nonneg_d_sub)
  then show ?thesis
    unfolding generate_random_price_def using assms(1) by (intro d_add_not_less) (auto simp: nonneg_def)
qed

lemma generate_random_price_overshoots:
  "d_less (d_of_int 3) (generate_random_price RAND_MAX (d_of_int (- (2 ^ 53))) (d_of_int 3))"
proof -
  have r: "d_of_int RAND_MAX = DFin False 9007199250546688 (-22)" unfolding RAND_MAX_def by code_simp
  have "bitlen 2658455991569831745807614120560689152 = 122" by code_simp
  then have q: "d_div (DFin False 9007199250546688 (-22)) (DFin False 9007199250546688 (-22))
      = DFin False 4503599627370496 (-52)"
    by (simp add: round_double_def rnd_sig_def rnd_exp_def Let_def rne_def)
  have d: "d_sub (d_of_int 3) (d_of_int (- (2 ^ 53))) = DFin False 4503599627370498 1" by code_simp
  show ?thesis unfolding generate_random_price_def r q d by code_simp
qed

section \<open>Trimming\<close>

definition trim :: "byte list \<Rightarrow> byte list" where
  "trim bs = rev (dropWhile isspace (rev (dropWhile isspace bs)))"

lemma isspace_0 [simp]: "\<not> isspace 0"
  by (simp add: isspace_def)

lemma c_str_Cons [simp]: "c_str (b # bs) = (if b = 0 then [] else b # c_str bs)" "c_str [] = []"
  by (simp_all add: c_str_def)

lemma terminated_Cons [simp]: "terminated (b # bs) \<longleftrightarrow> b = 0 \<or> terminated bs" "\<not> terminated []"
  by (auto simp: terminated_def)

lemma skip_space_spec:
  assumes "terminated buf"
  shows "\<exists>n. skip_space buf = Some n \<and> n < length buf \<and> \<not> isspace (buf ! n) \<and> terminated (drop n buf)
    \<and> c_str (drop n buf) = dropWhile isspace (c_str buf)"
  using assms
proof (induction buf)
  case (Cons b bs)
  show ?case
  proof (cases "isspace b")
    case True
    then have "b \<noteq> 0" by (metis isspace_0)
    with True Cons show ?thesis by auto
  next
    case False
    with Cons.prems show ?thesis by (intro exI [of _ 0]) auto
  qed
qed simp

lemma back_space_spec:
  "str \<le> e \<Longrightarrow> \<not> isspace (buf ! str) \<Longrightarrow>
   str \<le> back_space buf str e \<and> back_space buf str e \<le> e \<and> \<not> isspace (buf ! back_space buf str e)
   \<and> (\<forall>k. back_space buf str e < k \<and> k \<le> e \<longrightarrow> isspace (buf ! k))"
proof (induction e)
  case (Suc e)
  show ?case
  proof (cases "str < Suc e \<and> isspace (buf ! Suc e)")
    case True
    then show ?thesis using Suc by (auto simp: le_Suc_eq)
  next
    case False
    then have "\<not> isspace (buf ! Suc e)" using Suc.prems by (cases "str = Suc e") auto
    with False Suc.prems show ?thesis by auto
  qed
qed auto

lemma trim_end:
  assumes "k < length xs" "\<not> P (xs ! k)" "\<And>j. k < j \<Longrightarrow> j < length xs \<Longrightarrow> P (xs ! j)"
  shows "rev (dropWhile P (rev xs)) = take (Suc k) xs"
proof -
  have "\<forall>x \<in> set (rev (drop (Suc k) xs)). P x"
    using assms(3) by (auto simp: in_set_conv_nth)
  then have "dropWhile P (rev (drop (Suc k) xs) @ rev (take (Suc k) xs)) = dropWhile P (rev (take (Suc k) xs))"
    by (intro dropWhile_append2) auto
  also have "\<dots> = rev (take (Suc k) xs)"
    using assms(1,2) by (simp add: take_Suc_conv_app_nth)
  finally show ?thesis by (metis append_take_drop_id rev_append rev_rev_ident)
qed

lemma nth_c_str: "i < length (c_str bs) \<Longrightarrow> c_str bs ! i = bs ! i"
  by (simp add: c_str_def takeWhile_nth)

lemma c_str_take: "n \<le> length (c_str bs) \<Longrightarrow> c_str (take n bs @ 0 # rest) = take n (c_str bs)"
proof (induction bs arbitrary: n)
  case (Cons b bs)
  then show ?case by (cases n) (auto split: if_splits)
qed simp

lemma length_c_str: "terminated bs \<Longrightarrow> length (c_str bs) < length bs"
  by (induction bs) auto

lemma trim_whitespace_trims:
  assumes "terminated buf"
  shows "\<exists>n buf'. trim_whitespace (Some buf) = Some (Some (n, buf')) \<and> length buf' = length buf
    \<and> n < length buf \<and> terminated (drop n buf') \<and> c_str (drop n buf') = trim (c_str buf)"
proof -
  obtain n where n: "skip_space buf = Some n" "n < length buf" "\<not> isspace (buf ! n)" "terminated (drop n buf)"
    "c_str (drop n buf) = dropWhile isspace (c_str buf)"
    using skip_space_spec [OF assms] by blast
  define s where "s = c_str (drop n buf)"
  have hd: "drop n buf = buf ! n # drop (Suc n) buf" using n(2) by (simp add: Cons_nth_drop_Suc)
  show ?thesis
  proof (cases "buf ! n = 0")
    case True
    then have "s = []" using hd by (simp add: s_def)
    then have "trim (c_str buf) = []" using n(5) by (simp add: trim_def s_def del: dropWhile_eq_Nil_conv)
    then show ?thesis using \<open>s = []\<close> n(1,2,4) True by (simp add: trim_whitespace_def s_def)
  next
    case False
    have s0: "0 < length s" using hd False by (simp add: s_def)
    have len: "n + length s < length buf" using length_c_str [OF n(4)] by (simp add: s_def)
    have nth: "s ! i = buf ! (n + i)" if "i < length s" for i
      using that nth_c_str [of i "drop n buf"] len by (simp add: s_def)
    have le: "n \<le> n + length s - 1" using s0 by linarith
    define e where "e = back_space buf n (n + length s - 1)"
    have e: "n \<le> e" "e \<le> n + length s - 1" "\<not> isspace (buf ! e)"
      "\<And>k. e < k \<Longrightarrow> k \<le> n + length s - 1 \<Longrightarrow> isspace (buf ! k)"
      using back_space_spec [OF le n(3)] by (auto simp: e_def)
    have en: "e - n < length s" using e(1,2) s0 by linarith
    have el: "Suc (Suc e) \<le> length buf" using e(2) s0 len by linarith
    have tr: "trim (c_str buf) = take (Suc (e - n)) s"
      unfolding trim_def n(5) [symmetric] s_def [symmetric]
      using e en nth [OF en] nth by (intro trim_end) auto
    define buf' where "buf' = take (Suc e) buf @ 0 # drop (Suc (Suc e)) buf"
    have st: "store_at (e + 1) [0] buf = Some buf'" using el by (simp add: store_at_def buf'_def)
    have dr: "drop n buf' = take (Suc (e - n)) (drop n buf) @ 0 # drop (Suc (Suc e)) buf"
      using e(1) el by (simp add: buf'_def drop_take Suc_diff_le)
    have c: "c_str (drop n buf') = take (Suc (e - n)) s"
      unfolding dr s_def using en by (intro c_str_take) (simp add: s_def)
    have "trim_whitespace (Some buf) = Some (Some (n, buf'))"
      using n(1,4) False st by (simp add: trim_whitespace_def e_def s_def c_strlen_Some_iff [THEN iffD2])
    moreover have "length buf' = length buf" using el by (simp add: buf'_def)
    moreover have "terminated (drop n buf')" by (simp add: dr terminated_append)
    ultimately show ?thesis using tr c n(2) by simp
  qed
qed

section \<open>Parsing integers\<close>

text \<open>The decimal digits of a number, and a signed number as a C string.\<close>

function dec_digits :: "nat \<Rightarrow> byte list" where
  "dec_digits n = (if n < 10 then [of_nat (48 + n)] else dec_digits (n div 10) @ [of_nat (48 + n mod 10)])"
  by pat_completeness auto

termination dec_digits
  by (relation "measure id") auto

declare dec_digits.simps [simp del]

definition dec_int :: "int \<Rightarrow> byte list" where
  "dec_int i = (if i < 0 then [45] else []) @ dec_digits (nat \<bar>i\<bar>) @ [0]"

lemma digit_byte:
  assumes "d < 10"
  shows "isdigit (of_nat (48 + d))" "uint (of_nat (48 + d) :: byte) - 48 = int d"
proof -
  have u: "unat (of_nat (48 + d) :: byte) = 48 + d"
    using assms by (simp only: unat_of_nat) simp
  then show "isdigit (of_nat (48 + d))" using assms by (simp add: isdigit_def word_le_nat_alt)
  show "uint (of_nat (48 + d) :: byte) - 48 = int d" using u by (metis add_diff_cancel_left' of_nat_add of_nat_numeral uint_nat)
qed

lemma digit_loop_dec:
  "digit_loop (dec_digits n @ rest) acc seen = digit_loop rest (acc * 10 ^ length (dec_digits n) + int n) True"
proof (induction n arbitrary: acc seen rest rule: dec_digits.induct)
  case (1 n)
  show ?case
  proof (cases "n < 10")
    case True
    then show ?thesis using digit_byte [of n] by (simp add: dec_digits.simps [of n])
  next
    case False
    have d: "n mod 10 < 10" by simp
    have dm: "int n = 10 * int (n div 10) + int (n mod 10)" by presburger
    show ?thesis
      using False 1 digit_byte [OF d]
      by (simp add: dec_digits.simps [of n] algebra_simps) (simp add: dm ac_simps)
  qed
qed

lemma hd_dec_digits: "isdigit (hd (dec_digits n @ rest))" "dec_digits n \<noteq> []"
proof -
  have "dec_digits n \<noteq> [] \<and> isdigit (hd (dec_digits n))"
  proof (induction n rule: dec_digits.induct)
    case (1 n)
    then show ?case using digit_byte(1) [of n] by (cases "n < 10") (auto simp: dec_digits.simps [of n])
  qed
  then show "isdigit (hd (dec_digits n @ rest))" "dec_digits n \<noteq> []" by auto
qed

lemma skip_space_non: "xs \<noteq> [] \<Longrightarrow> \<not> isspace (hd xs) \<Longrightarrow> skip_space xs = Some 0"
  by (cases xs) auto

lemma digit_not_special: "isdigit b \<Longrightarrow> \<not> isspace b \<and> b \<noteq> 45 \<and> b \<noteq> 43"
  by (auto simp: isdigit_def isspace_def word_le_nat_alt)

lemma safe_atoi64_dec:
  assumes "- (2 ^ 63) \<le> i" "i < 2 ^ 63"
  shows "safe_atoi64 (Some (dec_int i)) = Some i"
proof -
  let ?d = "dec_digits (nat \<bar>i\<bar>)"
  have hd: "isdigit (hd (?d @ [0]))" "?d \<noteq> []" using hd_dec_digits by auto
  then have hd': "\<not> isspace (hd ?d)" "hd ?d \<noteq> 45" "hd ?d \<noteq> 43" using digit_not_special by auto
  have loop: "digit_loop (?d @ [0]) 0 False = Some (\<bar>i\<bar>, True, [0])"
    by (simp add: digit_loop_dec isdigit_def)
  have "c_strtoll (dec_int i) = Some (i, False, [0])"
  proof (cases "i < 0")
    case True
    have "skip_space (dec_int i) = Some 0" using True by (simp add: dec_int_def isspace_def)
    then show ?thesis using True loop assms by (simp add: c_strtoll_def dec_int_def)
  next
    case False
    have "skip_space (dec_int i) = Some 0" using False hd hd' by (simp add: dec_int_def skip_space_non)
    then show ?thesis using False loop assms hd hd' by (simp add: c_strtoll_def dec_int_def)
  qed
  then show ?thesis by (simp add: safe_atoi64_def)
qed

section \<open>Hashes\<close>

text \<open>The hash of a string as a polynomial in 33; 33 is a unit modulo \<open>2 ^ 64\<close>.\<close>

primrec hash_poly :: "byte list \<Rightarrow> 64 word" where
  "hash_poly [] = 0"
| "hash_poly (c # cs) = scast c * 33 ^ length cs + hash_poly cs"

lemma hash_loop_poly:
  "terminated bs \<Longrightarrow> hash_loop bs h = Some (h * 33 ^ length (c_str bs) + hash_poly (c_str bs))"
  by (induction bs arbitrary: h) (auto simp: push_bit_eq_mult algebra_simps)

lemma hash_string_poly:
  "terminated bs \<Longrightarrow> hash_string bs = Some (5381 * 33 ^ length (c_str bs) + hash_poly (c_str bs))"
  by (simp add: hash_string_def hash_loop_poly)

lemma hash_poly_append: "hash_poly (xs @ ys) = hash_poly xs * 33 ^ length ys + hash_poly ys"
  by (induction xs) (auto simp: algebra_simps power_add)

lemma inverse_33_64: "(33 :: 64 word) * 1117984489315730401 = 1"
  by simp

lemma mult_power_33_cancel_64: "a * 33 ^ k = b * 33 ^ k \<longleftrightarrow> a = (b :: 64 word)"
proof
  assume eq: "a * 33 ^ k = b * 33 ^ k"
  have unit: "33 ^ k * 1117984489315730401 ^ k = (1 :: 64 word)"
    by (simp only: power_mult_distrib [symmetric] inverse_33_64 power_one)
  from eq have "a * 33 ^ k * 1117984489315730401 ^ k = b * 33 ^ k * 1117984489315730401 ^ k"
    by simp
  then show "a = b" by (simp only: mult.assoc unit mult_1_right)
qed simp

lemma mult_33_cancel: "h * 33 = g * 33 \<longleftrightarrow> h = (g :: 64 word)"
  using mult_power_33_cancel_64 [of h 1 g] by simp

lemma scast_byte_inject: "(scast (a :: byte) :: 64 word) = scast b \<longleftrightarrow> a = b"
proof
  assume eq: "(scast a :: 64 word) = scast b"
  show "a = b"
  proof (rule bit_word_eqI)
    fix n assume "n < LENGTH(8)"
    moreover from eq have "bit (scast a :: 64 word) n \<longleftrightarrow> bit (scast b :: 64 word) n" by simp
    ultimately show "bit a n \<longleftrightarrow> bit b n" by (cases "n = 7") (simp_all add: bit_simps min_def split: if_splits)
  qed
qed simp

lemma ucast_32_64_inject: "(ucast (a :: 32 word) :: 64 word) = ucast b \<longleftrightarrow> a = b"
proof
  assume eq: "(ucast a :: 64 word) = ucast b"
  show "a = b"
  proof (rule bit_word_eqI)
    fix n assume "n < LENGTH(32)"
    moreover from eq have "bit (ucast a :: 64 word) n \<longleftrightarrow> bit (ucast b :: 64 word) n" by simp
    ultimately show "bit a n \<longleftrightarrow> bit b n" by (simp add: bit_simps)
  qed
qed simp

lemma shift_5: "push_bit 5 h + h = h * (33 :: 64 word)"
  by (simp add: push_bit_eq_mult)

section \<open>Properties\<close>

text \<open>C36. \<open>trim_whitespace\<close> never leaves the array of a terminated string, and the string it returns is
  the argument without its leading and trailing white space.\<close>

theorem trim_whitespace_correct:
  assumes "terminated buf"
  shows "\<exists>n buf'. trim_whitespace (Some buf) = Some (Some (n, buf')) \<and> length buf' = length buf
    \<and> terminated (drop n buf')
    \<and> c_str (drop n buf') = rev (dropWhile isspace (rev (dropWhile isspace (c_str buf))))"
  using trim_whitespace_trims [OF assms] by (auto simp: trim_def)

theorem trim_whitespace_correct_witness:
  "\<exists>n buf'. trim_whitespace (Some (lit '' AB  '')) = Some (Some (n, buf')) \<and> c_str (drop n buf') = map of_char ''AB''"
  using trim_whitespace_correct [of "lit '' AB  ''"] by (auto simp: lit_def isspace_def)



text \<open>C38. \<open>safe_strncpy\<close> into a destination of at least \<open>n\<close> bytes always leaves a terminated string, the
  source cut to \<open>n - 1\<close> bytes, and does not touch what lies behind the \<open>n\<close> bytes.\<close>

theorem safe_strncpy_correct:
  assumes "terminated src" "0 < n" "n \<le> length dest"
  shows "\<exists>d. safe_strncpy (Some dest) (Some src) n = Some (Some d) \<and> length d = length dest
    \<and> c_str d = take (n - 1) (c_str src) \<and> terminated (take n d) \<and> drop n d = drop n dest"
proof -
  define s where "s = take (n - 1) (c_str src) @ replicate (n - 1 - length (c_str src)) 0"
  have len: "length s = n - 1" by (simp add: s_def)
  have nz: "0 \<notin> set (take (n - 1) (c_str src))" using NUL_not_in_c_str in_set_takeD by fast
  have a: "c_strncpy dest src (n - 1) = Some (s @ drop (n - 1) dest)"
    using assms len by (simp add: c_strncpy_def strncpy_bytes_terminated store_at_def s_def)
  have b: "store_at (n - 1) [0] (s @ drop (n - 1) dest) = Some (s @ 0 # drop n dest)"
    using assms(2,3) len by (simp add: store_at_def)
  have c: "c_str (s @ 0 # drop n dest) = take (n - 1) (c_str src)"
    unfolding s_def using c_str_append_NUL [OF nz]
    by (cases "n - 1 - length (c_str src)") simp_all
  have "take n (s @ 0 # drop n dest) = s @ [0]" "drop n (s @ 0 # drop n dest) = drop n dest"
    using assms(2) len by (simp_all add: take_Cons' drop_Cons')
  then show ?thesis
    using assms a b c len by (simp add: safe_strncpy_def terminated_append)
qed

theorem safe_strncpy_correct_witness:
  "\<exists>d. safe_strncpy (Some [7, 7, 7, 7, 7, 7]) (Some (lit ''ABCDEF'')) 4 = Some (Some d)
    \<and> c_str d = map of_char ''ABC'' \<and> drop 4 d = [7, 7]"
  using safe_strncpy_correct [of "lit ''ABCDEF''" 4 "[7, 7, 7, 7, 7, 7]"] by (auto simp: lit_def)

text \<open>C37. \<open>validate_order_fields\<close> accepts exactly the orders with a non-empty symbol, a positive quantity, a
  declared order type and a declared side; it has no upper bound on the quantity and does not look at
  price or time in force.\<close>

theorem validate_order_fields_iff:
  assumes "wf_Order ord" "terminated (order_symbol ord)"
  shows "\<exists>w'. validate_order_fields os (Some ord) w =
      Some (if c_str (order_symbol ord) \<noteq> [] \<and> quantity ord \<noteq> 0 \<and> OrderType_of (order_type ord) \<noteq> None
              \<and> OrderSide_of (side ord) \<noteq> None
            then code_of SUCCESS else code_of ERROR_INVALID_ORDER, w') \<and> quiet w w'"
proof -
  have l: "c_strlen (order_symbol ord) = Some (length (c_str (order_symbol ord)))"
    "length (c_str (order_symbol ord)) < MAX_SYMBOL_LENGTH"
    using assms length_c_str [OF assms(2)] by (auto simp: wf_Order_def c_strlen_Some_iff)
  have t: "is_valid_order_type t \<longleftrightarrow> OrderType_of t \<noteq> None" for t
  proof -
    have "1 \<le> t \<and> t \<le> 4 \<longleftrightarrow> unat t \<in> {1, 2, 3, 4}" by (auto simp: word_le_nat_alt)
    also have "\<dots> \<longleftrightarrow> t \<in> {1, 2, 3, 4}" by (simp add: word_unat_eq_iff)
    finally show ?thesis by (auto simp: is_valid_order_type_def OrderType_of_def)
  qed
  have s: "is_valid_order_side x \<longleftrightarrow> OrderSide_of x \<noteq> None" for x
    by (auto simp: is_valid_order_side_def OrderSide_of_def)
  have log: "\<exists>w'. log_message os LOG_ERROR f [LInt a] w = Some w' \<and> quiet w w'"
    "\<exists>w'. log_message os LOG_ERROR f [LInt a, LInt b] w = Some w' \<and> quiet w w'" for f a b
    using log_message_quiet_total [of _ LOG_ERROR os f w] by simp_all
  obtain w1 w2 where
    "\<And>f a. log_message os LOG_ERROR f [LInt a] w = Some (w1 f a) \<and> quiet w (w1 f a)"
    "\<And>f a b. log_message os LOG_ERROR f [LInt a, LInt b] w = Some (w2 f a b) \<and> quiet w (w2 f a b)"
    using log by metis
  then show ?thesis using l by (auto simp: validate_order_fields_def t s)
qed

theorem validate_order_fields_iff_witness:
  "\<exists>w'. validate_order_fields (const_os 0) (Some (zero_Order\<lparr>order_symbol := map of_char ''AAPL'' @ replicate 12 0,
      order_type := 2, side := 1, quantity := 5000000\<rparr>)) fresh_world = Some (0, w')"
  using validate_order_fields_iff [of "zero_Order\<lparr>order_symbol := map of_char ''AAPL'' @ replicate 12 0,
      order_type := 2, side := 1, quantity := 5000000\<rparr>" "const_os 0" fresh_world] order_codec.wf_dec [of "replicate 128 0"]
    terminated_def [of "replicate 12 0"]
  by (auto simp: wf_Order_def zero_Order_def sizeof_defs size_constants OrderType_of_def OrderSide_of_def)

text \<open>\<open>hash_order\<close> never collides on orders that differ in exactly one of: one character of the symbol,
  the order id, the type, the side, the quantity.\<close>

theorem hash_order_separates:
  assumes "terminated (order_symbol a)" "terminated (order_symbol b)"
    and "b = a\<lparr>order_id := i\<rparr> \<and> i \<noteq> order_id a \<or> b = a\<lparr>order_type := t\<rparr> \<and> t \<noteq> order_type a
       \<or> b = a\<lparr>side := sd\<rparr> \<and> sd \<noteq> side a \<or> b = a\<lparr>quantity := q\<rparr> \<and> q \<noteq> quantity a
       \<or> b = a\<lparr>order_symbol := s\<rparr> \<and> (\<exists>xs x y ys. c_str (order_symbol a) = xs @ x # ys \<and> c_str s = xs @ y # ys \<and> x \<noteq> y)"
  shows "hash_order (Some a) \<noteq> hash_order (Some b)"
proof -
  have h: "hash_order (Some x) = Some (((((5381 * 33 ^ length (c_str (order_symbol x)) + hash_poly (c_str (order_symbol x))) * 33
      + order_id x) * 33 + ucast (order_type x)) * 33 + ucast (side x)) * 33 + ucast (quantity x))"
    if "terminated (order_symbol x)" for x
    using that by (simp add: hash_order_def hash_string_poly Let_def shift_5)
  show ?thesis
    using assms(3) unfolding h [OF assms(1)] h [OF assms(2)]
    by (auto simp: mult_33_cancel ucast_32_64_inject scast_byte_inject hash_poly_append mult_power_33_cancel_64
        simp del: distrib_right_numeral distrib_left_numeral)
qed

theorem hash_order_separates_witness:
  "hash_order (Some zero_Order) \<noteq> hash_order (Some (zero_Order\<lparr>quantity := 7\<rparr>))"
proof -
  have "terminated (order_symbol zero_Order)" "quantity zero_Order = 0" by code_simp+
  then show ?thesis
    using hash_order_separates [of zero_Order "zero_Order\<lparr>quantity := 7\<rparr>" 0 0 0 7 "[]"] by simp
qed

end
