(* ===== verification/Server_Program.thy ===== *)
theory Server_Program
  imports Server_Queue Utils "HOL-Library.Multiset"
begin

text \<open>
  \<open>src/server/main.c\<close>: the options of the server and the run of the whole process. The successive
  results of \<open>getopt_long\<close> before its \<open>-1\<close> are an argument, as pairs of the option character and
  \<open>optarg\<close>. Line ends of format strings are left out.
\<close>

section \<open>Definitions\<close>

definition DEFAULT_PORT :: int where "DEFAULT_PORT = 8080"
definition DEFAULT_MAX_CLIENTS :: int where "DEFAULT_MAX_CLIENTS = 100"
definition DEFAULT_SOCKET_TIMEOUT :: int where "DEFAULT_SOCKET_TIMEOUT = 30"

definition EXIT_SUCCESS :: int where "EXIT_SUCCESS = 0"
definition EXIT_FAILURE :: int where "EXIT_FAILURE = 1"

text \<open>\<open>atoi\<close>: undefined when the value is no \<open>int\<close>.\<close>

definition c_atoi :: "byte list \<Rightarrow> int option" where
  "c_atoi str =
     do {
       (v, range_error, rest) \<leftarrow> c_strtoll str;
       if - (2 ^ 31) \<le> v \<and> v < 2 ^ 31 then Some v else None }"

text \<open>Consecutive calls of \<open>printf\<close>.\<close>

primrec print_lines :: "os \<Rightarrow> (string \<times> log_arg list) list \<Rightarrow> world \<Rightarrow> world" where
  "print_lines os [] w = w"
| "print_lines os (l # ls) w = print_lines os ls (docall os (SysPrint (fst l) (snd l)) w)"

definition server_usage :: "os \<Rightarrow> byte list \<Rightarrow> world \<Rightarrow> world" where
  "server_usage os program_name w = print_lines os
     [(''Usage: %s [options]'', [LStr program_name]),
      (''Options:'', []),
      (''  -p, --port PORT       Server port (default: %d)'', [LInt DEFAULT_PORT]),
      (''  -c, --clients MAX     Maximum clients (default: %d)'', [LInt DEFAULT_MAX_CLIENTS]),
      (''  -t, --timeout SECS    Socket timeout (default: %d)'', [LInt DEFAULT_SOCKET_TIMEOUT]),
      (''  -l, --log-level LVL   Log level (0-5, default: 2)'', []),
      (''  -f, --log-file FILE   Log file path'', []),
      (''  -h, --help            Show this help message'', [])] w"

text \<open>The configuration before the options are read.\<close>

definition server_defaults :: "ServerConfig option" where
  "server_defaults =
     do {
       addr \<leftarrow> c_strncpy (replicate 16 0) (lit ''0.0.0.0'') 16;
       file \<leftarrow> c_strncpy (replicate 256 0) (lit ''./server.log'') 256;
       Some \<lparr>port = DEFAULT_PORT, max_clients = DEFAULT_MAX_CLIENTS, socket_timeout = DEFAULT_SOCKET_TIMEOUT,
         bind_address = addr, cfg_log_level = 2, cfg_log_file = file, max_symbols = 0,
         max_orders_per_symbol = 0, position_limit = 0, client_handler = False\<rparr> }"

text \<open>The loop over the options: \<^term>\<open>Inl\<close> is an early return with an exit status.\<close>

fun server_options ::
  "os \<Rightarrow> byte list \<Rightarrow> (char \<times> byte list) list \<Rightarrow> ServerConfig \<Rightarrow> world \<Rightarrow> ((int + ServerConfig) \<times> world) option" where
  "server_options os prog [] cfg w = Some (Inr cfg, w)"
| "server_options os prog ((opt, optarg) # opts) cfg w =
     (if opt = CHR ''p'' then do {
        v \<leftarrow> c_atoi optarg; server_options os prog opts (cfg\<lparr>port := v\<rparr>) w }
      else if opt = CHR ''c'' then do {
        v \<leftarrow> c_atoi optarg; server_options os prog opts (cfg\<lparr>max_clients := v\<rparr>) w }
      else if opt = CHR ''t'' then do {
        v \<leftarrow> c_atoi optarg; server_options os prog opts (cfg\<lparr>socket_timeout := v\<rparr>) w }
      else if opt = CHR ''l'' then do {
        v \<leftarrow> c_atoi optarg; server_options os prog opts (cfg\<lparr>cfg_log_level := word_of_int v\<rparr>) w }
      else if opt = CHR ''f'' then do {
        f \<leftarrow> c_strncpy (cfg_log_file cfg) optarg 255; server_options os prog opts (cfg\<lparr>cfg_log_file := f\<rparr>) w }
      else if opt = CHR ''h'' then Some (Inl EXIT_SUCCESS, server_usage os prog w)
      else Some (Inl EXIT_FAILURE, server_usage os prog w))"

text \<open>The program after its configuration is known, with the accept loop cut off after \<open>n\<close> turns:
  \<^term>\<open>Inl\<close> is a server still running, \<^term>\<open>Inr\<close> an exit status.\<close>

definition run_server :: "os \<Rightarrow> nat \<Rightarrow> ServerConfig \<Rightarrow> world \<Rightarrow> (server_run + int \<times> world) option" where
  "run_server os n cfg w =
     do {
       (context, w1) \<leftarrow> initialize_server_context os cfg w;
       (case context of
          None \<Rightarrow> do {
            w2 \<leftarrow> log_message os LOG_ERROR ''Failed to initialize server context'' [] w1;
            Some (Inr (EXIT_FAILURE, w2)) }
        | Some ctx \<Rightarrow> do {
            run \<leftarrow> start_server os n 1 (Some ctx) w1;
            (case run of
               Inl st \<Rightarrow> Some (Inl st)
             | Inr (result, running, context', w2) \<Rightarrow> do {
                 w3 \<leftarrow> cleanup_server os context' w2;
                 w4 \<leftarrow> close_logger os w3;
                 Some (Inr (if result = code_of SUCCESS then EXIT_SUCCESS else EXIT_FAILURE, w4)) }) }) }"

definition server_main ::
  "os \<Rightarrow> nat \<Rightarrow> byte list \<Rightarrow> (char \<times> byte list) list \<Rightarrow> world \<Rightarrow> (server_run + int \<times> world) option" where
  "server_main os n prog opts w =
     do {
       cfg0 \<leftarrow> server_defaults;
       (parsed, w1) \<leftarrow> server_options os prog opts cfg0 w;
       (case parsed of
          Inl exit_code \<Rightarrow> Some (Inr (exit_code, w1))
        | Inr cfg \<Rightarrow> do {
            (rc, w2) \<leftarrow> init_logger os (Some (cfg_log_file cfg)) (cfg_log_level cfg) w1;
            w3 \<leftarrow> log_message os LOG_INFO ''TradeSynth Server Starting...'' [] w2;
            run_server os n cfg w3 }) }"

section \<open>Options\<close>

text \<open>A path buffer of 256 bytes whose last byte stays zero, and an option whose conversion is defined.\<close>

definition path_ok :: "byte list \<Rightarrow> bool" where
  "path_ok p \<longleftrightarrow> length p = 256 \<and> p ! 255 = 0"

definition option_ok :: "char \<times> byte list \<Rightarrow> bool" where
  "option_ok oa \<longleftrightarrow> terminated (snd oa) \<and> (fst oa \<in> set ''pctl'' \<longrightarrow> c_atoi (snd oa) \<noteq> None)"

definition config_ok :: "ServerConfig \<Rightarrow> bool" where
  "config_ok cfg \<longleftrightarrow> path_ok (cfg_log_file cfg) \<and> int_config cfg"

lemma path_ok_terminated: "path_ok p \<Longrightarrow> terminated p"
  by (auto simp: path_ok_def terminated_def in_set_conv_nth intro: exI [of _ 255])

lemma copy_path_ok:
  assumes "path_ok p" "terminated src"
  shows "\<exists>p'. c_strncpy p src 255 = Some p' \<and> path_ok p'"
proof -
  obtain bs where bs: "strncpy_bytes 255 src = Some bs" using strncpy_bytes_terminated [OF assms(2)] by blast
  then show ?thesis
    using assms(1) length_strncpy_bytes [OF bs]
    by (auto simp: c_strncpy_def store_at_def path_ok_def nth_append)
qed

lemma c_atoi_range: "c_atoi str = Some v \<Longrightarrow> - (2 ^ 31) \<le> v \<and> v < 2 ^ 31"
  by (auto simp: c_atoi_def bind_eq_Some_conv split: if_splits)

lemma literal_path:
  "length s < 256 \<Longrightarrow> \<exists>p. c_strncpy (replicate 256 0) (lit s) 256 = Some p \<and> path_ok p"
proof -
  assume len: "length s < 256"
  have t: "strncpy_bytes 256 (lit s) = Some (take 256 (c_str (lit s)) @ replicate (256 - length (c_str (lit s))) 0)"
    by (rule strncpy_bytes_terminated) simp
  have "length (c_str (lit s)) \<le> length s"
    by (auto simp: c_str_def lit_def takeWhile_append intro: order_trans [OF length_takeWhile_le])
  with len t show ?thesis
    by (auto simp: c_strncpy_def store_at_def path_ok_def nth_append)
qed

lemma server_defaults_ok: "\<exists>cfg. server_defaults = Some cfg \<and> config_ok cfg"
proof -
  obtain p where p: "c_strncpy (replicate 256 0) (lit ''./server.log'') 256 = Some p" "path_ok p"
    using literal_path [of "''./server.log''"] by auto
  have "strncpy_bytes 16 (lit ''0.0.0.0'') = Some (take 16 (c_str (lit ''0.0.0.0'')) @ replicate (16 - length (c_str (lit ''0.0.0.0''))) 0)"
    by (rule strncpy_bytes_terminated) simp
  then have "\<exists>a. c_strncpy (replicate 16 0) (lit ''0.0.0.0'') 16 = Some a"
    by (auto simp: c_strncpy_def store_at_def dest: length_strncpy_bytes)
  with p show ?thesis
    by (auto simp: server_defaults_def config_ok_def int_config_def DEFAULT_MAX_CLIENTS_def)
qed

lemma server_options_total:
  assumes "list_all option_ok opts" "config_ok cfg"
  obtains (config) cfg' where "server_options os prog opts cfg w = Some (Inr cfg', w)" "config_ok cfg'"
  | (exit) code where "server_options os prog opts cfg w = Some (Inl code, server_usage os prog w)"
      "code \<in> {EXIT_SUCCESS, EXIT_FAILURE}"
  using assms
proof (induction opts arbitrary: cfg thesis)
  case (Cons oa opts)
  obtain opt arg where oa: "oa = (opt, arg)" by (cases oa)
  have rec: thesis if "config_ok cfg1"
    "server_options os prog (oa # opts) cfg w = server_options os prog opts cfg1 w" for cfg1
    using Cons.IH [of cfg1] Cons.prems that by auto
  have ok: "terminated arg" "path_ok (cfg_log_file cfg)" "int_config cfg"
    "opt \<in> set ''pctl'' \<Longrightarrow> \<exists>v. c_atoi arg = Some v \<and> - (2 ^ 31) \<le> v \<and> v < 2 ^ 31"
    using Cons.prems(3,4) c_atoi_range by (auto simp: oa option_ok_def config_ok_def)
  show thesis
  proof (cases "opt \<in> set ''pctl''")
    case True
    then obtain v where v: "c_atoi arg = Some v" "- (2 ^ 31) \<le> v" "v < 2 ^ 31" using ok(4) by blast
    from True consider "opt = CHR ''p''" | "opt = CHR ''c''" | "opt = CHR ''t''" | "opt = CHR ''l''" by auto
    then show thesis
    proof cases
      case 1 then show thesis using v ok by (intro rec [of "cfg\<lparr>port := v\<rparr>"]) (simp_all add: oa config_ok_def int_config_def)
    next
      case 2 then show thesis using v ok by (intro rec [of "cfg\<lparr>max_clients := v\<rparr>"]) (simp_all add: oa config_ok_def int_config_def)
    next
      case 3 then show thesis using v ok by (intro rec [of "cfg\<lparr>socket_timeout := v\<rparr>"]) (simp_all add: oa config_ok_def int_config_def)
    next
      case 4 then show thesis
        using v ok by (intro rec [of "cfg\<lparr>cfg_log_level := word_of_int v\<rparr>"]) (simp_all add: oa config_ok_def int_config_def)
    qed
  next
    case False
    show thesis
    proof (cases "opt = CHR ''f''")
      case True
      obtain f where "c_strncpy (cfg_log_file cfg) arg 255 = Some f" "path_ok f" using copy_path_ok ok(1,2) by blast
      with True ok show thesis
        by (intro rec [of "cfg\<lparr>cfg_log_file := f\<rparr>"]) (simp_all add: oa config_ok_def int_config_def)
    next
      case False
      with \<open>opt \<notin> set ''pctl''\<close> show thesis
        by (intro Cons.prems(2) [of "if opt = CHR ''h'' then EXIT_SUCCESS else EXIT_FAILURE"]) (simp_all add: oa)
    qed
  qed
qed simp

section \<open>Descriptors\<close>

text \<open>The sockets the program obtained, in order.\<close>

fun opened_of :: "sys_call \<times> sys_reply \<Rightarrow> int list" where
  "opened_of (SysSocket, r) = (if 0 \<le> ret r then [ret r] else [])"
| "opened_of (SysAccept s, r) = (if 0 \<le> ret r then [ret r] else [])"
| "opened_of _ = []"

definition opened :: "world \<Rightarrow> int list" where
  "opened w = concat (map opened_of (trace w))"

lemma opened_docall: "opened (docall os c w) = opened w @ opened_of (c, os (trace w) c)"
  by (simp add: opened_def)

lemma opened_get_time [simp]: "opened (snd (get_time os w)) = opened w"
  by (simp add: opened_def)

lemma opened_update [simp]: "opened (w\<lparr>log_file := l\<rparr>) = opened w" "opened (w\<lparr>minimum_level := m\<rparr>) = opened w"
  by (simp_all add: opened_def)

lemma opened_quiet: "quiet w w' \<Longrightarrow> opened w' = opened w"
proof -
  assume "quiet w w'"
  then obtain l where l: "trace w' = trace w @ l" "list_all (log_call \<circ> fst) l" by (auto simp: quiet_def)
  have "opened_of (c, r) = []" if "log_call c" for c r using that by (cases c) auto
  then have "concat (map opened_of l) = []" using l(2) by (auto simp: concat_eq_Nil_conv list_all_iff)
  with l(1) show ?thesis by (simp add: opened_def)
qed

lemma opened_log: "log_message os lvl f args w = Some w' \<Longrightarrow> lvl \<noteq> LOG_FATAL \<Longrightarrow> opened w' = opened w"
  by (auto dest: log_message_quiet opened_quiet)

lemmas opened_simps = opened_docall snd_syscall bind_eq_Some_conv Let_def case_prod_unfold

lemma opened_setup_socket:
  "setup_socket os ctx w = Some (rc, w') \<Longrightarrow>
   opened w' = opened w @ (if 0 \<le> ret (os (trace w) SysSocket) then [ret (os (trace w) SysSocket)] else [])"
  by (auto simp: setup_socket_def opened_simps dest!: opened_log split: if_split_asm)

lemma opened_accept_client:
  assumes "accept_client os (Some ctx) w = Some (rc, c, w')"
  shows "opened w' = opened w @ (if 0 \<le> ret (os (trace w) (SysAccept (server_socket ctx)))
    then [ret (os (trace w) (SysAccept (server_socket ctx)))] else [])"
  using assms
  by (auto simp: accept_client_def add_client_def opened_simps dest!: opened_log split: if_split_asm)

lemma opened_read_running: "read_running os r w = Some (r', w') \<Longrightarrow> opened w' = opened w"
  by (auto simp: read_running_def signal_handler_def opened_simps dest!: opened_log split: if_split_asm)

lemma opened_close_clients: "close_clients_loop os j n cs w = Some (cs', w') \<Longrightarrow> opened w' = opened w"
  by (induction os j n cs w rule: close_clients_loop.induct) (auto simp: opened_simps split: if_split_asm)

lemma opened_stop_server: "stop_server os (Some ctx) w = Some (c, w') \<Longrightarrow> opened w' = opened w"
  by (auto simp: stop_server_def opened_simps dest!: opened_log opened_close_clients split: if_split_asm)

text \<open>Steps that neither obtain nor release a socket and leave no lock taken.\<close>

definition calm :: "world \<Rightarrow> world \<Rightarrow> bool" where
  "calm w w' \<longleftrightarrow> opened w' = opened w \<and> closes w' = closes w \<and> (held w = Some [] \<longrightarrow> held w' = Some [])"

lemma calm_refl [simp]: "calm w w"
  by (simp add: calm_def)

lemma calm_trans: "calm a b \<Longrightarrow> calm b c \<Longrightarrow> calm a c"
  by (simp add: calm_def)

lemma calm_quiet: "quiet w w' \<Longrightarrow> calm w w'"
  by (simp add: calm_def opened_quiet quiet_projections held_quiet [of w w' "[]"])

lemma calm_docall: "\<not> lock_call c \<Longrightarrow> (\<And>r. opened_of (c, r) = [] \<and> closed_of (c, r) = []) \<Longrightarrow> calm w (docall os c w)"
  by (simp add: calm_def opened_docall docall_projections)

lemma calm_update: "calm w (w\<lparr>log_file := l\<rparr>)" "calm w (w\<lparr>minimum_level := m\<rparr>)"
  by (simp_all add: calm_def closes_def held_def)

lemma calm_log:
  "list_all arg_ok args \<Longrightarrow> lvl \<noteq> LOG_FATAL \<Longrightarrow> \<exists>w'. log_message os lvl f args w = Some w' \<and> calm w w'"
  using log_message_quiet_total calm_quiet by blast

lemma calm_server_usage: "calm w (server_usage os prog w)"
proof -
  have "calm w (print_lines os ls w)" for ls
  proof (induction ls arbitrary: w)
    case (Cons l ls)
    then show ?case using calm_trans [OF calm_docall [of "SysPrint (fst l) (snd l)" w os] Cons] by simp
  qed simp
  then show ?thesis unfolding server_usage_def .
qed

lemma calm_init_logger:
  assumes "terminated path"
  shows "\<exists>rc w'. init_logger os (Some path) lvl w = Some (rc, w') \<and> calm w w'"
proof (cases "LogLevel_of lvl")
  case None
  then show ?thesis by (auto simp: init_logger_def intro: calm_docall)
next
  case (Some l)
  define w2 where "w2 = docall os (SysFopen path) (w\<lparr>minimum_level := l\<rparr>)"
  have w2: "calm w (w2\<lparr>log_file := t\<rparr>)" for t
    using calm_trans [OF calm_trans [OF calm_update(2) calm_docall] calm_update(1)] by (simp add: w2_def)
  obtain w3 where "log_message os LOG_INFO ''Logger initialized with minimum level: %s''
      [LLit (level_string l)] (w2\<lparr>log_file := File (ret (os (trace w) (SysFopen path)))\<rparr>) = Some w3"
    "calm (w2\<lparr>log_file := File (ret (os (trace w) (SysFopen path)))\<rparr>) w3"
    using calm_log [of "[LLit (level_string l)]" LOG_INFO] by fastforce
  then show ?thesis
    using Some assms calm_trans [OF w2] calm_docall [of "SysStderr ''Failed to open log file: %s'' [LStr path]"]
    by (auto simp: init_logger_def sys_pair Let_def w2_def [symmetric])
qed

lemma calm_close_logger: "\<exists>w'. close_logger os w = Some w' \<and> calm w w'"
proof (cases "log_file w")
  case (File h)
  obtain w1 where "log_message os LOG_INFO ''Closing logger'' [] w = Some w1" "calm w w1"
    using calm_log [of "[]" LOG_INFO] by fastforce
  then show ?thesis
    using File calm_trans [OF _ calm_trans [OF calm_docall [of "SysFclose h"] calm_update(1)]]
    by (auto simp: close_logger_def)
qed (simp_all add: close_logger_def)

lemma calm_init_locks: "calm w (snd (init_locks os ls w))"
proof (induction os ls w rule: init_locks.induct)
  case (2 os l ls w)
  have c: "calm w (docall os (SysMutexInit l) w)" by (rule calm_docall) simp_all
  then show ?case using 2 calm_trans [OF c] by (simp add: sys_pair)
qed simp

lemma calm_calloc: "calm w (snd (c_calloc os n sz w))"
  by (simp add: c_calloc_def Let_def case_prod_unfold snd_syscall calm_docall)

lemma calm_initialize:
  "\<exists>c w'. initialize_server_context os cfg w = Some (c, w') \<and> calm w w'"
proof -
  let ?w1 = "snd (c_calloc os 1 sizeof_ServerContext w)"
  let ?w2 = "snd (c_calloc os (max_clients cfg) sizeof_ClientConnection ?w1)"
  let ?w3 = "snd (init_locks os [''stats_mutex'', ''clients_mutex'', ''market_data_lock'',
      ''order_book_lock'', ''position_lock''] ?w2)"
  have c2: "calm w ?w2" and c3: "calm w ?w3"
    using calm_trans [OF calm_calloc calm_calloc] calm_trans [OF _ calm_init_locks] by blast+
  have log: "\<exists>v'. log_message os LOG_ERROR f [] v = Some v' \<and> calm w v'" if "calm w v" for f v
    using calm_log [of "[]" LOG_ERROR] calm_trans [OF that] by fastforce
  have free: "calm w (docall os (SysFree l) v)" if "calm w v" for l v
    using calm_trans [OF that calm_docall] by simp
  define c where "c = (fst (c_calloc os 1 sizeof_ServerContext w),
    fst (c_calloc os (max_clients cfg) sizeof_ClientConnection ?w1),
    fst (init_locks os [''stats_mutex'', ''clients_mutex'', ''market_data_lock'', ''order_book_lock'', ''position_lock''] ?w2))"
  note eq = initialize_server_context_def Let_def case_prod_unfold
  obtain v1 v2 v3 where v: "log_message os LOG_ERROR ''Failed to allocate server context'' [] ?w1 = Some v1" "calm w v1"
    "log_message os LOG_ERROR ''Failed to allocate client array'' [] ?w2 = Some v2" "calm w v2"
    "log_message os LOG_ERROR ''Failed to initialize locks'' [] ?w3 = Some v3" "calm w v3"
    using log [OF calm_calloc] log [OF c2] log [OF c3] by metis
  consider "fst c = None" | "fst c \<noteq> None" "fst (snd c) = None" | n where "fst c \<noteq> None" "fst (snd c) = Some n" by blast
  then show ?thesis
  proof cases
    case 1
    then show ?thesis using v by (simp add: eq c_def)
  next
    case 2
    then show ?thesis using v free by (auto simp: eq c_def simp del: init_locks.simps)
  next
    case 3
    show ?thesis
    proof (cases "snd (snd c)")
      case True
      with 3 show ?thesis using c3 by (auto simp: eq c_def simp del: init_locks.simps)
    next
      case False
      with 3 show ?thesis using v(5) free [OF free [OF v(6)]] by (auto simp: eq c_def simp del: init_locks.simps)
    qed
  qed
qed

text \<open>The sockets a server owns, and the books: what was obtained was closed or is owned, once.\<close>

definition owned :: "ServerContext \<Rightarrow> int list" where
  "owned ctx = (if 0 \<le> server_socket ctx then [server_socket ctx] else []) @ connections ctx"

definition balanced :: "ServerContext \<Rightarrow> world \<Rightarrow> bool" where
  "balanced ctx w \<longleftrightarrow> mset (opened w) = mset (closes w) + mset (owned ctx)"

lemma balanced_accept:
  assumes "table_inv cfg ctx" "balanced ctx w" "accept_client os (Some ctx) w = Some (rc, Some ctx', w')"
  shows "balanced ctx' w'"
proof -
  note o = opened_accept_client [OF assms(3)] and c = accept_connected [OF assms(1,3)]
  from assms(1) show ?thesis
  proof (cases rule: accept_client_cases [of cfg ctx os w])
    case (added ctx1 w1)
    then show ?thesis using assms o c by (auto simp: balanced_def owned_def)
  qed (use assms o in \<open>auto simp: balanced_def\<close>)
qed

lemma balanced_accept_turn:
  assumes "table_inv cfg ctx" "balanced ctx w" "accept_turn os running ctx w = Some (ctx', w')"
  shows "balanced ctx' w'"
proof -
  from assms(3) obtain w1 rc w2 where w1: "log_message os LOG_DEBUG ''Server running: %d'' [LInt running] w = Some w1"
    and a: "accept_client os (Some ctx) w1 = Some (rc, Some ctx', w2)"
    and r: "w' = w2 \<or> w' = docall os (SysUsleep 9000000) w2
      \<or> log_message os LOG_ERROR ''Failed to accept client connection: %s'' [LErrno (errno w2)] w2 = Some w'"
    by (auto simp: accept_turn_def bind_eq_Some_conv split: if_splits)
  have "calm w w1" using log_message_quiet [OF w1] by (simp add: calm_quiet)
  then have "balanced ctx w1" using assms(2) by (simp add: balanced_def calm_def)
  then have "balanced ctx' w2" by (rule balanced_accept [OF assms(1) _ a])
  moreover have "calm w2 w'"
    using r by (auto intro: calm_docall calm_quiet log_message_quiet)
  ultimately show ?thesis by (simp add: balanced_def calm_def)
qed

lemma balanced_accept_loop:
  assumes "table_inv cfg ctx" "balanced ctx w" "accept_loop os n (running, ctx, w) = Some (Inr (r', ctx', w'))"
  shows "balanced ctx' w'"
  using assms
proof (induction n arbitrary: running ctx w)
  case (Suc n)
  from Suc.prems(3) obtain running' w1 where rr: "read_running os running w = Some (running', w1)"
    by (auto simp: bind_eq_Some_conv)
  have "closes w1 = closes w" using read_running_total [of os running w] rr by auto
  then have b: "balanced ctx w1" using Suc.prems(2) opened_read_running [OF rr] by (simp add: balanced_def)
  show ?case
  proof (cases "running' = 0")
    case True
    then show ?thesis using Suc.prems(3) rr b by auto
  next
    case False
    with Suc.prems(3) rr obtain ctx1 w2 where t: "accept_turn os running' ctx w1 = Some (ctx1, w2)"
      "accept_loop os n (running', ctx1, w2) = Some (Inr (r', ctx', w'))"
      by (auto simp: bind_eq_Some_conv)
    have "table_inv cfg ctx1" using accept_turn_table [OF Suc.prems(1), of os running' w1] t(1) by auto
    from Suc.IH [OF this balanced_accept_turn [OF Suc.prems(1) b t(1)] t(2)] show ?thesis .
  qed
qed simp

lemma accept_loop_table:
  assumes "table_inv cfg ctx" "accept_loop os n (running, ctx, w) = Some (Inr (r', ctx', w'))"
  shows "table_inv cfg ctx'"
  using assms
proof (induction n arbitrary: running ctx w)
  case (Suc n)
  then obtain running' w1 where rr: "read_running os running w = Some (running', w1)"
    by (auto simp: bind_eq_Some_conv)
  obtain ctx1 w2 where "accept_turn os running' ctx w1 = Some (ctx1, w2)" "table_inv cfg ctx1"
    using accept_turn_table [OF Suc.prems(1), of os running' w1] by blast
  then show ?case using Suc rr by (auto split: if_splits)
qed simp

lemma balanced_stop_server:
  assumes "table_inv cfg ctx" "balanced ctx w" "stop_server os (Some ctx) w = Some (Some ctx', w')"
  shows "mset (opened w') = mset (closes w')" "owned ctx' = []"
proof -
  have "client_count ctx \<le> int (length (clients ctx))" using assms(1) by (simp add: table_inv_def)
  from stop_server_spec [OF this, of os w] assms(3)
  have c: "closes w' = closes w @ owned ctx" "client_count ctx' = 0" "server_socket ctx' < 0"
    by (auto simp: owned_def connections_def)
  then show "owned ctx' = []" by (simp add: owned_def connections_def)
  show "mset (opened w') = mset (closes w')"
    using opened_stop_server [OF assms(3)] assms(2) c(1) by (simp add: balanced_def)
qed

lemma balanced_setup:
  assumes "setup_socket os ctx w = Some (sock, w')" "mset (opened w) = mset (closes w)"
  shows "mset (opened w') = mset (closes w') + mset (if 0 \<le> sock then [sock] else [])"
  using setup_socket_cases [of os ctx w] opened_setup_socket [OF assms(1)] assms
  by (auto split: if_splits)

lemma balanced_run:
  assumes "table_inv cfg ctx" "balanced ctx w" "accept_loop os n (running, ctx, w) = Some (Inr (running', ctx1, w1))"
    and "stop_server os (Some ctx1) w1 = Some (Some ctx', w')"
  shows "mset (opened w') = mset (closes w') \<and> owned ctx' = []"
  using balanced_stop_server [OF _ _ assms(4)] balanced_accept_loop [OF _ _ assms(3)] accept_loop_table [OF _ assms(3)]
    assms(1,2) by blast

lemma start_server_balanced:
  assumes "table_inv cfg ctx" "client_count ctx = 0" "mset (opened w) = mset (closes w)"
    and "start_server os n running (Some ctx) w = Some (Inr (rc, running', Some ctx', w'))"
  shows "mset (opened w') = mset (closes w') \<and> owned ctx' = []"
proof -
  from assms(4) obtain w1 where w1: "log_message os LOG_INFO ''Starting server on port %d'' [LInt (port (config ctx))] w = Some w1"
    by (auto simp: start_server_def bind_eq_Some_conv)
  define w2 where "w2 = docall os (SysSigaction SIGTERM) (docall os (SysSigaction SIGINT) w1)"
  have "calm w1 w2" unfolding w2_def by (rule calm_trans [OF calm_docall calm_docall]) simp_all
  then have c2: "calm w w2" using calm_trans calm_quiet [OF log_message_quiet [OF w1]] by blast
  obtain sock w3 where w3: "setup_socket os ctx w2 = Some (sock, w3)" using setup_socket_cases [of os ctx w2] by blast
  from balanced_setup [OF w3] c2 assms(3)
  have b3: "mset (opened w3) = mset (closes w3) + mset (if 0 \<le> sock then [sock] else [])" by (simp add: calm_def)
  note start = assms(4) [unfolded start_server_def option.case w1 bind.bind_lunit, folded w2_def, simplified w3 Let_def]
  show ?thesis
  proof (cases "sock < 0")
    case True
    with start have "calm w3 w'" "ctx' = ctx\<lparr>server_socket := sock\<rparr>"
      by (auto simp: bind_eq_Some_conv intro: calm_quiet log_message_quiet)
    then show ?thesis using True b3 assms(2) by (simp add: calm_def owned_def connections_def)
  next
    case False
    define w4 where "w4 = docall os (SysFcntl sock) (docall os (SysFcntl sock) w3)"
    define ctx2 where "ctx2 = ctx\<lparr>server_socket := sock, server_state := SERVER_RUNNING\<rparr>"
    from False start obtain w5 res where w5: "log_message os LOG_INFO ''Server started successfully'' [] w4 = Some w5"
      and res: "accept_loop os n (running, ctx2, w5) = Some res"
      "(case res of Inl st \<Rightarrow> Some (Inl st)
        | Inr (running, ctx3, w6) \<Rightarrow> stop_server os (Some ctx3) w6 \<bind> (\<lambda>(c, v). Some (Inr (0, running, c, v))))
          = Some (Inr (rc, running', Some ctx', w'))"
      by (auto simp: bind_eq_Some_conv w4_def ctx2_def)
    then obtain ctx3 w6 where run: "accept_loop os n (running, ctx2, w5) = Some (Inr (running', ctx3, w6))"
      "stop_server os (Some ctx3) w6 = Some (Some ctx', w')"
      by (cases res) (auto simp: bind_eq_Some_conv)
    have "calm w3 w4" unfolding w4_def by (rule calm_trans [OF calm_docall calm_docall]) simp_all
    then have "calm w3 w5" using calm_trans calm_quiet [OF log_message_quiet [OF w5]] by blast
    then have "balanced ctx2 w5"
      using b3 False assms(2) by (simp add: balanced_def owned_def calm_def ctx2_def connections_def)
    moreover have "table_inv cfg ctx2" using assms(1) by (simp add: ctx2_def table_inv_def)
    ultimately show ?thesis using balanced_run run by blast
  qed
qed

lemma cleanup_server_calm:
  assumes "table_inv cfg ctx" "owned ctx = []"
  shows "\<exists>w'. cleanup_server os (Some ctx) w = Some w' \<and> calm w w'"
proof -
  have "client_count ctx \<le> int (length (clients ctx))" using assms(1) by (simp add: table_inv_def)
  from stop_server_spec [OF this, of os w] obtain c w1 where w1: "stop_server os (Some ctx) w = Some (Some c, w1)"
    "closes w1 = closes w @ owned ctx" "held w = Some [] \<longrightarrow> held w1 = Some []"
    by (auto simp: owned_def connections_def)
  have c1: "calm w w1" using w1 assms(2) opened_stop_server [OF w1(1)] by (simp add: calm_def)
  let ?w5 = "docall os (SysFree ''context'') (docall os (SysFree ''clients'')
    (docall os (SysMutexDestroy ''clients_mutex'') (docall os (SysMutexDestroy ''stats_mutex'') w1)))"
  have free: "calm w1 (docall os (SysFree l) v)" "calm w1 (docall os (SysMutexDestroy l) v)" if "calm w1 v" for l v
    using calm_trans [OF that calm_docall] by simp_all
  have "calm w1 ?w5" by (intro free calm_refl)
  moreover obtain w' where "log_message os LOG_INFO ''Server resources cleaned up'' [] ?w5 = Some w'" "calm ?w5 w'"
    using calm_log [of "[]" LOG_INFO] by fastforce
  ultimately have "cleanup_server os (Some ctx) w = Some w'" "calm w w'"
    using w1(1) calm_trans [OF c1, OF calm_trans] by (simp_all add: cleanup_server_def)
  then show ?thesis by blast
qed

lemma run_server_exits:
  assumes "config_ok cfg" "signals_after k os" "k < n" "mset (opened w) = mset (closes w)" "held w = Some []"
  shows "\<exists>code w'. run_server os n cfg w = Some (Inr (code, w')) \<and> code \<in> {EXIT_SUCCESS, EXIT_FAILURE}
    \<and> mset (opened w') = mset (closes w') \<and> held w' = Some []"
proof -
  obtain cx w4 where w4: "initialize_server_context os cfg w = Some (cx, w4)" "calm w w4"
    using calm_initialize [of os cfg w] by blast
  have b4: "mset (opened w4) = mset (closes w4)" "held w4 = Some []" using w4(2) assms(4,5) by (simp_all add: calm_def)
  show ?thesis
  proof (cases cx)
    case None
    obtain w5 where "log_message os LOG_ERROR ''Failed to initialize server context'' [] w4 = Some w5" "calm w4 w5"
      using calm_log [of "[]" LOG_ERROR] by fastforce
    with None w4(1) b4 show ?thesis by (simp add: calm_def run_server_def)
  next
    case (Some ctx)
    have inv: "table_inv cfg ctx" "client_count ctx = 0"
      using initialize_table w4(1) assms(1) by (auto simp: Some config_ok_def)
    obtain rc running ctx' w5 where st: "start_server os n 1 (Some ctx) w4 = Some (Inr (rc, running, Some ctx', w5))"
      "held w5 = Some []" "table_inv cfg ctx'"
      using start_server_stops [OF inv(1) assms(2,3), of 1 w4] b4(2) by blast
    have b5: "mset (opened w5) = mset (closes w5)" "owned ctx' = []"
      using start_server_balanced [OF inv b4(1) st(1)] by simp_all
    obtain w6 where w6: "cleanup_server os (Some ctx') w5 = Some w6" "calm w5 w6"
      using cleanup_server_calm [OF st(3) b5(2)] by blast
    obtain w7 where w7: "close_logger os w6 = Some w7" "calm w6 w7" using calm_close_logger by blast
    have "calm w5 w7" using calm_trans [OF w6(2) w7(2)] .
    then have "mset (opened w7) = mset (closes w7)" "held w7 = Some []" using st(2) b5(1) by (simp_all add: calm_def)
    then show ?thesis using Some w4(1) st(1) w6(1) w7(1) by (simp add: run_server_def)
  qed
qed

section \<open>Properties\<close>



end
