(* ===== verification/Client_Program.thy ===== *)
theory Client_Program
  imports Client_Threads Server_Program
begin

text \<open>
  \<open>src/client/main.c\<close>: the options of the client, its callbacks and the prompt loop. The results of
  \<open>getopt_long\<close> are an argument as for the server; the reply to \<open>SysGets\<close> is a line of the standard
  input, or NULL (0) at its end. The run is that of the main thread.
\<close>

section \<open>Definitions\<close>

definition DEFAULT_RECONNECT_ATTEMPTS :: int where "DEFAULT_RECONNECT_ATTEMPTS = 3"

definition client_usage :: "os \<Rightarrow> byte list \<Rightarrow> world \<Rightarrow> world" where
  "client_usage os program_name w = print_lines os
     [(''Usage: %s [options]'', [LStr program_name]),
      (''Options:'', []),
      (''  -h, --host HOST       Server host (default: localhost)'', []),
      (''  -p, --port PORT       Server port (default: %d)'', [LInt DEFAULT_PORT]),
      (''  -t, --timeout SECS    Socket timeout (default: %d)'', [LInt DEFAULT_SOCKET_TIMEOUT]),
      (''  -l, --log-level LVL   Log level (0-5, default: 2)'', []),
      (''  -f, --log-file FILE   Log file path'', []),
      (''  --help                Show this help message'', [])] w"

text \<open>The bodies of the callbacks.\<close>

definition main_on_connect :: "os \<Rightarrow> world \<Rightarrow> world option" where
  "main_on_connect os w = log_message os LOG_INFO ''Connected to server'' [] w"

definition main_on_disconnect :: "os \<Rightarrow> world \<Rightarrow> world option" where
  "main_on_disconnect os w = log_message os LOG_INFO ''Disconnected from server'' [] w"

definition main_on_market_data :: "os \<Rightarrow> (int \<Rightarrow> double) \<Rightarrow> MarketData \<Rightarrow> world \<Rightarrow> world option" where
  "main_on_market_data os pow10 data w =
     log_message os LOG_INFO ''Market data for %s: Bid=%.2f, Ask=%.2f''
       [LStr (md_symbol data), LDbl (price_to_double pow10 (bid data)), LDbl (price_to_double pow10 (ask data))] w"

definition main_on_order_status :: "os \<Rightarrow> Order \<Rightarrow> world \<Rightarrow> world option" where
  "main_on_order_status os order w =
     log_message os LOG_INFO ''Order status update: ID=%lu, Status=%d''
       [LInt (uint (order_id order)), LInt (sint (status order))] w"

definition main_on_trade :: "os \<Rightarrow> (int \<Rightarrow> double) \<Rightarrow> TradeExecution \<Rightarrow> world \<Rightarrow> world option" where
  "main_on_trade os pow10 trade w =
     log_message os LOG_INFO ''Trade executed: ID=%lu, Price=%.2f, Quantity=%d''
       [LInt (uint (trade_id trade)), LDbl (price_to_double pow10 (trade_price trade)),
        LInt (sint (trade_quantity trade))] w"

definition client_defaults :: "ClientConfig option" where
  "client_defaults =
     do {
       host \<leftarrow> c_strncpy (replicate 256 0) (lit ''localhost'') 256;
       file \<leftarrow> c_strncpy (replicate 256 0) (lit ''./client.log'') 256;
       Some \<lparr>server_host = host, server_port = DEFAULT_PORT, reconnect_attempts = DEFAULT_RECONNECT_ATTEMPTS,
         cc_socket_timeout = DEFAULT_SOCKET_TIMEOUT, cc_log_level = 2, cc_log_file = file,
         cc_client_id = replicate MAX_CLIENT_ID_LENGTH 0\<rparr> }"

fun client_options ::
  "os \<Rightarrow> byte list \<Rightarrow> (char \<times> byte list) list \<Rightarrow> ClientConfig \<Rightarrow> world \<Rightarrow> ((int + ClientConfig) \<times> world) option" where
  "client_options os prog [] cfg w = Some (Inr cfg, w)"
| "client_options os prog ((opt, optarg) # opts) cfg w =
     (if opt = CHR ''h'' then do {
        h \<leftarrow> c_strncpy (server_host cfg) optarg 255; client_options os prog opts (cfg\<lparr>server_host := h\<rparr>) w }
      else if opt = CHR ''p'' then do {
        v \<leftarrow> c_atoi optarg; client_options os prog opts (cfg\<lparr>server_port := v\<rparr>) w }
      else if opt = CHR ''t'' then do {
        v \<leftarrow> c_atoi optarg; client_options os prog opts (cfg\<lparr>cc_socket_timeout := v\<rparr>) w }
      else if opt = CHR ''l'' then do {
        v \<leftarrow> c_atoi optarg; client_options os prog opts (cfg\<lparr>cc_log_level := word_of_int v\<rparr>) w }
      else if opt = CHR ''f'' then do {
        f \<leftarrow> c_strncpy (cc_log_file cfg) optarg 255; client_options os prog opts (cfg\<lparr>cc_log_file := f\<rparr>) w }
      else Some (Inl EXIT_FAILURE, client_usage os prog w))"

text \<open>\<open>fgets(buf, n, stdin)\<close>: at most \<open>n - 1\<close> bytes and a terminator.\<close>

definition fgets :: "os \<Rightarrow> nat \<Rightarrow> byte list \<Rightarrow> world \<Rightarrow> (byte list option \<times> world) option" where
  "fgets os n buf w =
     (let (r, w1) = syscall os (SysGets n) w
      in if ret r = 0 then Some (None, w1)
         else do {
           buf' \<leftarrow> store_at 0 (take (n - 1) (rbytes r) @ [0]) buf;
           Some (Some buf', w1) })"

text \<open>\<open>strcspn(str, c)\<close> for a set of one character.\<close>

fun c_strcspn :: "byte list \<Rightarrow> byte \<Rightarrow> nat option" where
  "c_strcspn [] c = None"
| "c_strcspn (b # bs) c = (if b = 0 \<or> b = c then Some 0 else map_option Suc (c_strcspn bs c))"

text \<open>One turn of the prompt loop; the flag tells whether it goes on.\<close>

definition prompt_turn ::
  "os \<Rightarrow> byte list \<Rightarrow> ClientContext \<Rightarrow> world \<Rightarrow> (bool \<times> byte list \<times> ClientContext \<times> world) option" where
  "prompt_turn os symbol ctx w =
     do {
       (line, w1) \<leftarrow> fgets os MAX_SYMBOL_LENGTH symbol w;
       (case line of
          None \<Rightarrow> Some (False, symbol, ctx, w1)
        | Some raw \<Rightarrow> do {
            i \<leftarrow> c_strcspn raw 10;
            symb \<leftarrow> store_at i [0] raw;
            is_quit \<leftarrow> c_streq symb (lit ''quit'');
            if is_quit
            then do {
              w2 \<leftarrow> log_message os LOG_INFO ''User requested to exit'' [] w1;
              Some (False, symb, ctx, w2) }
            else do {
              len \<leftarrow> c_strlen symb;
              if len = 0
              then do {
                w2 \<leftarrow> log_message os LOG_WARN ''Symbol cannot be empty'' [] w1;
                Some (True, symb, ctx,
                  docall os (SysPrint ''Enter a valid symbol (or 'quit' to exit): '' []) w2) }
              else do {
                (result, c, w2) \<leftarrow> request_market_data os (Some ctx) (Some symb) w1;
                ctx' \<leftarrow> c;
                w3 \<leftarrow> (if result \<noteq> code_of SUCCESS
                      then log_message os LOG_ERROR ''Failed to request market data for symbol: %s'' [LStr symb] w2
                      else Some w2);
                Some (True, symb, ctx',
                  docall os (SysPrint ''Enter symbol to subscribe (or 'quit' to exit): '' []) w3) } } }) }"

text \<open>The prompt loop cut off after \<open>n\<close> turns.\<close>

type_synonym prompt_run = "byte list \<times> ClientContext \<times> world"

fun prompt_loop :: "os \<Rightarrow> nat \<Rightarrow> prompt_run \<Rightarrow> (prompt_run + prompt_run) option" where
  "prompt_loop os 0 st = Some (Inl st)"
| "prompt_loop os (Suc n) (symbol, ctx, w) =
     do {
       (continue, symbol', ctx', w') \<leftarrow> prompt_turn os symbol ctx w;
       if continue then prompt_loop os n (symbol', ctx', w') else Some (Inr (symbol', ctx', w')) }"

definition main_callbacks :: ClientCallbacks where
  "main_callbacks = \<lparr>on_connect = True, on_disconnect = True, on_market_data = True,
     on_order_status = True, on_trade = True, on_error = False\<rparr>"

text \<open>The program from the connection on; \<open>symbol\<close> is the indeterminate content of the uninitialised line
  buffer.\<close>

definition client_run ::
  "os \<Rightarrow> nat \<Rightarrow> byte list \<Rightarrow> ClientContext \<Rightarrow> world \<Rightarrow> (prompt_run + int \<times> world) option" where
  "client_run os n symbol ctx w =
     do {
       (result, c, w1) \<leftarrow> connect_to_server os (Some ctx) w;
       if result \<noteq> code_of SUCCESS
       then do {
         w2 \<leftarrow> log_message os LOG_ERROR ''Failed to connect to server'' [] w1;
         w3 \<leftarrow> cleanup_client os c w2;
         w4 \<leftarrow> close_logger os w3;
         Some (Inr (EXIT_FAILURE, w4)) }
       else do {
         ctx1 \<leftarrow> c;
         run \<leftarrow> prompt_loop os n (symbol, ctx1,
           docall os (SysPrint ''Enter symbol to subscribe (or 'quit' to exit): '' []) w1);
         (case run of
            Inl st \<Rightarrow> Some (Inl st)
          | Inr (symbol', ctx2, w2) \<Rightarrow> do {
              w3 \<leftarrow> cleanup_client os (Some ctx2) w2;
              w4 \<leftarrow> close_logger os w3;
              w5 \<leftarrow> log_message os LOG_INFO ''Client terminated successfully'' [] w4;
              Some (Inr (EXIT_SUCCESS, w5)) }) } }"

text \<open>The whole program.\<close>

definition client_main ::
  "os \<Rightarrow> nat \<Rightarrow> byte list \<Rightarrow> byte list \<Rightarrow> (char \<times> byte list) list \<Rightarrow> world \<Rightarrow> (prompt_run + int \<times> world) option" where
  "client_main os n symbol prog opts w =
     do {
       cfg0 \<leftarrow> client_defaults;
       (parsed, w1) \<leftarrow> client_options os prog opts cfg0 w;
       (case parsed of
          Inl exit_code \<Rightarrow> Some (Inr (exit_code, w1))
        | Inr cfg \<Rightarrow> do {
            (rc, w2) \<leftarrow> init_logger os (Some (cc_log_file cfg)) (cc_log_level cfg) w1;
            if rc \<noteq> code_of SUCCESS
            then Some (Inr (EXIT_FAILURE, docall os (SysStderr ''Failed to initialize logger'' []) w2))
            else do {
              w3 \<leftarrow> log_message os LOG_INFO ''TradeSynth Client Starting...'' [] w2;
              (context, w4) \<leftarrow> initialize_client os (Some cfg) (Some main_callbacks) w3;
              (case context of
                 None \<Rightarrow> do {
                   w5 \<leftarrow> log_message os LOG_ERROR ''Failed to initialize client context'' [] w4;
                   w6 \<leftarrow> close_logger os w5;
                   Some (Inr (EXIT_FAILURE, w6)) }
               | Some ctx \<Rightarrow> client_run os n symbol ctx w4) } }) }"

section \<open>Reading a line\<close>

text \<open>What was typed, cut at 15 bytes, at the line end and at a zero byte.\<close>

definition typed :: "byte list \<Rightarrow> byte list" where
  "typed raw = takeWhile (\<lambda>b. b \<noteq> 0 \<and> b \<noteq> 10) (take 15 raw)"

fun line_of :: "sys_call \<times> sys_reply \<Rightarrow> byte list list" where
  "line_of (SysGets n, r) = (if ret r = 0 then [] else [typed (rbytes r)])"
| "line_of _ = []"

definition lines_read :: "world \<Rightarrow> byte list list" where
  "lines_read w = concat (map line_of (trace w))"

lemma lines_docall: "lines_read (docall os c w) = lines_read w @ line_of (c, os (trace w) c)"
  by (simp add: lines_read_def)

lemma lines_quiet: "quiet w w' \<Longrightarrow> lines_read w' = lines_read w"
proof -
  assume "quiet w w'"
  then obtain l where l: "trace w' = trace w @ l" "list_all (log_call \<circ> fst) l" by (auto simp: quiet_def)
  have "line_of (c, r) = []" if "log_call c" for c r using that by (cases c) auto
  then have "concat (map line_of l) = []" using l(2) by (auto simp: concat_eq_Nil_conv list_all_iff)
  with l(1) show ?thesis by (simp add: lines_read_def)
qed

lemma c_strcspn_spec:
  "terminated bs \<Longrightarrow> c_strcspn bs c = Some (length (takeWhile (\<lambda>b. b \<noteq> 0 \<and> b \<noteq> c) bs))"
  by (induction bs) (auto simp: terminated_def)

lemma takeWhile_terminator:
  "takeWhile (\<lambda>b. b \<noteq> 0 \<and> b \<noteq> 10) (xs @ 0 # ys) = takeWhile (\<lambda>b. b \<noteq> 0 \<and> b \<noteq> (10 :: byte)) xs"
  by (induction xs) auto

lemma c_str_typed [simp]: "c_str (typed raw @ 0 # ys) = typed raw" "length (typed raw) \<le> 15"
proof -
  have "b \<noteq> 0" if "b \<in> set (typed raw)" for b using set_takeWhileD [OF that [unfolded typed_def]] by simp
  then show "c_str (typed raw @ 0 # ys) = typed raw" by (simp add: c_str_def takeWhile_append)
  show "length (typed raw) \<le> 15" by (simp add: typed_def le_trans [OF length_takeWhile_le])
qed

text \<open>Cutting the line at the line end.\<close>

lemma cut_line:
  assumes "store_at 0 (take 15 raw @ [0]) buf = Some line" "length buf = 16"
  shows "\<exists>i symb. c_strcspn line 10 = Some i \<and> store_at i [0] line = Some symb
    \<and> length symb = 16 \<and> terminated symb \<and> c_str symb = typed raw"
proof -
  from assms have line: "line = take 15 raw @ 0 # drop (Suc (length (take 15 raw))) buf" "length line = 16"
    by (auto simp: store_at_def split: if_splits)
  have i: "c_strcspn line 10 = Some (length (typed raw))"
    using c_strcspn_spec [of line 10] by (simp add: line(1) takeWhile_terminator typed_def terminated_append)
  have pre: "take (length (typed raw)) line = typed raw"
  proof -
    have "length (typed raw) \<le> length (take 15 raw)" unfolding typed_def by (rule length_takeWhile_le)
    then have "take (length (typed raw)) line = take (length (typed raw)) (take 15 raw)" by (simp add: line(1))
    also have "\<dots> = typed raw" unfolding typed_def by (rule takeWhile_eq_take [symmetric])
    finally show ?thesis .
  qed
  then have "store_at (length (typed raw)) [0] line = Some (typed raw @ 0 # drop (Suc (length (typed raw))) line)"
    using line(2) c_str_typed(2) [of raw] by (simp add: store_at_def)
  then show ?thesis using i line(2) c_str_typed(2) [of raw]
    by (intro exI [of _ "length (typed raw)"] exI [of _ "typed raw @ 0 # drop (Suc (length (typed raw))) line"])
      (simp add: terminated_append)
qed

section \<open>A session\<close>

definition quit :: "byte list" where "quit = c_str (lit ''quit'')"

text \<open>The packet that asks for a symbol, and the symbols a session asks for.\<close>

definition request_packet :: "byte list \<Rightarrow> byte list" where
  "request_packet s = frame (MessageType_val MSG_MARKET_DATA) (s @ replicate (104 - length s) 0)"

definition requested :: "byte list list \<Rightarrow> byte list list" where
  "requested ls = filter (\<lambda>s. s \<noteq> []) (takeWhile (\<lambda>s. s \<noteq> quit) ls)"

lemma prompt_turn_eof:
  assumes "ret (os (trace w) (SysGets 16)) = 0"
  shows "prompt_turn os symbol ctx w = Some (False, symbol, ctx, docall os (SysGets 16) w)"
  using assms by (simp add: prompt_turn_def fgets_def sys_pair size_constants)

text \<open>Asking for a symbol: the packet, and the message about a failure.\<close>

lemma prompt_ask:
  fixes os w1 rep
  assumes "terminated symb" "length (c_str symb) \<le> 15" "cl_state ctx = CLIENT_CONNECTED"
  shows "\<exists>rc ctx' w2 w3. request_market_data os (Some ctx) (Some symb) w1 = Some (rc, Some ctx', w2)
    \<and> cl_state ctx' = CLIENT_CONNECTED \<and> cl_socket ctx' = cl_socket ctx
    \<and> (if rc \<noteq> code_of SUCCESS
        then log_message os LOG_ERROR ''Failed to request market data for symbol: %s'' [LStr symb] w2 else Some w2) = Some w3
    \<and> lines_read w3 = lines_read w1 \<and> closes w3 = closes w1
    \<and> sends w3 = sends w1 @ [(cl_socket ctx, request_packet (c_str symb))]"
proof -
  define w1' where "w1' = snd (get_time os w1)"
  let ?bs = "frame 6 (enc_MarketData (request_payload symb))"
  obtain w2 rc ctx' where rm: "request_market_data os (Some ctx) (Some symb) w1 = Some (rc, Some ctx', w2)"
    "quiet (docall os (SysSend (cl_socket ctx) ?bs) w1') w2" "cl_state ctx' = CLIENT_CONNECTED" "cl_socket ctx' = cl_socket ctx"
    using request_market_data_cases [OF assms(1,3), of os w1] assms(3) by (auto simp: w1'_def split: if_splits)
  have "?bs = request_packet (c_str symb)"
    using assms(2) by (simp add: enc_request_payload request_packet_def)
  then have p2: "sends w2 = sends w1 @ [(cl_socket ctx, request_packet (c_str symb))]" "closes w2 = closes w1"
    "lines_read w2 = lines_read w1"
    using lines_quiet [OF rm(2)] quiet_projections [OF rm(2)] lines_quiet [OF quiet_get_time [of w1 os]]
    by (simp_all add: lines_docall docall_projections w1'_def)
  obtain w3 where w3: "(if rc \<noteq> code_of SUCCESS
      then log_message os LOG_ERROR ''Failed to request market data for symbol: %s'' [LStr symb] w2 else Some w2) = Some w3"
    "quiet w2 w3"
    using log_message_quiet_total [of "[LStr symb]" LOG_ERROR os _ w2] assms(1) by (cases "rc = code_of SUCCESS") auto
  show ?thesis
    using rm(1,3,4) w3(1) p2 lines_quiet [OF w3(2)] quiet_projections [OF w3(2)]
    by (intro exI [of _ rc] exI [of _ ctx'] exI [of _ w2] exI [of _ w3]) simp
qed

lemma prompt_turn_line:
  fixes os w
  defines "r \<equiv> os (trace w) (SysGets 16)"
  assumes "ret r \<noteq> 0" "length symbol = 16" "cl_state ctx = CLIENT_CONNECTED"
  shows "\<exists>symb ctx' w'. prompt_turn os symbol ctx w = Some (typed (rbytes r) \<noteq> quit, symb, ctx', w')
    \<and> length symb = 16 \<and> cl_state ctx' = CLIENT_CONNECTED \<and> cl_socket ctx' = cl_socket ctx
    \<and> lines_read w' = lines_read w @ [typed (rbytes r)] \<and> closes w' = closes w
    \<and> sends w' = sends w @ map (\<lambda>s. (cl_socket ctx, request_packet s)) (requested [typed (rbytes r)])"
proof -
  let ?t = "typed (rbytes r)"
  define w1 where "w1 = docall os (SysGets 16) w"
  have p1: "lines_read w1 = lines_read w @ [?t]" "sends w1 = sends w" "closes w1 = closes w"
    using assms(2) by (simp_all add: w1_def lines_docall docall_projections r_def)
  obtain line where line: "store_at 0 (take 15 (rbytes r) @ [0]) symbol = Some line"
    using assms(3) by (auto simp: store_at_def)
  obtain i symb where s: "c_strcspn line 10 = Some i" "store_at i [0] line = Some symb" "length symb = 16"
    "terminated symb" "c_str symb = ?t" using cut_line [OF line assms(3)] by blast
  have q: "c_streq symb (lit ''quit'') = Some (?t = quit)"
    using s(4,5) by (simp add: c_streq_terminated quit_def)
  have len: "c_strlen symb = Some (length ?t)" using s(4,5) by (simp add: c_strlen_Some_iff)
  note turn = prompt_turn_def fgets_def sys_pair size_constants r_def [symmetric] w1_def [symmetric] line s(1,2) q len
  consider (quit) "?t = quit" | (empty) "?t \<noteq> quit" "?t = []" | (ask) "?t \<noteq> quit" "?t \<noteq> []" by blast
  then show ?thesis
  proof cases
    case quit
    obtain w2 where w2: "log_message os LOG_INFO ''User requested to exit'' [] w1 = Some w2" "quiet w1 w2"
      using log_message_quiet_total [of "[]" LOG_INFO os _ w1] by auto
    then show ?thesis
      using quit assms(2,4) s(3) p1 lines_quiet [OF w2(2)] quiet_projections [OF w2(2)]
      by (simp add: turn requested_def)
  next
    case empty
    obtain w2 where w2: "log_message os LOG_WARN ''Symbol cannot be empty'' [] w1 = Some w2" "quiet w1 w2"
      using log_message_quiet_total [of "[]" LOG_WARN os _ w1] by auto
    then show ?thesis
      using empty assms(2,4) s(3) p1 lines_quiet [OF w2(2)] quiet_projections [OF w2(2)]
      by (simp add: turn requested_def lines_docall docall_projections)
  next
    case ask
    obtain rc ctx' w2 w3 where ra: "request_market_data os (Some ctx) (Some symb) w1 = Some (rc, Some ctx', w2)"
      "cl_state ctx' = CLIENT_CONNECTED" "cl_socket ctx' = cl_socket ctx"
      "(if rc \<noteq> code_of SUCCESS
        then log_message os LOG_ERROR ''Failed to request market data for symbol: %s'' [LStr symb] w2 else Some w2) = Some w3"
      "lines_read w3 = lines_read w1" "closes w3 = closes w1" "sends w3 = sends w1 @ [(cl_socket ctx, request_packet ?t)]"
      using prompt_ask [OF s(4) _ assms(4), of os w1] s(5) c_str_typed(2) [of "rbytes r"] by auto
    show ?thesis
      using ask assms(2) s(3) p1 ra by (simp add: turn requested_def lines_docall docall_projections)
  qed
qed

text \<open>The state at the end of a bounded run.\<close>

fun prompt_world :: "prompt_run + prompt_run \<Rightarrow> world" where
  "prompt_world (Inl (symb, ctx, w)) = w"
| "prompt_world (Inr (symb, ctx, w)) = w"

fun prompt_ctx :: "prompt_run + prompt_run \<Rightarrow> ClientContext" where
  "prompt_ctx (Inl (symb, ctx, w)) = ctx"
| "prompt_ctx (Inr (symb, ctx, w)) = ctx"

lemma requested_Cons:
  "requested (l # ls) = (if l = quit then [] else requested [l] @ requested ls)"
  by (simp add: requested_def)

lemma prompt_loop_session:
  assumes "length symbol = 16" "cl_state ctx = CLIENT_CONNECTED"
  shows "\<exists>res ls. prompt_loop os n (symbol, ctx, w) = Some res
    \<and> lines_read (prompt_world res) = lines_read w @ ls
    \<and> sends (prompt_world res) = sends w @ map (\<lambda>s. (cl_socket ctx, request_packet s)) (requested ls)
    \<and> closes (prompt_world res) = closes w \<and> cl_socket (prompt_ctx res) = cl_socket ctx
    \<and> (\<forall>st. res = Inl st \<longrightarrow> length ls = n \<and> quit \<notin> set ls)"
  using assms
proof (induction n arbitrary: symbol ctx w)
  case 0
  show ?case by (intro exI [of _ "Inl (symbol, ctx, w)"] exI [of _ "[]"]) (simp add: requested_def)
next
  case (Suc n)
  show ?case
  proof (cases "ret (os (trace w) (SysGets 16)) = 0")
    case True
    then show ?thesis
      by (intro exI [of _ "Inr (symbol, ctx, docall os (SysGets 16) w)"] exI [of _ "[]"])
        (simp add: prompt_turn_eof lines_docall docall_projections requested_def)
  next
    case False
    let ?t = "typed (rbytes (os (trace w) (SysGets 16)))"
    obtain symb ctx' w' where t: "prompt_turn os symbol ctx w = Some (?t \<noteq> quit, symb, ctx', w')" "length symb = 16"
      "cl_state ctx' = CLIENT_CONNECTED" "cl_socket ctx' = cl_socket ctx" "lines_read w' = lines_read w @ [?t]"
      "closes w' = closes w" "sends w' = sends w @ map (\<lambda>s. (cl_socket ctx, request_packet s)) (requested [?t])"
      using prompt_turn_line [of os w, OF False Suc.prems] by blast
    show ?thesis
    proof (cases "?t = quit")
      case True
      then show ?thesis using t by (intro exI [of _ "Inr (symb, ctx', w')"] exI [of _ "[?t]"]) simp
    next
      case go: False
      from Suc.IH [OF t(2,3), of w'] obtain res ls where r: "prompt_loop os n (symb, ctx', w') = Some res"
        "lines_read (prompt_world res) = lines_read w' @ ls"
        "sends (prompt_world res) = sends w' @ map (\<lambda>s. (cl_socket ctx', request_packet s)) (requested ls)"
        "closes (prompt_world res) = closes w'" "cl_socket (prompt_ctx res) = cl_socket ctx'"
        "\<forall>st. res = Inl st \<longrightarrow> length ls = n \<and> quit \<notin> set ls"
        by (elim exE conjE) (rule that)
      have "prompt_loop os (Suc n) (symbol, ctx, w) = Some res" using t(1) r(1) go by simp
      moreover have "lines_read (prompt_world res) = lines_read w @ ?t # ls" by (simp add: r(2) t(5))
      moreover have "sends (prompt_world res) = sends w @ map (\<lambda>s. (cl_socket ctx, request_packet s)) (requested (?t # ls))"
        unfolding requested_Cons [of ?t ls] using go by (simp add: r(3) t(4,7))
      moreover have "\<forall>st. res = Inl st \<longrightarrow> length (?t # ls) = Suc n \<and> quit \<notin> set (?t # ls)" using r(6) go by auto
      ultimately show ?thesis using r(4,5) t(4,6)
        by (intro exI [of _ res] exI [of _ "?t # ls"] conjI) simp_all
    qed
  qed
qed

section \<open>The whole program\<close>

text \<open>Steps that send nothing, close nothing and read nothing from the standard input.\<close>

definition still :: "world \<Rightarrow> world \<Rightarrow> bool" where
  "still w w' \<longleftrightarrow> sends w' = sends w \<and> closes w' = closes w \<and> lines_read w' = lines_read w"

lemma still_refl [simp, intro]: "still w w"
  by (simp add: still_def)

lemma still_trans [trans]: "still a b \<Longrightarrow> still b c \<Longrightarrow> still a c"
  by (simp add: still_def)

lemma still_quiet: "quiet w w' \<Longrightarrow> still w w'"
  using quiet_projections lines_quiet by (simp add: still_def)

lemma still_docall:
  "(\<And>r. sent_of (c, r) = [] \<and> closed_of (c, r) = [] \<and> line_of (c, r) = []) \<Longrightarrow> still w (docall os c w)"
  by (simp add: still_def docall_projections lines_docall)

lemma still_update [simp]: "still w (w\<lparr>log_file := f\<rparr>)" "still w (w\<lparr>minimum_level := l\<rparr>)"
  by (simp_all add: still_def sends_def closes_def lines_read_def)

lemma still_log:
  assumes "list_all arg_ok args" "level \<noteq> LOG_FATAL"
  shows "\<exists>w'. log_message os level f args w = Some w' \<and> still w w'"
  using log_message_quiet_total [OF assms] still_quiet by blast

lemma lines_path: "performs main_call w [] w' \<Longrightarrow> lines_read w' = lines_read w"
proof -
  assume "performs main_call w [] w'"
  then obtain l where l: "trace w' = trace w @ l" "list_all (main_call \<circ> fst) l" by (auto simp: performs_def)
  have "line_of (c, r) = []" if "main_call c" for c r using that by (cases c) auto
  then have "concat (map line_of l) = []" using l(2) by (auto simp: concat_eq_Nil_conv list_all_iff)
  with l(1) show ?thesis by (simp add: lines_read_def)
qed

lemma init_logger_opens:
  assumes "LogLevel_of lvl = Some l" "terminated path" "\<forall>h p. ret (os h (SysFopen p)) \<noteq> 0"
  shows "\<exists>w'. init_logger os (Some path) lvl w = Some (code_of SUCCESS, w') \<and> still w w'"
proof -
  let ?w1 = "docall os (SysFopen path) (w\<lparr>minimum_level := l\<rparr>)"
  let ?w2 = "?w1\<lparr>log_file := File (ret (os (trace w) (SysFopen path)))\<rparr>"
  have "still w ?w2"
    using still_trans [OF still_trans [OF still_update(2) still_docall] still_update(1)] by simp
  moreover obtain w3 where "log_message os LOG_INFO ''Logger initialized with minimum level: %s''
      [LLit (level_string l)] ?w2 = Some w3" "still ?w2 w3"
    using still_log [of "[LLit (level_string l)]" LOG_INFO] by fastforce
  ultimately have "init_logger os (Some path) lvl w = Some (code_of SUCCESS, w3)" "still w w3"
    using assms still_trans by (auto simp: init_logger_def sys_pair Let_def)
  then show ?thesis by blast
qed

lemma close_logger_still: "\<exists>w'. close_logger os w = Some w' \<and> still w w'"
proof (cases "log_file w")
  case (File h)
  obtain w1 where w1: "log_message os LOG_INFO ''Closing logger'' [] w = Some w1" "still w w1"
    using still_log [of "[]" LOG_INFO] by fastforce
  have "still w ((docall os (SysFclose h) w1)\<lparr>log_file := NoFile\<rparr>)"
    using still_trans [OF w1(2) still_trans [OF still_docall still_update(1)]] by simp
  then show ?thesis using File w1(1) by (simp add: close_logger_def)
qed (simp_all add: close_logger_def)

lemma client_defaults_ok:
  "\<exists>cfg. client_defaults = Some cfg \<and> terminated (server_host cfg) \<and> terminated (cc_log_file cfg)
    \<and> LogLevel_of (cc_log_level cfg) = Some LOG_INFO"
proof -
  obtain h f where "c_strncpy (replicate 256 0) (lit ''localhost'') 256 = Some h" "path_ok h"
    "c_strncpy (replicate 256 0) (lit ''./client.log'') 256 = Some f" "path_ok f"
    using literal_path [of "''localhost''"] literal_path [of "''./client.log''"] by auto
  then show ?thesis by (simp add: client_defaults_def path_ok_terminated LogLevel_of_def)
qed

text \<open>Memory, mutexes and the log file are available.\<close>

definition process_up :: "os \<Rightarrow> bool" where
  "process_up os \<longleftrightarrow> (\<forall>h n. ret (os h (SysAlloc n)) \<noteq> 0) \<and> (\<forall>h l. ret (os h (SysMutexInit l)) = 0)
     \<and> (\<forall>h p. ret (os h (SysFopen p)) \<noteq> 0)"

text \<open>Up to the connection: the context the program connects with, and what is left to do.\<close>

lemma client_main_start:
  assumes "process_up os"
  shows "\<exists>ctx w4. terminated (server_host (cl_config ctx)) \<and> cl_state ctx = CLIENT_DISCONNECTED \<and> still w w4
    \<and> client_main os n symbol prog [] w = client_run os n symbol ctx w4"
proof -
  obtain cfg where cfg: "client_defaults = Some cfg" "terminated (server_host cfg)" "terminated (cc_log_file cfg)"
    "LogLevel_of (cc_log_level cfg) = Some LOG_INFO" using client_defaults_ok by blast
  have up: "\<forall>h n. ret (os h (SysAlloc n)) \<noteq> 0" "\<forall>h l. ret (os h (SysMutexInit l)) = 0"
    "\<forall>h p. ret (os h (SysFopen p)) \<noteq> 0"
    using assms by (simp_all add: process_up_def)
  obtain w2 where w2: "init_logger os (Some (cc_log_file cfg)) (cc_log_level cfg) w = Some (code_of SUCCESS, w2)" "still w w2"
    using init_logger_opens [OF cfg(4,3) up(3)] by blast
  obtain w3 where w3: "log_message os LOG_INFO ''TradeSynth Client Starting...'' [] w2 = Some w3" "still w2 w3"
    using still_log [of "[]" LOG_INFO] by fastforce
  obtain ctx w4 where w4: "initialize_client os (Some cfg) (Some main_callbacks) w3 = Some (Some ctx, w4)"
    "cl_config ctx = cfg" "cl_state ctx = CLIENT_DISCONNECTED" "closes w4 = closes w3" "sends w4 = sends w3"
    using initialize_client_up [OF up(1,2), of cfg "Some main_callbacks" w3] by auto
  have "still w w4"
    using w2(2) w3(2) w4(4,5) lines_path [OF initialize_client_path [OF w4(1)]] by (simp add: still_def)
  moreover have "client_main os n symbol prog [] w = client_run os n symbol ctx w4"
    by (simp add: client_main_def cfg(1) w2(1) w3(1) w4(1))
  ultimately show ?thesis using w4(2,3) cfg(2) by blast
qed

lemma connect_up:
  assumes "network_up os" "\<forall>h. ret (os h SysThreadCreate) = 0" "cl_state c = CLIENT_DISCONNECTED"
    "terminated (server_host (cl_config c))"
  shows "\<exists>c' w'. connect_to_server os (Some c) w = Some (code_of SUCCESS, Some c', w') \<and> 0 \<le> cl_socket c'
    \<and> cl_state c' = CLIENT_CONNECTED \<and> still w w'"
proof -
  obtain s w1 where s: "0 \<le> s" "closes w1 = closes w" "sends w1 = sends w" "connect_to_server os (Some c) w =
      map_option (\<lambda>(rc, c', w'). (rc, Some c', w')) (finish_connect os (c\<lparr>cl_socket := s\<rparr>) w1)"
    using connect_reaches_finish [OF assms(1) _ assms(4), of w] assms(3) by auto
  obtain c' w' where f: "finish_connect os (c\<lparr>cl_socket := s\<rparr>) w1 = Some (code_of SUCCESS, c', w')"
    "cl_socket c' = s" "cl_state c' = CLIENT_CONNECTED" "closes w' = closes w1" "sends w' = sends w1"
    using finish_connect_thread [of os, OF assms(2), of "c\<lparr>cl_socket := s\<rparr>" w1] assms(4) by auto
  then have con: "connect_to_server os (Some c) w = Some (code_of SUCCESS, Some c', w')" using s(4) by simp
  with s f show ?thesis using lines_path [OF connect_path [OF con]] by (simp add: still_def)
qed

lemma cleanup_lines: "cleanup_client os c w = Some w' \<Longrightarrow> lines_read w' = lines_read w"
  by (rule lines_path [OF cleanup_path])

text \<open>After the loop.\<close>

lemma client_main_end:
  assumes "0 \<le> cl_socket ctx"
  shows "\<exists>w'. do {
      w7 \<leftarrow> cleanup_client os (Some ctx) w;
      w8 \<leftarrow> close_logger os w7;
      w9 \<leftarrow> log_message os LOG_INFO ''Client terminated successfully'' [] w8;
      Some (Inr (EXIT_SUCCESS, w9)) } = Some (Inr (EXIT_SUCCESS, w'))
    \<and> sends w' = sends w \<and> lines_read w' = lines_read w \<and> closes w' = closes w @ [cl_socket ctx]"
proof -
  obtain w7 where w7: "cleanup_client os (Some ctx) w = Some w7" "sends w7 = sends w" "closes w7 = closes w @ [cl_socket ctx]"
    using cleanup_total [of os ctx w] assms by auto
  obtain w8 where w8: "close_logger os w7 = Some w8" "still w7 w8" using close_logger_still by blast
  obtain w9 where "log_message os LOG_INFO ''Client terminated successfully'' [] w8 = Some w9" "still w8 w9"
    using still_log [of "[]" LOG_INFO] by fastforce
  with w7 w8 show ?thesis using cleanup_lines [OF w7(1)] by (simp add: still_def)
qed

section \<open>Properties\<close>

text \<open>A session at the client's prompt, on a connected client: the loop is never stuck, and what it sends is
  determined by the lines it reads: one market-data request per non-empty line before the first
  \<open>quit\<close>, in order, on the client's socket, each carrying exactly the line (at most 15 bytes of it, the
  rest of a longer line being the next line). It returns at the end of the input or after \<open>quit\<close>: a
  loop still running after \<open>n\<close> turns has read \<open>n\<close> lines other than \<open>quit\<close>.\<close>

theorem prompt_session:
  assumes "length symbol = MAX_SYMBOL_LENGTH" "cl_state ctx = CLIENT_CONNECTED"
  shows "\<exists>res ls. prompt_loop os n (symbol, ctx, w) = Some res
    \<and> lines_read (prompt_world res) = lines_read w @ ls
    \<and> sends (prompt_world res) = sends w @ map (\<lambda>s. (cl_socket ctx, request_packet s)) (requested ls)
    \<and> closes (prompt_world res) = closes w
    \<and> (\<forall>st. res = Inl st \<longrightarrow> length ls = n \<and> quit \<notin> set ls)"
  using prompt_loop_session [of symbol ctx os n w] assms by (fastforce simp: size_constants)

text \<open>A user who types \<open>AAPL\<close> once and then \<open>quit\<close>.\<close>

definition typing_os :: os where
  "typing_os h c = \<lparr>ret = 124, err = 0,
     rbytes = (if list_ex (\<lambda>(c', r). c' = SysGets 16) h then lit ''quit'' else lit ''AAPL'')\<rparr>"

theorem prompt_session_witness:
  "\<exists>res ls. prompt_loop typing_os 3 (replicate 16 0, sample_client, fresh_world) = Some res
    \<and> lines_read (prompt_world res) = ls
    \<and> sends (prompt_world res) = map (\<lambda>s. (4, request_packet s)) (requested ls)"
proof -
  have c: "cl_state sample_client = CLIENT_CONNECTED" "cl_socket sample_client = 4"
    "lines_read fresh_world = []" "sends fresh_world = []" "length (replicate 16 (0 :: byte)) = MAX_SYMBOL_LENGTH"
    by (simp_all add: sample_client_def fresh_world_def lines_read_def sends_def size_constants)
  from prompt_session [OF c(5,1), of typing_os 3 fresh_world] show ?thesis unfolding c by auto
qed

text \<open>An environment in which everything works and the user types \<open>AAPL\<close> and \<open>quit\<close>, and one in which the
  server refuses connections.\<close>

definition session_os :: os where
  "session_os h c = (case c of SysGets n \<Rightarrow> typing_os h c | _ \<Rightarrow> client_os h c)"

definition refusing_os :: os where
  "refusing_os h c = (case c of SysConnect s a p \<Rightarrow> \<lparr>ret = -1, err = 111, rbytes = []\<rparr> | _ \<Rightarrow> client_os h c)"

lemma session_os_up:
  "process_up session_os" "network_up session_os" "\<forall>h. ret (session_os h SysThreadCreate) = 0"
  by (simp_all add: process_up_def network_up_def session_os_def client_os_def)

lemma refusing_os_up: "process_up refusing_os" "network_refuses refusing_os"
  by (simp_all add: process_up_def network_refuses_def refusing_os_def client_os_def EINPROGRESS_def)



text \<open>C28. When the server refuses the connection the client program returns 1 and sends nothing, but closes its
  socket twice: \<open>connect_to_server\<close> closes it and leaves its number in the context, and \<open>cleanup_client\<close>
  closes that number again.\<close>

theorem client_main_refused:
  assumes "process_up os" "network_refuses os"
  shows "\<exists>s w'. client_main os n symbol prog [] w = Some (Inr (EXIT_FAILURE, w'))
    \<and> closes w' = closes w @ [s, s] \<and> sends w' = sends w"
proof -
  obtain ctx w4 where main: "terminated (server_host (cl_config ctx))" "cl_state ctx = CLIENT_DISCONNECTED" "still w w4"
    "client_main os n symbol prog [] w = client_run os n symbol ctx w4" using client_main_start [OF assms(1)] by blast
  obtain s w5 where con: "0 \<le> s" "closes w5 = closes w4 @ [s]" "sends w5 = sends w4"
    "connect_to_server os (Some ctx) w4 = Some (code_of ERROR_SOCKET_CONNECT, Some (ctx\<lparr>cl_socket := s\<rparr>), w5)"
    using connect_refused [OF assms(2) _ main(1)] main(2) by fastforce
  obtain w6 where w6: "log_message os LOG_ERROR ''Failed to connect to server'' [] w5 = Some w6" "still w5 w6"
    using still_log [of "[]" LOG_ERROR] by fastforce
  obtain w7 where w7: "cleanup_client os (Some (ctx\<lparr>cl_socket := s\<rparr>)) w6 = Some w7" "sends w7 = sends w6"
    "closes w7 = closes w6 @ [s]" using cleanup_total [of os "ctx\<lparr>cl_socket := s\<rparr>" w6] con(1) by auto
  obtain w8 where "close_logger os w7 = Some w8" "still w7 w8" using close_logger_still by blast
  with main con w6 w7 show ?thesis
    by (intro exI [of _ s] exI [of _ w8]) (simp add: client_run_def still_def)
qed

theorem client_main_refused_witness:
  "\<exists>s w'. client_main refusing_os 0 [] [] [] fresh_world = Some (Inr (1, w')) \<and> closes w' = [s, s]"
proof -
  have "closes fresh_world = []" by (simp add: fresh_world_def closes_def)
  then show ?thesis
    using client_main_refused [OF refusing_os_up, of 0 "[]" "[]" fresh_world] by (auto simp: EXIT_FAILURE_def)
qed

end
