(* ===== verification/Examples.thy ===== *)
theory Examples
  imports Client_Program
begin

text \<open>
  The demonstration programs under \<open>examples/\<close>: the message client, the trading client and the trading
  server. The runs are those of the main threads. Uninitialised locals are arguments; the padding of
  initialised structs is taken as zero; \<open>sleep\<close> is \<open>usleep\<close> of as many microseconds; \<open>signal\<close> is
  recorded like \<open>sigaction\<close>.
\<close>

section \<open>The message client\<close>

text \<open>The literals \<open>150.50\<close>, \<open>150.45\<close>, \<open>150.55\<close>, \<open>280.75\<close>, \<open>280.70\<close> and \<open>280.80\<close>.\<close>

definition d_150_50 :: double where "d_150_50 = DFin False 5295247999369216 (-45)"
definition d_150_45 :: double where "d_150_45 = DFin False 5293488780764774 (-45)"
definition d_150_55 :: double where "d_150_55 = DFin False 5297007217973658 (-45)"
definition d_280_75 :: double where "d_280_75 = DFin False 4939006231969792 (-44)"
definition d_280_70 :: double where "d_280_70 = DFin False 4938126622667571 (-44)"
definition d_280_80 :: double where "d_280_80 = DFin False 4939885841272013 (-44)"

definition example_on_market_data :: "os \<Rightarrow> (int \<Rightarrow> double) \<Rightarrow> MarketData \<Rightarrow> world \<Rightarrow> world option" where
  "example_on_market_data os pow10 data w =
     log_message os LOG_INFO ''Received market data for %s: Bid %.2f, Ask %.2f''
       [LStr (md_symbol data), LDbl (price_to_double pow10 (bid data)), LDbl (price_to_double pow10 (ask data))] w"

definition example_on_trade :: "os \<Rightarrow> (int \<Rightarrow> double) \<Rightarrow> TradeExecution \<Rightarrow> world \<Rightarrow> world option" where
  "example_on_trade os pow10 trade w =
     log_message os LOG_INFO ''Trade executed: %s %.2f x %d''
       [LStr (trade_symbol trade), LDbl (price_to_double pow10 (trade_price trade)), LInt (sint (trade_quantity trade))] w"

definition example_on_error :: "os \<Rightarrow> byte list \<Rightarrow> world \<Rightarrow> world option" where
  "example_on_error os text w = log_message os LOG_ERROR ''Error occurred: %s'' [LStr text] w"

definition send_and_receive ::
  "os \<Rightarrow> byte list \<Rightarrow> Message \<Rightarrow> ClientContext \<Rightarrow> Message \<Rightarrow> world \<Rightarrow> (int \<times> world) option" where
  "send_and_receive os recv_buffer response client msg w =
     do {
       (serialized_size, send_buffer) \<leftarrow> serialize_message (Some msg) (Some (replicate BUFFER_SIZE 0)) BUFFER_SIZE;
       if serialized_size < 0
       then do {
         w1 \<leftarrow> log_message os LOG_ERROR ''Failed to serialize message'' [] w;
         Some (code_of ERROR_SERIALIZATION, w1) }
       else do {
         (sent, w1) \<leftarrow> send_data os (Some client) send_buffer (nat serialized_size) w;
         if sent \<noteq> serialized_size
         then do {
           w2 \<leftarrow> log_message os LOG_ERROR ''Failed to send message'' [] w1;
           Some (code_of ERROR_SOCKET_CONNECT, w2) }
         else do {
           w2 \<leftarrow> log_message os LOG_INFO ''Sent message type %d, sequence %lu''
             [LInt (sint (msg_type msg)), LInt (uint (sequence_num msg))] w1;
           (received, buffer, w3) \<leftarrow> receive_data os (Some client) (Some recv_buffer) BUFFER_SIZE w2;
           if received > 0
           then do {
             (rc, answer) \<leftarrow> deserialize_message buffer (nat received) (Some response);
             if rc = code_of SUCCESS
             then do {
               m \<leftarrow> answer;
               w4 \<leftarrow> log_message os LOG_INFO ''Received response type %d, sequence %lu''
                 [LInt (sint (msg_type m)), LInt (uint (sequence_num m))] w3;
               Some (code_of SUCCESS, w4) }
             else Some (code_of ERROR_SOCKET_CONNECT, w3) }
           else Some (code_of ERROR_SOCKET_CONNECT, w3) } } }"

text \<open>Two messages in a row, their results ignored.\<close>

definition send_both ::
  "os \<Rightarrow> byte list \<Rightarrow> Message \<Rightarrow> ClientContext \<Rightarrow> Message \<Rightarrow> Message \<Rightarrow> world \<Rightarrow> world option" where
  "send_both os rbuf resp client m1 m2 w =
     do {
       (rc1, w1) \<leftarrow> send_and_receive os rbuf resp client m1 w;
       (rc2, w2) \<leftarrow> send_and_receive os rbuf resp client m2 w1;
       Some w2 }"

text \<open>An order of the examples: the initialiser with its three calls of \<open>time\<close>, and the assignments after it.\<close>

definition example_order ::
  "os \<Rightarrow> (int \<Rightarrow> double) \<Rightarrow> 32 word \<Rightarrow> 64 word \<Rightarrow> OrderType \<Rightarrow> OrderSide \<Rightarrow> TimeInForce \<Rightarrow> 32 word \<Rightarrow> 64 word \<Rightarrow>
   string \<Rightarrow> double \<Rightarrow> world \<Rightarrow> (Order \<times> world) option" where
  "example_order os pow10 pad oid ty sd tif n life symb price w =
     (let (t1, w1) = get_time os w;
          (t2, w2) = get_time os w1;
          (t3, w3) = get_time os w2
      in do {
        s \<leftarrow> c_strncpy (replicate MAX_SYMBOL_LENGTH 0) (lit symb) MAX_SYMBOL_LENGTH;
        c \<leftarrow> c_strncpy (replicate MAX_CLIENT_ID_LENGTH 0) (lit ''CLIENT001'') MAX_CLIENT_ID_LENGTH;
        p \<leftarrow> double_to_price pow10 pad price;
        Some (zero_Order\<lparr>order_id := oid, order_symbol := s, client_id := c, order_type := OrderType_val ty,
          side := OrderSide_val sd, status := OrderStatus_val ORDER_STATUS_NEW, time_in_force := TimeInForce_val tif,
          order_price := p, quantity := n, filled_quantity := 0, remaining_quantity := n,
          creation_time := t1, modification_time := t2, expiration_time := t3 + life\<rparr>, w3) })"

text \<open>A message whose payload is given by its bytes.\<close>

definition example_message :: "os \<Rightarrow> MessageType \<Rightarrow> 64 word \<Rightarrow> byte list \<Rightarrow> world \<Rightarrow> Message \<times> world" where
  "example_message os ty seq payload w =
     (let (ts, w1) = get_time os w
      in (\<lparr>msg_type = MessageType_val ty, sequence_num = seq, msg_timestamp = ts, msg_data = init_data payload\<rparr>, w1))"

definition send_orders ::
  "os \<Rightarrow> (int \<Rightarrow> double) \<Rightarrow> 32 word \<Rightarrow> byte list \<Rightarrow> Message \<Rightarrow> ClientContext \<Rightarrow> world \<Rightarrow> world option" where
  "send_orders os pow10 pad rbuf resp client w =
     do {
       (buy_order, w1) \<leftarrow> example_order os pow10 pad 1001 ORDER_TYPE_MARKET ORDER_SIDE_BUY TIF_DAY 100 86400
         ''AAPL'' d_150_50 w;
       let (buy_msg, w2) = example_message os MSG_ORDER_NEW 1 (enc_Order buy_order) w1;
       (sell_order, w3) \<leftarrow> example_order os pow10 pad 1002 ORDER_TYPE_LIMIT ORDER_SIDE_SELL TIF_GTC 200 (86400 * 30)
         ''MSFT'' d_280_75 w2;
       let (sell_msg, w4) = example_message os MSG_ORDER_NEW 2 (enc_Order sell_order) w3;
       send_both os rbuf resp client buy_msg sell_msg w4 }"

definition example_market_data ::
  "os \<Rightarrow> (int \<Rightarrow> double) \<Rightarrow> 32 word \<Rightarrow> double \<Rightarrow> double \<Rightarrow> double \<Rightarrow> 32 word \<Rightarrow> 32 word \<Rightarrow> 32 word \<Rightarrow> 64 word \<Rightarrow> 32 word \<Rightarrow>
   string \<Rightarrow> world \<Rightarrow> (MarketData \<times> world) option" where
  "example_market_data os pow10 pad lp b a ls bs as vol trades symb w =
     do {
       pl \<leftarrow> double_to_price pow10 pad lp;
       pb \<leftarrow> double_to_price pow10 pad b;
       pa \<leftarrow> double_to_price pow10 pad a;
       let (ts, w1) = get_time os w;
       s \<leftarrow> c_strncpy (replicate MAX_SYMBOL_LENGTH 0) (lit symb) MAX_SYMBOL_LENGTH;
       Some (zero_MarketData\<lparr>md_symbol := s, last_price := pl, bid := pb, ask := pa, last_size := ls, bid_size := bs,
         ask_size := as, volume := vol, num_trades := trades, md_timestamp := ts\<rparr>, w1) }"

definition send_market_data ::
  "os \<Rightarrow> (int \<Rightarrow> double) \<Rightarrow> 32 word \<Rightarrow> byte list \<Rightarrow> Message \<Rightarrow> ClientContext \<Rightarrow> world \<Rightarrow> world option" where
  "send_market_data os pow10 pad rbuf resp client w =
     do {
       (data1, w1) \<leftarrow> example_market_data os pow10 pad d_150_50 d_150_45 d_150_55 100 500 700 1000000 1250 ''AAPL'' w;
       let (mkt_msg1, w2) = example_message os MSG_MARKET_DATA 3 (enc_MarketData data1) w1;
       (data2, w3) \<leftarrow> example_market_data os pow10 pad d_280_75 d_280_70 d_280_80 50 300 400 750000 980 ''MSFT'' w2;
       let (mkt_msg2, w4) = example_message os MSG_MARKET_DATA 4 (enc_MarketData data2) w3;
       send_both os rbuf resp client mkt_msg1 mkt_msg2 w4 }"

definition example_trade ::
  "os \<Rightarrow> (int \<Rightarrow> double) \<Rightarrow> 32 word \<Rightarrow> 64 word \<Rightarrow> 64 word \<Rightarrow> double \<Rightarrow> 32 word \<Rightarrow> string \<Rightarrow> string \<Rightarrow> string \<Rightarrow>
   world \<Rightarrow> (TradeExecution \<times> world) option" where
  "example_trade os pow10 pad tid oid price n symb buyer seller w =
     do {
       p \<leftarrow> double_to_price pow10 pad price;
       let (ts, w1) = get_time os w;
       s \<leftarrow> c_strncpy (replicate MAX_SYMBOL_LENGTH 0) (lit symb) MAX_SYMBOL_LENGTH;
       b \<leftarrow> c_strncpy (replicate MAX_CLIENT_ID_LENGTH 0) (lit buyer) MAX_CLIENT_ID_LENGTH;
       e \<leftarrow> c_strncpy (replicate MAX_CLIENT_ID_LENGTH 0) (lit seller) MAX_CLIENT_ID_LENGTH;
       Some (zero_TradeExecution\<lparr>trade_id := tid, trade_order_id := oid, trade_symbol := s, trade_price := p,
         trade_quantity := n, trade_timestamp := ts, buyer_id := b, seller_id := e\<rparr>, w1) }"

definition send_trade_executions ::
  "os \<Rightarrow> (int \<Rightarrow> double) \<Rightarrow> 32 word \<Rightarrow> byte list \<Rightarrow> Message \<Rightarrow> ClientContext \<Rightarrow> world \<Rightarrow> world option" where
  "send_trade_executions os pow10 pad rbuf resp client w =
     do {
       (trade1, w1) \<leftarrow> example_trade os pow10 pad 5001 1001 d_150_50 100 ''AAPL'' ''CLIENT001'' ''MARKET'' w;
       let (trade_msg1, w2) = example_message os MSG_TRADE_EXEC 5 (enc_TradeExecution trade1) w1;
       (trade2, w3) \<leftarrow> example_trade os pow10 pad 5002 1002 d_280_75 200 ''MSFT'' ''MARKET'' ''CLIENT001'' w2;
       let (trade_msg2, w4) = example_message os MSG_TRADE_EXEC 6 (enc_TradeExecution trade2) w3;
       send_both os rbuf resp client trade_msg1 trade_msg2 w4 }"

definition send_heartbeats :: "os \<Rightarrow> byte list \<Rightarrow> Message \<Rightarrow> ClientContext \<Rightarrow> world \<Rightarrow> world option" where
  "send_heartbeats os rbuf resp client w =
     (let (heartbeat1, w1) = example_message os MSG_HEARTBEAT 7 [] w;
          (heartbeat2, w2) = example_message os MSG_HEARTBEAT 8 [] w1
      in send_both os rbuf resp client heartbeat1 heartbeat2 w2)"

text \<open>The configuration both example clients build.\<close>

definition example_config :: "string \<Rightarrow> ClientConfig option" where
  "example_config name =
     do {
       host \<leftarrow> c_strncpy (replicate 256 0) (lit ''localhost'') 256;
       cid \<leftarrow> c_strncpy (replicate MAX_CLIENT_ID_LENGTH 0) (lit name) MAX_CLIENT_ID_LENGTH;
       Some \<lparr>server_host = host, server_port = 8080, reconnect_attempts = DEFAULT_RECONNECT_ATTEMPTS,
         cc_socket_timeout = DEFAULT_SOCKET_TIMEOUT, cc_log_level = 0, cc_log_file = replicate 256 0,
         cc_client_id = cid\<rparr> }"

definition message_client_main ::
  "os \<Rightarrow> (int \<Rightarrow> double) \<Rightarrow> 32 word \<Rightarrow> byte list \<Rightarrow> Message \<Rightarrow> world \<Rightarrow> (int \<times> world) option" where
  "message_client_main os pow10 pad rbuf resp w =
     do {
       (rc, w1) \<leftarrow> init_logger os (Some (lit ''client.log'')) 1 w;
       w2 \<leftarrow> log_message os LOG_INFO ''Starting example client...'' [] w1;
       cfg \<leftarrow> example_config ''EXAMPLE_CLIENT'';
       (context, w3) \<leftarrow> initialize_client os (Some cfg) (Some \<lparr>on_connect = True, on_disconnect = True,
         on_market_data = True, on_order_status = False, on_trade = True, on_error = True\<rparr>) w2;
       (case context of
          None \<Rightarrow> do {
            w4 \<leftarrow> log_message os LOG_ERROR ''Failed to create client context'' [] w3;
            Some (1, w4) }
        | Some client \<Rightarrow> do {
            (result, c, w4) \<leftarrow> connect_to_server os (Some client) w3;
            if result \<noteq> code_of SUCCESS
            then do {
              w5 \<leftarrow> log_message os LOG_ERROR ''Failed to connect to server'' [] w4;
              w6 \<leftarrow> cleanup_client os c w5;
              Some (1, w6) }
            else do {
              cl \<leftarrow> c;
              w5 \<leftarrow> log_message os LOG_INFO ''Connected to server, sending messages...'' [] w4;
              w6 \<leftarrow> send_orders os pow10 pad rbuf resp cl w5;
              w7 \<leftarrow> send_market_data os pow10 pad rbuf resp cl w6;
              w8 \<leftarrow> send_trade_executions os pow10 pad rbuf resp cl w7;
              w9 \<leftarrow> send_heartbeats os rbuf resp cl w8;
              w10 \<leftarrow> cleanup_client os c w9;
              w11 \<leftarrow> log_message os LOG_INFO ''Client shutdown complete'' [] w10;
              Some (0, w11) } }) }"

section \<open>The trading client\<close>

definition trading_on_trade :: "os \<Rightarrow> (int \<Rightarrow> double) \<Rightarrow> TradeExecution \<Rightarrow> world \<Rightarrow> world option" where
  "trading_on_trade os pow10 trade w =
     log_lines os LOG_INFO
       [(''Received trade execution:'', []),
        (''  Trade ID: %lu'', [LInt (uint (trade_id trade))]),
        (''  Order ID: %lu'', [LInt (uint (trade_order_id trade))]),
        (''  Symbol: %s'', [LStr (trade_symbol trade)]),
        (''  Price: %.2f'', [LDbl (price_to_double pow10 (trade_price trade))]),
        (''  Quantity: %u'', [LInt (uint (trade_quantity trade))]),
        (''  Buyer: %s'', [LStr (buyer_id trade)]),
        (''  Seller: %s'', [LStr (seller_id trade)])] w"

definition trading_client_main :: "os \<Rightarrow> (int \<Rightarrow> double) \<Rightarrow> 32 word \<Rightarrow> world \<Rightarrow> (int \<times> world) option" where
  "trading_client_main os pow10 pad w =
     do {
       (rc, w1) \<leftarrow> init_logger os (Some (lit ''client.log'')) 1 w;
       w2 \<leftarrow> log_message os LOG_INFO ''Starting trading example client...'' [] w1;
       cfg \<leftarrow> example_config ''CLIENT001'';
       (context, w3) \<leftarrow> initialize_client os (Some cfg)
         (Some (no_callbacks\<lparr>on_connect := True, on_trade := True\<rparr>)) w2;
       (case context of
          None \<Rightarrow> do {
            w4 \<leftarrow> log_message os LOG_ERROR ''Failed to create client context'' [] w3;
            Some (1, w4) }
        | Some client \<Rightarrow> do {
            (result, c, w4) \<leftarrow> connect_to_server os (Some client) w3;
            if result \<noteq> code_of SUCCESS
            then do {
              w5 \<leftarrow> log_message os LOG_ERROR ''Failed to connect to server'' [] w4;
              w6 \<leftarrow> cleanup_client os c w5;
              Some (1, w6) }
            else do {
              (order, w5) \<leftarrow> example_order os pow10 pad 12345 ORDER_TYPE_LIMIT ORDER_SIDE_BUY TIF_DAY 100 86400
                ''AAPL'' d_150_50 w4;
              (rc2, c2, w6) \<leftarrow> send_order os c (Some order) w5;
              if rc2 \<noteq> code_of SUCCESS
              then do {
                w7 \<leftarrow> log_message os LOG_ERROR ''Failed to send order'' [] w6;
                w8 \<leftarrow> cleanup_client os c2 w7;
                Some (1, w8) }
              else do {
                w7 \<leftarrow> log_message os LOG_INFO ''Sent order: ID=%lu, Symbol=%s, Price=%.2f, Quantity=%u, Side=%s''
                  [LInt (uint (order_id order)), LStr (order_symbol order),
                   LDbl (price_to_double pow10 (order_price order)), LInt (uint (quantity order)),
                   LLit (if side order = OrderSide_val ORDER_SIDE_BUY then ''BUY'' else ''SELL'')] w6;
                let w8 = docall os (SysUsleep 1000000) w7;
                w9 \<leftarrow> cleanup_client os c2 w8;
                w10 \<leftarrow> log_message os LOG_INFO ''Client shutdown complete'' [] w9;
                Some (0, w10) } } }) }"

section \<open>The trading server\<close>

definition example_handle_order :: "os \<Rightarrow> (int \<Rightarrow> double) \<Rightarrow> Order \<Rightarrow> int \<Rightarrow> world \<Rightarrow> world option" where
  "example_handle_order os pow10 order client_socket w =
     do {
       w1 \<leftarrow> log_lines os LOG_INFO
         [(''Received order:'', []),
          (''  Order ID: %lu'', [LInt (uint (order_id order))]),
          (''  Symbol: %s'', [LStr (order_symbol order)]),
          (''  Price: %.2f'', [LDbl (price_to_double pow10 (order_price order))]),
          (''  Quantity: %u'', [LInt (uint (quantity order))]),
          (''  Side: %s'', [LLit (if side order = OrderSide_val ORDER_SIDE_BUY then ''BUY'' else ''SELL'')]),
          (''  Type: %d'', [LInt (sint (order_type order))]),
          (''  Client ID: %s'', [LStr (client_id order)])] w;
       let (ts, w2) = get_time os w1;
       s \<leftarrow> c_strncpy (replicate MAX_SYMBOL_LENGTH 0) (order_symbol order) MAX_SYMBOL_LENGTH;
       let (ts2, w3) = get_time os w2;
       b \<leftarrow> c_strncpy (replicate MAX_CLIENT_ID_LENGTH 0) (client_id order) MAX_CLIENT_ID_LENGTH;
       e \<leftarrow> c_strncpy (replicate MAX_CLIENT_ID_LENGTH 0) (lit ''MARKET'') MAX_CLIENT_ID_LENGTH;
       let trade = zero_TradeExecution\<lparr>trade_id := 98765, trade_order_id := order_id order, trade_symbol := s,
             trade_price := order_price order, trade_quantity := quantity order, trade_timestamp := ts2,
             buyer_id := b, seller_id := e\<rparr>;
       let response = \<lparr>msg_type = MessageType_val MSG_TRADE_EXEC, sequence_num = 1, msg_timestamp = ts,
             msg_data = init_data (enc_TradeExecution trade)\<rparr>;
       (serialized_size, buffer) \<leftarrow> serialize_message (Some response) (Some (replicate BUFFER_SIZE 0)) BUFFER_SIZE;
       if serialized_size > 0
       then do {
         let w4 = docall os (SysSend client_socket (take (nat serialized_size) (the buffer))) w3;
         log_message os LOG_INFO ''Sent trade execution confirmation'' [] w4 }
       else Some w3 }"

definition example_handle_client_message ::
  "os \<Rightarrow> (int \<Rightarrow> double) \<Rightarrow> 32 word \<Rightarrow> Message \<Rightarrow> ServerContext \<Rightarrow> int \<Rightarrow> byte list \<Rightarrow> nat \<Rightarrow> world \<Rightarrow>
   (ServerContext \<times> world) option" where
  "example_handle_client_message os pow10 pad msg0 ctx client_socket data n w =
     do {
       (rc, m) \<leftarrow> deserialize_message (Some data) n (Some msg0);
       if rc = code_of SUCCESS
       then do {
         msg \<leftarrow> m;
         if msg_type msg = MessageType_val MSG_ORDER_NEW
         then do {
           (result, ctx', w1) \<leftarrow> process_order os pow10 pad ctx (data_order msg) w;
           if result = code_of SUCCESS
           then do {
             w2 \<leftarrow> example_handle_order os pow10 (data_order msg) client_socket w1;
             Some (ctx', w2) }
           else Some (ctx', w1) }
         else do {
           w1 \<leftarrow> log_message os LOG_WARN ''Unhandled message type: %d'' [LInt (sint (msg_type msg))] w;
           Some (ctx, w1) } }
       else do {
         w1 \<leftarrow> log_message os LOG_ERROR ''Failed to deserialize message'' [] w;
         Some (ctx, w1) } }"

text \<open>The handler a thread for slot \<open>i\<close> would run. \<open>free(client)\<close> gets a pointer into the table: for slot 0
  that is the table itself, for any other slot it is undefined.\<close>

definition example_client_handler ::
  "os \<Rightarrow> (int \<Rightarrow> double) \<Rightarrow> 32 word \<Rightarrow> byte list \<Rightarrow> Message \<Rightarrow> nat \<Rightarrow> ServerContext \<Rightarrow> world \<Rightarrow> (ServerContext \<times> world) option" where
  "example_client_handler os pow10 pad buffer msg0 i ctx w =
     (if length (clients ctx) \<le> i then None
      else do {
        w1 \<leftarrow> log_message os LOG_INFO ''New client connection thread started'' [] w;
        let (r, w2) = syscall os (SysRecv (c_socket (clients ctx ! i)) BUFFER_SIZE) w1;
        (ctx1, w3) \<leftarrow> (if ret r > 0
          then do {
            buf \<leftarrow> store_at 0 (take (nat (ret r)) (rbytes r)) buffer;
            example_handle_client_message os pow10 pad msg0 ctx (c_socket (clients ctx ! i)) buf (nat (ret r)) w2 }
          else Some (ctx, w2));
        let w4 = docall os (SysClose (c_socket (clients ctx1 ! i))) w3;
        if i = 0 then Some (ctx1, docall os (SysFree ''clients'') w4) else None })"

text \<open>\<open>while (server_running) sleep(1)\<close>, cut off after \<open>n\<close> turns; the flag tells whether it ended.\<close>

fun wait_loop :: "os \<Rightarrow> nat \<Rightarrow> int \<Rightarrow> world \<Rightarrow> (bool \<times> world) option" where
  "wait_loop os 0 running w = Some (False, w)"
| "wait_loop os (Suc n) running w =
     do {
       (running', w1) \<leftarrow> read_running os running w;
       if running' = 0 then Some (True, w1) else wait_loop os n running' (docall os (SysUsleep 1000000) w1) }"

text \<open>\<^term>\<open>Inl\<close>: still running at the bound.\<close>

definition trading_server_main :: "os \<Rightarrow> nat \<Rightarrow> world \<Rightarrow> (unit + int \<times> world) option" where
  "trading_server_main os n w =
     do {
       (rc, w1) \<leftarrow> init_logger os (Some (lit ''server.log'')) 1 w;
       w2 \<leftarrow> log_message os LOG_INFO ''Starting trading example server...'' [] w1;
       let cfg = \<lparr>port = 8080, max_clients = int MAX_CLIENTS, socket_timeout = 0, bind_address = replicate 16 0,
             cfg_log_level = 0, cfg_log_file = replicate 256 0, max_symbols = 0, max_orders_per_symbol = 0,
             position_limit = 0, client_handler = True\<rparr>;
       (context, w3) \<leftarrow> initialize_server_context os cfg w2;
       (case context of
          None \<Rightarrow> do {
            w4 \<leftarrow> log_message os LOG_ERROR ''Failed to initialize server context'' [] w3;
            Some (Inr (1, w4)) }
        | Some server \<Rightarrow> do {
            let w4 = docall os (SysSigaction SIGTERM) (docall os (SysSigaction SIGINT) w3);
            run \<leftarrow> start_server os n 1 (Some server) w4;
            (case run of
               Inl st \<Rightarrow> Some (Inl ())
             | Inr (result, running, c, w5) \<Rightarrow>
                 if result \<noteq> code_of SUCCESS
                 then do {
                   w6 \<leftarrow> log_message os LOG_ERROR ''Failed to start server'' [] w5;
                   w7 \<leftarrow> cleanup_server os c w6;
                   Some (Inr (1, w7)) }
                 else do {
                   w6 \<leftarrow> log_message os LOG_INFO ''Server listening on port %d'' [LInt (port cfg)] w5;
                   (ended, w7) \<leftarrow> wait_loop os n running w6;
                   if \<not> ended then Some (Inl ())
                   else do {
                     (c1, w8) \<leftarrow> stop_server os c w7;
                     w9 \<leftarrow> cleanup_server os c1 w8;
                     w10 \<leftarrow> log_message os LOG_INFO ''Server shutdown complete'' [] w9;
                     Some (Inr (0, w10)) } }) }) }"

section \<open>What the examples do\<close>

text \<open>The confirmation of the trading server is never sent: \<open>process_order\<close> never succeeds.\<close>

lemma example_confirmation_never_sent:
  assumes "example_handle_client_message os pow10 pad msg0 ctx s data n w = Some (ctx', w')" "wf_Message msg0"
  shows "sends w' = sends w"
proof -
  from assms(1) obtain rc m where d: "deserialize_message (Some data) n (Some msg0) = Some (rc, m)"
    by (auto simp: example_handle_client_message_def bind_eq_Some_conv)
  have log: "log_message os lvl f a w = Some v \<Longrightarrow> lvl \<noteq> LOG_FATAL \<Longrightarrow> sends v = sends w" for lvl f a v
    by (auto dest: log_message_quiet quiet_projections(1))
  show ?thesis
  proof (cases "rc = code_of SUCCESS \<and> (\<exists>msg. m = Some msg \<and> msg_type msg = MessageType_val MSG_ORDER_NEW)")
    case True
    then obtain msg where m: "m = Some msg" "msg_type msg = MessageType_val MSG_ORDER_NEW" by blast
    have "wf_Message msg" using deserialize_keeps_wf [OF d [unfolded m(1)]] assms(2) by simp
    then have wf: "wf_Order (data_order msg)" by (rule wf_data(1))
    from assms(1) d True m obtain result ctx1 w1 where
      p: "process_order os pow10 pad ctx (data_order msg) w = Some (result, ctx1, w1)"
      by (auto simp: example_handle_client_message_def bind_eq_Some_conv)
    from process_order_cases [OF wf p] have "result \<noteq> code_of SUCCESS" "quiet w w1" by auto
    then show ?thesis
      using assms(1) d True m p quiet_projections(1)
      by (auto simp: example_handle_client_message_def)
  next
    case False
    then show ?thesis using assms(1) d log
      by (auto simp: example_handle_client_message_def bind_eq_Some_conv split: if_splits)
  qed
qed

text \<open>Heartbeats have no wire image, so the message client sends none.\<close>

lemma send_and_receive_no_image:
  assumes "wf_Message m" "wire m = None"
  shows "\<exists>w'. send_and_receive os rbuf resp client m w = Some (code_of ERROR_SERIALIZATION, w') \<and> quiet w w'"
proof -
  obtain r where r: "r < 0" "serialize_message (Some m) (Some (replicate BUFFER_SIZE 0)) BUFFER_SIZE
      = Some (r, Some (replicate BUFFER_SIZE 0))"
    using tp.ser_None [OF assms, of "replicate BUFFER_SIZE 0"] by auto
  obtain w' where "log_message os LOG_ERROR ''Failed to serialize message'' [] w = Some w'" "quiet w w'"
    using log_message_quiet_total [of "[]" LOG_ERROR os _ w] by auto
  with r show ?thesis by (auto simp: send_and_receive_def)
qed

lemma heartbeats_never_sent: "\<exists>w'. send_heartbeats os rbuf resp client w = Some w' \<and> quiet w w'"
proof -
  let ?hb = "\<lambda>q w. fst (example_message os MSG_HEARTBEAT q [] w)"
  have hb: "wf_Message (?hb q w) \<and> wire (?hb q w) = None" for q w
    by (simp add: example_message_def case_prod_unfold Let_def wf_response wire_heartbeat)
  define w2 where "w2 = snd (get_time os (snd (get_time os w)))"
  have q2: "quiet w w2" unfolding w2_def using quiet_trans quiet_get_time by blast
  obtain w3 where w3: "send_and_receive os rbuf resp client (?hb 7 w) w2 = Some (code_of ERROR_SERIALIZATION, w3)" "quiet w2 w3"
    using send_and_receive_no_image hb by blast
  obtain w4 where w4: "send_and_receive os rbuf resp client (?hb 8 (snd (get_time os w))) w3
      = Some (code_of ERROR_SERIALIZATION, w4)" "quiet w3 w4"
    using send_and_receive_no_image hb by blast
  have "send_heartbeats os rbuf resp client w = Some w4"
    using w3(1) w4(1) by (simp add: send_heartbeats_def send_both_def example_message_def w2_def case_prod_unfold Let_def)
  then show ?thesis using quiet_trans [OF q2 quiet_trans [OF w3(2) w4(2)]] by blast
qed

text \<open>The example's client handler frees a pointer into the table: defined for slot 0 only, where it frees
  the whole table.\<close>

lemma example_client_handler_frees:
  "0 < i \<Longrightarrow> example_client_handler os pow10 pad buffer msg0 i ctx w = None"
  by (auto simp: example_client_handler_def Let_def case_prod_unfold split: Option.bind_split)

end
