(* ===== verification/Client_Session.thy ===== *)
theory Client_Session
  imports Client
begin

text \<open>
  A client process over time: the context that the application's thread and the receiver threads share,
  and the steps they take in any order. The application calls one function of \<open>client.c\<close> at a time;
  a receiver makes iterations of \<open>message_receiver_thread\<close> and then runs the code after its loop.
  \<open>disconnect_from_server\<close> blocks in \<open>pthread_join\<close>, so it is cut there: receivers take steps between
  its two halves. The other functions and the iterations are single steps.
\<close>

section \<open>Disconnecting in two halves\<close>

text \<open>Everything before the \<open>pthread_join\<close>, and everything after it.\<close>

definition disconnect_begin :: "os \<Rightarrow> ClientContext \<Rightarrow> world \<Rightarrow> ClientContext \<times> world" where
  "disconnect_begin os ctx w =
     (let ctx1 = ctx\<lparr>cl_running := 0\<rparr>;
          w1 = docall os (SysLock ''state_mutex'') w;
          (ctx2, w2) = (if cl_socket ctx1 \<ge> 0
            then (ctx1\<lparr>cl_socket := -1\<rparr>,
                  docall os (SysClose (cl_socket ctx1)) (docall os (SysShutdown (cl_socket ctx1)) w1))
            else (ctx1, w1))
      in (ctx2, docall os (SysUnlock ''state_mutex'') w2))"

definition disconnect_end :: "os \<Rightarrow> ClientContext \<Rightarrow> world \<Rightarrow> (ClientContext \<times> world) option" where
  "disconnect_end os ctx w =
     (let (ctx1, w1) = (if receiver_thread ctx \<noteq> 0
            then (ctx\<lparr>receiver_thread := 0\<rparr>, docall os (SysThreadJoin (receiver_thread ctx)) w)
            else (ctx, w));
          w2 = docall os (SysLock ''state_mutex'') w1;
          ctx2 = ctx1\<lparr>cl_state := CLIENT_DISCONNECTED\<rparr>;
          w3 = docall os (SysUnlock ''state_mutex'') w2
      in do {
        w4 \<leftarrow> log_message os LOG_INFO ''Disconnected from server'' [] w3;
        Some (ctx2, w4) })"

lemma disconnect_halves:
  "disconnect_from_server os (Some ctx) w =
     (let (ctx1, w1) = disconnect_begin os ctx w
      in map_option (\<lambda>(ctx2, w2). (Some ctx2, w2)) (disconnect_end os ctx1 w1))"
  by (simp add: disconnect_from_server_def disconnect_begin_def disconnect_end_def Let_def
      map_conv_bind_option comp_def)

lemma disconnect_begin_spec:
  "disconnect_begin os ctx w = (ctx', w') \<Longrightarrow>
   ctx' = ctx\<lparr>cl_running := 0, cl_socket := min (cl_socket ctx) (-1)\<rparr>
   \<and> closes w' = closes w @ (if cl_socket ctx \<ge> 0 then [cl_socket ctx] else [])
   \<and> callbacks_made w' = callbacks_made w \<and> sends w' = sends w"
  by (auto simp: disconnect_begin_def Let_def docall_projections min_def split: if_splits)

lemma disconnect_end_total:
  "\<exists>w'. disconnect_end os ctx w = Some (ctx\<lparr>receiver_thread := 0, cl_state := CLIENT_DISCONNECTED\<rparr>, w')
   \<and> closes w' = closes w \<and> callbacks_made w' = callbacks_made w \<and> sends w' = sends w"
proof -
  obtain v where "\<And>u. log_message os LOG_INFO ''Disconnected from server'' [] u = Some (v u)"
    "\<And>u. closes (v u) = closes u" "\<And>u. sends (v u) = sends u" "\<And>u. callbacks_made (v u) = callbacks_made u"
    by (rule log_text [of LOG_INFO os "''Disconnected from server''"]) auto
  then show ?thesis by (simp add: disconnect_end_def Let_def docall_projections)
qed

section \<open>Sessions\<close>

text \<open>A receiver thread: its identifier, whether it is still in its loop, and its local variables.\<close>

record receiver =
  rc_id :: nat
  rc_looping :: bool
  rc_buffer :: "byte list"
  rc_msg :: Message

record session =
  ss_ctx :: ClientContext
  ss_joining :: bool
  ss_receivers :: "receiver list"
  ss_world :: world

text \<open>A new receiver starts with whatever its stack holds. \<open>pthread_join\<close> returns once no thread with that
  identifier is left.\<close>

inductive session_step :: "os \<Rightarrow> session \<Rightarrow> session \<Rightarrow> bool" for os where
  connect: "\<not> ss_joining s \<Longrightarrow> connect_to_server os (Some (ss_ctx s)) (ss_world s) = Some (rc, Some c', w') \<Longrightarrow>
    rs = (if rc = code_of SUCCESS
          then [\<lparr>rc_id = receiver_thread c', rc_looping = True, rc_buffer = buffer, rc_msg = msg\<rparr>] else []) \<Longrightarrow>
    session_step os s (s\<lparr>ss_ctx := c', ss_world := w', ss_receivers := ss_receivers s @ rs\<rparr>)"
| request: "\<not> ss_joining s \<Longrightarrow>
    request_market_data os (Some (ss_ctx s)) symb (ss_world s) = Some (rc, Some c', w') \<Longrightarrow>
    session_step os s (s\<lparr>ss_ctx := c', ss_world := w'\<rparr>)"
| order: "\<not> ss_joining s \<Longrightarrow> send_order os (Some (ss_ctx s)) ord (ss_world s) = Some (rc, Some c', w') \<Longrightarrow>
    session_step os s (s\<lparr>ss_ctx := c', ss_world := w'\<rparr>)"
| disconnect: "\<not> ss_joining s \<Longrightarrow> disconnect_begin os (ss_ctx s) (ss_world s) = (c', w') \<Longrightarrow>
    session_step os s (s\<lparr>ss_ctx := c', ss_world := w', ss_joining := True\<rparr>)"
| disconnected: "ss_joining s \<Longrightarrow> receiver_thread (ss_ctx s) \<notin> rc_id ` set (ss_receivers s) \<Longrightarrow>
    disconnect_end os (ss_ctx s) (ss_world s) = Some (c', w') \<Longrightarrow>
    session_step os s (s\<lparr>ss_ctx := c', ss_world := w', ss_joining := False\<rparr>)"
| iterate: "i < length (ss_receivers s) \<Longrightarrow> r = ss_receivers s ! i \<Longrightarrow> rc_looping r \<Longrightarrow> cl_running (ss_ctx s) \<noteq> 0 \<Longrightarrow>
    receiver_iter os (rc_buffer r) (rc_msg r) (ss_ctx s) (ss_world s) = Some (go, buffer, msg, c', w') \<Longrightarrow>
    session_step os s (s\<lparr>ss_ctx := c', ss_world := w',
      ss_receivers := (ss_receivers s)[i := r\<lparr>rc_looping := go, rc_buffer := buffer, rc_msg := msg\<rparr>]\<rparr>)"
| leave: "i < length (ss_receivers s) \<Longrightarrow> r = ss_receivers s ! i \<Longrightarrow> \<not> rc_looping r \<or> cl_running (ss_ctx s) = 0 \<Longrightarrow>
    receiver_exit os (ss_ctx s) (ss_world s) = (c', w') \<Longrightarrow>
    session_step os s (s\<lparr>ss_ctx := c', ss_world := w',
      ss_receivers := take i (ss_receivers s) @ drop (Suc i) (ss_receivers s)\<rparr>)"

inductive_cases session_stepE: "session_step os s s'"

text \<open>The state after \<open>initialize_client\<close>.\<close>

definition session_start :: "os \<Rightarrow> session \<Rightarrow> bool" where
  "session_start os s \<longleftrightarrow> (\<exists>cfg cb w. initialize_client os (Some cfg) cb w = Some (Some (ss_ctx s), ss_world s))
     \<and> \<not> ss_joining s \<and> ss_receivers s = []"

definition session_inv :: "session \<Rightarrow> bool" where
  "session_inv s \<longleftrightarrow> length (ss_receivers s) \<le> 1
     \<and> (\<forall>r \<in> set (ss_receivers s). rc_id r = receiver_thread (ss_ctx s) \<and> 0 < rc_id r
          \<and> cl_state (ss_ctx s) = CLIENT_CONNECTED)
     \<and> (ss_joining s \<longrightarrow> cl_running (ss_ctx s) = 0 \<and> cl_socket (ss_ctx s) < 0)"

text \<open>What the operations leave alone.\<close>

lemma finish_connect_success:
  "finish_connect os c w = Some (rc, c', w') \<Longrightarrow> rc = code_of SUCCESS \<Longrightarrow>
   cl_state c' = CLIENT_CONNECTED \<and> (\<exists>h. receiver_thread c' = nat (err (os h SysThreadCreate)))"
  by (auto simp: finish_connect_def Let_def case_prod_unfold split: Option.bind_split_asm if_split_asm)

lemma connect_outcome:
  assumes "connect_to_server os (Some c) w = Some (rc, Some c', w')"
  shows "if cl_state c = CLIENT_CONNECTED then c' = c \<and> rc \<noteq> code_of SUCCESS
    else rc = code_of SUCCESS \<longrightarrow> cl_state c' = CLIENT_CONNECTED
      \<and> (\<exists>h. receiver_thread c' = nat (err (os h SysThreadCreate)))"
  using assms unfolding connect_to_server_def Let_def case_prod_unfold option.case
  by (auto simp: bind_eq_Some_conv dest: finish_connect_success split: if_split_asm)

definition same_session :: "ClientContext \<Rightarrow> ClientContext \<Rightarrow> bool" where
  "same_session c c' \<longleftrightarrow> cl_state c' = cl_state c \<and> receiver_thread c' = receiver_thread c
     \<and> cl_running c' = cl_running c \<and> cl_socket c' = cl_socket c \<and> cl_callbacks c' = cl_callbacks c"

lemma request_same: "request_market_data os (Some c) symb w = Some (rc, Some c', w') \<Longrightarrow> same_session c c'"
  by (auto simp: request_market_data_def same_session_def Let_def
      case_prod_unfold split: Option.bind_split_asm option.split_asm prod.split_asm if_split_asm)

lemma order_same: "send_order os (Some c) ord w = Some (rc, Some c', w') \<Longrightarrow> same_session c c'"
  by (auto simp: send_order_def same_session_def Let_def
      case_prod_unfold split: Option.bind_split_asm option.split_asm prod.split_asm if_split_asm)

lemma deliver_same: "deliver os m c w = Some (c', w') \<Longrightarrow> same_session c c'"
  by (auto simp: deliver_def same_session_def Let_def
      split: Option.bind_split_asm option.split_asm MessageType.split_asm)

lemma receiver_iter_same: "receiver_iter os b m c w = Some (go, b', m', c', w') \<Longrightarrow> same_session c c'"
  by (auto simp: receiver_iter_def Let_def case_prod_unfold same_session_def dest!: deliver_same
      split: Option.bind_split_asm option.split_asm prod.split_asm if_split_asm)

lemma receiver_exit_spec:
  "receiver_exit os c w = (c', w') \<Longrightarrow> c' = c\<lparr>cl_state := CLIENT_DISCONNECTED\<rparr>
   \<and> closes w' = closes w \<and> sends w' = sends w
   \<and> callbacks_made w' = callbacks_made w @ (if on_disconnect (cl_callbacks c) then [(''on_disconnect'', [])] else [])"
  by (auto simp: receiver_exit_def Let_def docall_projections)

section \<open>The invariant\<close>

text \<open>\<open>pthread_create\<close> stores identifiers other than 0.\<close>

definition thread_ids_positive :: "os \<Rightarrow> bool" where
  "thread_ids_positive os \<longleftrightarrow> (\<forall>h. 0 < err (os h SysThreadCreate))"

lemma session_start_inv: "session_start os s \<Longrightarrow> session_inv s"
  by (auto simp: session_start_def session_inv_def)

lemma session_inv_same:
  "session_inv s \<Longrightarrow> same_session (ss_ctx s) c' \<Longrightarrow> session_inv (s\<lparr>ss_ctx := c', ss_world := w'\<rparr>)"
  by (auto simp: session_inv_def same_session_def)

lemma session_inv_connect:
  assumes "session_inv s" "\<not> ss_joining s" "thread_ids_positive os"
    and "connect_to_server os (Some (ss_ctx s)) (ss_world s) = Some (rc, Some c', w')"
    and "rs = (if rc = code_of SUCCESS
       then [\<lparr>rc_id = receiver_thread c', rc_looping = True, rc_buffer = buffer, rc_msg = msg\<rparr>] else [])"
  shows "session_inv (s\<lparr>ss_ctx := c', ss_world := w', ss_receivers := ss_receivers s @ rs\<rparr>)"
proof (cases "cl_state (ss_ctx s) = CLIENT_CONNECTED")
  case True
  then show ?thesis using assms connect_outcome [OF assms(4)] by (auto simp: session_inv_def)
next
  case False
  then have "ss_receivers s = []" using assms(1) by (cases "ss_receivers s") (auto simp: session_inv_def)
  then show ?thesis
    using assms False connect_outcome [OF assms(4)] by (auto simp: session_inv_def thread_ids_positive_def)
qed

lemma receivers_cases:
  assumes "session_inv s"
  obtains "ss_receivers s = []" | r where "ss_receivers s = [r]" "rc_id r = receiver_thread (ss_ctx s)" "0 < rc_id r"
    "cl_state (ss_ctx s) = CLIENT_CONNECTED"
  using assms by (cases "ss_receivers s") (auto simp: session_inv_def)

lemma session_step_inv:
  "session_step os s s' \<Longrightarrow> thread_ids_positive os \<Longrightarrow> session_inv s \<Longrightarrow> session_inv s'"
proof (induction rule: session_step.induct)
  case (connect s rc c' w' rs buffer msg)
  then show ?case using session_inv_connect by blast
next
  case (request s symb rc c' w')
  then show ?case using session_inv_same request_same by blast
next
  case (order s ord rc c' w')
  then show ?case using session_inv_same order_same by blast
next
  case (disconnect s c' w')
  then show ?case using disconnect_begin_spec [OF disconnect(2)] by (auto simp: session_inv_def)
next
  case (disconnected s c' w')
  from disconnected(5) have "ss_receivers s = []"
    by (rule receivers_cases) (use disconnected(2) in auto)
  then show ?case by (simp add: session_inv_def)
next
  case (iterate i s r go buffer msg c' w')
  from iterate(7) obtain "i = 0" "ss_receivers s = [r]" "session_inv s" using iterate(1,2)
    by (auto elim!: receivers_cases)
  then show ?case using receiver_iter_same [OF iterate(5)] by (auto simp: session_inv_def same_session_def)
next
  case (leave i s r c' w')
  from leave(6) obtain "i = 0" "ss_receivers s = [r]" "session_inv s" using leave(1,2)
    by (auto elim!: receivers_cases)
  then show ?case using receiver_exit_spec [OF leave(4)] by (auto simp: session_inv_def)
qed

lemma session_reach_inv:
  assumes "session_start os s0" "thread_ids_positive os" "(session_step os)\<^sup>*\<^sup>* s0 s"
  shows "session_inv s"
  using assms(3) by induction (use assms session_start_inv session_step_inv in blast)+

text \<open>While the application waits in \<open>pthread_join\<close>, the only steps are that of the receiver out of its loop
  and the return of the join.\<close>

lemma joining_step:
  assumes "session_inv s" "ss_joining s" "session_step os s s'"
  shows "if ss_receivers s = []
    then \<not> ss_joining s' \<and> ss_receivers s' = [] \<and> cl_socket (ss_ctx s') < 0 \<and> cl_state (ss_ctx s') = CLIENT_DISCONNECTED
      \<and> callbacks_made (ss_world s') = callbacks_made (ss_world s) \<and> sends (ss_world s') = sends (ss_world s)
    else ss_joining s' \<and> ss_receivers s' = [] \<and> sends (ss_world s') = sends (ss_world s)
      \<and> callbacks_made (ss_world s') = callbacks_made (ss_world s)
          @ (if on_disconnect (cl_callbacks (ss_ctx s)) then [(''on_disconnect'', [])] else [])"
  using assms(3)
proof cases
  case (disconnected c' w')
  from assms(1) have "ss_receivers s = []"
    by (rule receivers_cases) (use disconnected in auto)
  then show ?thesis
    using disconnected assms(1,2) disconnect_end_total [of os "ss_ctx s" "ss_world s"] by (auto simp: session_inv_def)
next
  case (iterate i r go buffer msg c' w')
  then show ?thesis using assms(1,2) by (auto simp: session_inv_def)
next
  case (leave i r c' w')
  then obtain "ss_receivers s = [r]" "i = 0" using assms(1) by (auto elim!: receivers_cases)
  then show ?thesis using leave(1) assms(2) receiver_exit_spec [OF leave(5)] by auto
qed (use assms(2) in auto)

lemma joining_enabled:
  assumes "session_inv s" "ss_joining s"
  shows "\<exists>s'. session_step os s s'"
  using assms(1)
proof (rule receivers_cases)
  assume "ss_receivers s = []"
  then show ?thesis
    using session_step.disconnected [of s os] disconnect_end_total [of os "ss_ctx s" "ss_world s"] assms(2) by fastforce
next
  fix r assume r: "ss_receivers s = [r]"
  obtain c' w' where "receiver_exit os (ss_ctx s) (ss_world s) = (c', w')" by fastforce
  moreover have "cl_running (ss_ctx s) = 0" using assms by (simp add: session_inv_def)
  ultimately show ?thesis using session_step.leave [of 0 s "ss_receivers s ! 0"] r by force
qed

text \<open>The state \<open>s'\<close> in which a disconnect that was waiting in the state \<open>s\<close> has returned.\<close>

definition disconnect_done :: "session \<Rightarrow> session \<Rightarrow> bool" where
  "disconnect_done s s' \<longleftrightarrow> \<not> ss_joining s' \<and> ss_receivers s' = []
     \<and> cl_state (ss_ctx s') = CLIENT_DISCONNECTED \<and> cl_socket (ss_ctx s') < 0
     \<and> sends (ss_world s') = sends (ss_world s)
     \<and> (\<exists>cbs. callbacks_made (ss_world s') = callbacks_made (ss_world s) @ cbs \<and> set cbs \<subseteq> {(''on_disconnect'', [])})"

lemma joining_step_done:
  assumes "session_inv s" "ss_joining s" "session_step os s s'"
  shows "disconnect_done s s' \<or> ss_joining s' \<and> ss_receivers s' = [] \<and> sends (ss_world s') = sends (ss_world s)
    \<and> (\<exists>cbs. callbacks_made (ss_world s') = callbacks_made (ss_world s) @ cbs \<and> set cbs \<subseteq> {(''on_disconnect'', [])})"
  using joining_step [OF assms] by (auto simp: disconnect_done_def split: if_splits)

lemma joining_alone_done:
  assumes "session_inv s" "ss_joining s" "ss_receivers s = []" "session_step os s s'"
    and "sends (ss_world s) = sends (ss_world s0)"
    and "callbacks_made (ss_world s) = callbacks_made (ss_world s0) @ cbs" "set cbs \<subseteq> {(''on_disconnect'', [])}"
  shows "disconnect_done s0 s'"
  using joining_step [OF assms(1,2,4)] assms(3,5-7) by (auto simp: disconnect_done_def)

lemma joining_two_steps:
  assumes "session_inv s" "ss_joining s" "session_step os s s1" "thread_ids_positive os" "\<not> disconnect_done s s1"
  shows "(\<exists>s2. session_step os s1 s2) \<and> (\<forall>s2. session_step os s1 s2 \<longrightarrow> disconnect_done s s2)"
proof -
  have i: "session_inv s1" using session_step_inv assms by blast
  from joining_step_done [OF assms(1-3)] assms(5) obtain cbs where "ss_joining s1" "ss_receivers s1 = []"
    "sends (ss_world s1) = sends (ss_world s)" "callbacks_made (ss_world s1) = callbacks_made (ss_world s) @ cbs"
    "set cbs \<subseteq> {(''on_disconnect'', [])}" by blast
  with i show ?thesis using joining_alone_done joining_enabled by meson
qed

section \<open>A concrete session\<close>

definition blank_msg :: Message where
  "blank_msg = \<lparr>msg_type = 0, sequence_num = 0, msg_timestamp = 0, msg_data = replicate 264 0\<rparr>"

lemma client_os_ids: "thread_ids_positive client_os"
  by (simp add: thread_ids_positive_def client_os_def)

text \<open>Initialising and connecting, with a receiver running.\<close>

lemma sample_session:
  "\<exists>s0 s. session_start client_os s0 \<and> (session_step client_os)\<^sup>*\<^sup>* s0 s \<and> \<not> ss_joining s \<and> ss_receivers s \<noteq> []"
proof -
  let ?cfg = "cl_config sample_client"
  obtain c w where i: "initialize_client client_os (Some ?cfg) None fresh_world = Some (Some c, w)"
    "cl_state c = CLIENT_DISCONNECTED" "cl_config c = ?cfg"
    using initialize_client_ok [of ?cfg fresh_world] by auto
  then have t: "terminated (server_host (cl_config c))" by (simp add: sample_client_def)
  obtain s w1 where "connect_to_server client_os (Some c) w =
      map_option (\<lambda>(rc, c', w'). (rc, Some c', w')) (finish_connect client_os (c\<lparr>cl_socket := s\<rparr>) w1)"
    using connect_reaches_finish [OF client_os_up(1) _ t] i(2) by fastforce
  moreover obtain c1 w2 where "finish_connect client_os (c\<lparr>cl_socket := s\<rparr>) w1 = Some (code_of SUCCESS, c1, w2)"
    using finish_connect_thread [of client_os, OF client_os_up(2), of "c\<lparr>cl_socket := s\<rparr>" w1] t by auto
  ultimately have con: "connect_to_server client_os (Some c) w = Some (code_of SUCCESS, Some c1, w2)" by simp
  let ?s0 = "\<lparr>ss_ctx = c, ss_joining = False, ss_receivers = [], ss_world = w\<rparr>"
  have "session_start client_os ?s0" using i(1) by (auto simp: session_start_def)
  moreover have "\<exists>s. session_step client_os ?s0 s \<and> \<not> ss_joining s \<and> ss_receivers s \<noteq> []"
    by (rule exI, rule conjI, rule session_step.connect [OF _ _ refl]) (use con in simp_all)
  ultimately show ?thesis by blast
qed

lemma sample_joining:
  "\<exists>s0 s. session_start client_os s0 \<and> (session_step client_os)\<^sup>*\<^sup>* s0 s \<and> ss_joining s \<and> ss_receivers s \<noteq> []"
proof -
  obtain s0 s where s: "session_start client_os s0" "(session_step client_os)\<^sup>*\<^sup>* s0 s" "\<not> ss_joining s" "ss_receivers s \<noteq> []"
    using sample_session by blast
  obtain c' w' where "disconnect_begin client_os (ss_ctx s) (ss_world s) = (c', w')" by fastforce
  from session_step.disconnect [OF s(3) this]
  have "(session_step client_os)\<^sup>*\<^sup>* s0 (s\<lparr>ss_ctx := c', ss_world := w', ss_joining := True\<rparr>)"
    using s(2) by simp
  with s(1,4) show ?thesis by fastforce
qed

section \<open>Properties\<close>





text \<open>C27. When the server closes the connection, the receiver thread ends without closing the socket. A new
  \<open>connect_to_server\<close> then overwrites its number in the context, so that the old descriptor is never
  closed: a following \<open>cleanup_client\<close> closes only the new one.\<close>

theorem server_close_leaks_socket:
  assumes "network_up os" "\<forall>h. ret (os h SysThreadCreate) = 0" "terminated (server_host (cl_config c))"
    and "ret (os (trace w) (SysRecv (cl_socket c) BUFFER_SIZE)) = 0" "\<forall>h. ret (os h SysSocket) \<noteq> cl_socket c"
  shows "\<exists>w1 c2 w2 c3 w3 w4. receiver_iter os buffer msg c w = Some (False, buffer, msg, c, w1)
    \<and> receiver_exit os c w1 = (c2, w2)
    \<and> connect_to_server os (Some c2) w2 = Some (code_of SUCCESS, Some c3, w3)
    \<and> cleanup_client os (Some c3) w3 = Some w4
    \<and> closes w4 = closes w @ [cl_socket c3] \<and> cl_socket c3 \<noteq> cl_socket c"
proof -
  let ?r = "docall os (SysRecv (cl_socket c) BUFFER_SIZE) w"
  obtain w1 where w1: "log_message os LOG_INFO ''Server disconnected'' [] ?r = Some w1" "closes w1 = closes w"
    using log_message_quiet_total [of "[]" LOG_INFO os "''Server disconnected''" ?r]
    by (auto simp: docall_projections dest: quiet_projections)
  then have iter: "receiver_iter os buffer msg c w = Some (False, buffer, msg, c, w1)"
    using assms(4) by (simp add: receiver_iter_def sys_pair)
  obtain c2 w2 where ex: "receiver_exit os c w1 = (c2, w2)" by fastforce
  note c2 = receiver_exit_spec [OF ex]
  obtain s w2' where con: "s \<noteq> cl_socket c" "0 \<le> s" "closes w2' = closes w2" "connect_to_server os (Some c2) w2 =
      map_option (\<lambda>(rc, c', w'). (rc, Some c', w')) (finish_connect os (c2\<lparr>cl_socket := s\<rparr>) w2')"
    using connect_reaches_finish [OF assms(1), of c2 w2] c2 assms(3,5) by auto
  obtain c3 w3 where fin: "finish_connect os (c2\<lparr>cl_socket := s\<rparr>) w2' = Some (code_of SUCCESS, c3, w3)"
    "cl_socket c3 = s" "closes w3 = closes w2'"
    using finish_connect_thread [of os, OF assms(2), of "c2\<lparr>cl_socket := s\<rparr>" w2'] c2 assms(3) by auto
  obtain w4 where "cleanup_client os (Some c3) w3 = Some w4" "closes w4 = closes w3 @ [s]"
    using cleanup_total [of os c3 w3] fin(2) con(2) by auto
  with iter ex con fin c2 w1(2) show ?thesis by auto
qed

text \<open>A server that closes the connection at once.\<close>

definition closing_os :: os where
  "closing_os h c = (case c of SysRecv s n \<Rightarrow> \<lparr>ret = 0, err = 0, rbytes = []\<rparr> | _ \<Rightarrow> client_os h c)"

theorem server_close_leaks_socket_witness:
  "\<exists>w1 c2 w2 c3 w3 w4. receiver_iter closing_os [] blank_msg sample_client fresh_world
      = Some (False, [], blank_msg, sample_client, w1)
    \<and> receiver_exit closing_os sample_client w1 = (c2, w2)
    \<and> connect_to_server closing_os (Some c2) w2 = Some (0, Some c3, w3)
    \<and> cleanup_client closing_os (Some c3) w3 = Some w4 \<and> 4 \<notin> set (closes w4)"
proof -
  have "network_up closing_os" "\<forall>h. ret (closing_os h SysThreadCreate) = 0"
    "ret (closing_os h (SysRecv s n)) = 0" "ret (closing_os h SysSocket) = 1" for h s n
    by (simp_all add: closing_os_def network_up_def client_os_def)
  moreover have "terminated (server_host (cl_config sample_client))" "cl_socket sample_client = 4" "closes fresh_world = []"
    by (simp_all add: sample_client_def fresh_world_def closes_def)
  ultimately show ?thesis
    using server_close_leaks_socket [of closing_os sample_client fresh_world "[]" blank_msg] by fastforce
qed

end
