(* ===== verification/Server_Threads.thy ===== *)
theory Server_Threads
  imports Server_Core Locking
begin

text \<open>
  \<open>stop_server\<close> and client handler threads. The server never starts \<open>client_handler\<close>; if it did, and
  marked the slot active, \<open>stop_server\<close> would wait for the handler while holding the mutex that the
  handler needs in \<open>disconnect_client\<close>. The scheduler of \<open>Locking\<close> makes the deadlock explicit.
\<close>

section \<open>Running one thread up to a call\<close>

text \<open>A history a thread can run to its end while the others hold no lock.\<close>

fun runnable :: "sys_call \<Rightarrow> bool" where
  "runnable SysThreadCreate = False"
| "runnable (SysThreadJoin n) = False"
| "runnable c = True"

lemma run_first_thread:
  assumes "run_locks pre ls = Some ls'" "list_all (runnable \<circ> fst) pre"
  shows "(lock_step body)\<^sup>*\<^sup>* [(0, pre @ h, ls), (t, k, [])] [(0, h, ls'), (t, k, [])]"
  using assms
proof (induction pre arbitrary: ls)
  case (Cons e pre)
  obtain c r where e: "e = (c, r)" by fastforce
  have "\<not> blocked [(0, (e # pre) @ h, ls), (t, k, [])] c" "c \<noteq> SysThreadCreate"
    using Cons.prems by (cases c; auto simp: e split: if_splits)+
  then have "lock_step body [(0, (e # pre) @ h, ls), (t, k, [])] [(0, pre @ h, locks_after c ls), (t, k, [])]"
    using lock_step.run [of 0 "[(0, (e # pre) @ h, ls), (t, k, [])]" 0 c r "pre @ h" ls body] by (simp add: e)
  moreover have "run_locks pre (locks_after c ls) = Some ls'" using Cons.prems(1) run_locks_Cons by (simp add: e)
  ultimately show ?case using Cons.IH Cons.prems(2) by (auto intro: converse_rtranclp_into_rtranclp)
qed simp

lemma stuck_pair:
  "\<not> lock_step body [(0, (SysThreadJoin t, r) # h, [l]), (t, (SysLock l, r') # h', [])] ts"
  by (auto elim!: lock_stepE simp: less_Suc_eq)

section \<open>The calls of \<open>stop_server\<close>\<close>

lemma close_clients_extends:
  "close_clients_loop os j n cs w = Some (cs', w') \<Longrightarrow> \<exists>l. trace w' = trace w @ l"
proof (induction n arbitrary: j cs w)
  case (Suc n)
  from Suc.prems obtain cs1 w2 where "close_clients_loop os (Suc j) n cs1 w2 = Some (cs', w')" "\<exists>l. trace w2 = trace w @ l"
    by (auto simp: Let_def case_prod_unfold split: if_splits)
  with Suc.IH show ?case by fastforce
qed auto

lemma quiet_extends: "quiet w w' \<Longrightarrow> \<exists>l. trace w' = trace w @ l \<and> run_locks l [] = Some [] \<and> list_all (runnable \<circ> fst) l"
proof -
  assume "quiet w w'"
  then obtain l where "trace w' = trace w @ l" "list_all (log_call \<circ> fst) l" "run_locks l [] = Some []"
    by (auto simp: quiet_def)
  moreover have "runnable c" if "log_call c" for c using that by (cases c) auto
  ultimately show ?thesis by (auto simp: list_all_iff)
qed

text \<open>What was called up to a point, with the locks it leaves taken.\<close>

definition ran_to :: "world \<Rightarrow> string list \<Rightarrow> world \<Rightarrow> bool" where
  "ran_to w ls w' \<longleftrightarrow> (\<exists>l. trace w' = trace w @ l \<and> run_locks l [] = Some ls \<and> list_all (runnable \<circ> fst) l)"

lemma ran_to_quiet: "quiet w w' \<Longrightarrow> ran_to w [] w'"
  using quiet_extends by (simp add: ran_to_def)

lemma ran_to_docall: "ran_to w [] w' \<Longrightarrow> runnable c \<Longrightarrow> \<not> lock_call c \<Longrightarrow> ran_to w [] (docall os c w')"
  by (auto simp: ran_to_def run_locks_append run_locks_skip)

lemma ran_to_lock: "ran_to w [] w' \<Longrightarrow> ran_to w [l] (docall os (SysLock l) w')"
  by (auto simp: ran_to_def run_locks_append)

lemma stop_server_joins:
  assumes "stop_server os (Some ctx) w = Some (res, w')" "0 < client_count ctx" "c_active (clients ctx ! 0) \<noteq> 0"
  shows "\<exists>pre r post. trace w' = trace w @ pre @ (SysThreadJoin (c_thread (clients ctx ! 0)), r) # post
    \<and> run_locks pre [] = Some [''clients_mutex''] \<and> list_all (runnable \<circ> fst) pre"
proof -
  obtain w1 where w1: "log_message os LOG_INFO ''Stopping server'' [] w = Some w1" "quiet w w1"
    using log_message_quiet_total [of "[]" LOG_INFO os _ w] by auto
  define w2 where "w2 = (if server_socket ctx \<ge> 0 then docall os (SysClose (server_socket ctx)) w1 else w1)"
  define w3 where "w3 = docall os (SysLock ''clients_mutex'') w2"
  have "ran_to w [''clients_mutex''] w3"
    using ran_to_quiet [OF w1(2)] by (simp add: w3_def w2_def ran_to_lock ran_to_docall)
  then obtain pre where pre: "trace w3 = trace w @ pre" "run_locks pre [] = Some [''clients_mutex'']"
    "list_all (runnable \<circ> fst) pre" by (auto simp: ran_to_def)
  let ?c = "clients ctx ! 0"
  obtain cs w4 where l: "close_clients_loop os 0 (nat (client_count ctx)) (clients ctx) w3 = Some (cs, w4)"
    and w': "log_message os LOG_INFO ''Server stopped'' [] (docall os (SysUnlock ''clients_mutex'') w4) = Some w'"
    using assms(1) w1(1)
    by (cases "server_socket ctx \<ge> 0") (auto simp: stop_server_def Let_def w2_def w3_def bind_eq_Some_conv)
  obtain m where m: "nat (client_count ctx) = Suc m" using assms(2) by (cases "nat (client_count ctx)") auto
  have "close_clients_loop os 1 m ((clients ctx)[0 := ?c\<lparr>c_active := 0\<rparr>])
      (docall os (SysClose (c_socket ((clients ctx)[0 := ?c\<lparr>c_active := 0\<rparr>] ! 0)))
        (docall os (SysThreadJoin (c_thread ?c)) w3)) = Some (cs, w4)"
    using l assms(3) unfolding m by (auto simp: Let_def split: if_splits)
  from close_clients_extends [OF this] obtain l1 where l1: "trace w4 = trace w3
      @ (SysThreadJoin (c_thread ?c), os (trace w3) (SysThreadJoin (c_thread ?c))) # l1" by auto
  from quiet_extends [OF log_message_quiet [OF w']] obtain l2 where "trace w' = trace (docall os (SysUnlock ''clients_mutex'') w4) @ l2"
    by auto
  with l1 pre show ?thesis by auto
qed

lemma disconnect_client_locks:
  assumes "disconnect_client os ctx i w = Some (ctx', w')"
  shows "\<exists>r h. trace w' = trace w @ (SysLock ''clients_mutex'', r) # h"
  using assms
  by (fastforce simp: disconnect_client_def bind_eq_Some_conv dest!: log_message_quiet [THEN quiet_extends]
      split: if_splits)

section \<open>Properties\<close>

text \<open>C21. \<open>stop_server\<close> waits for client threads while it holds \<open>clients_mutex\<close>. If the first client were served
  by a thread \<open>t\<close> (its slot active) and \<open>t\<close> is about to leave through \<open>disconnect_client\<close>, then the schedule
  in which \<open>stop_server\<close> runs first reaches a state where no thread can take a step and neither has
  ended.\<close>

theorem stop_server_deadlocks:
  assumes "stop_server os (Some ctx) w = Some (res, w')" "trace w' = trace w @ h"
    and "0 < client_count ctx" "c_active (clients ctx ! 0) \<noteq> 0" "c_thread (clients ctx ! 0) = t"
    and "disconnect_client os' ctx' i u = Some (ctx'', u')" "trace u' = trace u @ k"
  shows "\<exists>ts. (lock_step body)\<^sup>*\<^sup>* [(0, h, []), (t, k, [])] ts
    \<and> (\<forall>ts'. \<not> lock_step body ts ts') \<and> (\<forall>x \<in> set ts. calls_left x \<noteq> [])"
proof -
  obtain pre r post where s: "h = pre @ (SysThreadJoin t, r) # post" "run_locks pre [] = Some [''clients_mutex'']"
    "list_all (runnable \<circ> fst) pre"
    using stop_server_joins [OF assms(1,3,4)] assms(2,5) by auto
  obtain r' k' where "k = (SysLock ''clients_mutex'', r') # k'" using disconnect_client_locks [OF assms(6)] assms(7) by auto
  then show ?thesis
    using run_first_thread [OF s(2,3), of body "(SysThreadJoin t, r) # post" t k] stuck_pair s(1)
    by (intro exI [of _ "[(0, (SysThreadJoin t, r) # post, [''clients_mutex'']), (t, k, [])]"]) auto
qed

text \<open>A table whose first client is served by thread 7.\<close>

definition active_context :: ServerContext where
  "active_context = sample_context [(sample_slot 5 ''alice'')\<lparr>c_active := 1, c_thread := 7\<rparr>]"

theorem stop_server_deadlocks_witness:
  "\<exists>body res w' ctx'' u' ts. stop_server (const_os 0) (Some active_context) fresh_world = Some (res, w')
    \<and> disconnect_client (const_os 0) active_context 0 fresh_world = Some (ctx'', u')
    \<and> (lock_step body)\<^sup>*\<^sup>* [(0, trace w', []), (7, trace u', [])] ts \<and> (\<forall>ts'. \<not> lock_step body ts ts')"
proof -
  have a: "client_count active_context \<le> int (length (clients active_context))" "0 < client_count active_context"
    "c_active (clients active_context ! 0) \<noteq> 0" "c_thread (clients active_context ! 0) = 7"
    "ids_terminated (clients active_context)" "first_same active_context 0 0"
    by (simp_all add: active_context_def sample_context_def sample_slot_def live_def ids_terminated_def
        terminated_def first_same_def same_id_def)
  obtain res w' where s: "stop_server (const_os 0) (Some active_context) fresh_world = Some (res, w')"
    using stop_server_spec [OF a(1), of "const_os 0" fresh_world] by blast
  obtain c u' where d: "disconnect_client (const_os 0) active_context 0 fresh_world = Some (c, u')"
    using disconnect_client_spec [OF a(5,1) _ a(6), of "const_os 0" fresh_world] a(2) by auto
  have t: "trace w' = trace fresh_world @ trace w'" "trace u' = trace fresh_world @ trace u'" by (simp_all add: fresh_world_def)
  from stop_server_deadlocks [OF s t(1) a(2-4) d t(2)] s d show ?thesis by blast
qed

end
