(* ===== verification/Spec2Isabelle.thy ===== *)
theory Spec2Isabelle
  imports Examples Client_Session Server_Threads
begin

text \<open>
  \<^bold>\<open>TradeSynth\<close>

  A trading server and its clients in C. Clients connect over TCP and exchange messages with the
  server in a framed binary format; the server handles orders, market data and trade executions and
  forwards them; both sides log through a common logger. This development models the program as it is
  written, errors and undefined behaviour included, and proves what it does.

  \<^bold>\<open>The world.\<close> Every call into the C library or the operating system is a value of \<open>sys_call\<close>
  (theory Runtime). The environment is a parameter \<open>os\<close> that answers each call with a reply that may
  depend on all that happened before; the \<open>world\<close> carries the trace of calls and replies, \<open>errno\<close> and the
  globals of the logger. Observable behaviour is read off the trace: bytes sent (\<open>sends\<close>), sockets closed
  (\<open>closes\<close>), callbacks made, locks held (\<open>held\<close>). Nothing is assumed of the environment unless a theorem
  says so. Every function that can run into undefined behaviour (reading outside an array, a \<open>%s\<close> without
  terminator, a conversion out of range) returns an option, and \<^term>\<open>None\<close> is that behaviour; error codes
  are values. Structs are records, enums are datatypes with their integer codes, machine integers are
  words or integers with the wrap-around written out, buffers are byte lists.

  \<^bold>\<open>Theories, in the order of the code.\<close> The properties are the theorems labelled C1 to C40, the most
  important first; each item names those its theory holds.
  \<^item> Prelude: bytes, little-endian words, slices, C strings; the locales \<open>codec\<close> and \<open>c_enum\<close>.
  \<^item> Types: \<open>include/common/types.h\<close>, the enums and structs with their object representation; the
    locales are interpreted for each of them.
  \<^item> Serialization: \<open>src/serialization/serialization.c\<close>, all functions; the locale
    \<open>transport\<close> is what senders and receivers rely on. The round trip, the exact wire image, when
    parsing is undefined, defects of the length checks, and which corruptions the checksum detects.
  \<^item> Double: IEEE binary64 as far as the code uses it, in integer arithmetic. Price: the price
    functions of \<open>types.h\<close> and \<open>src/common/utils.c\<close>; \<open>pow(10, e)\<close> is a parameter.
  \<^item> Runtime and Logger: the world and \<open>src/common/logger.c\<close>. The relation \<open>quiet\<close> says that a log line
    changes nothing but the trace, and is what all later proofs use. \<open>run_locks\<close> is the lock discipline:
    every lock released in the opposite order, and only the logger's mutex taken while another is held.
  \<^item> Locking: threads that share mutexes, as a step relation (\<open>lock_step\<close>). The locale \<open>thread_program\<close> says
    what the calls of a program must satisfy and proves from it mutual exclusion, freedom from
    deadlock and termination of every schedule.
  \<^item> Server\_Handlers: the state of the server (\<open>include/server/server_types.h\<close>) and
    \<open>src/server/server_handlers.c\<close>. The locale \<open>server_op\<close> is the contract of a handler (only the
    sequence counter changes, only log and send calls, no lock kept), interpreted for each handler.
  \<^item> Server\_Network: \<open>src/server/server_network.c\<close>. A pointer to a client slot is an index, so a pointer
    kept across \<open>memmove\<close> sees what the slot holds afterwards. The locale \<open>keeps_table\<close> is the invariant of
    the client table; a \<open>sublocale\<close> gives it to every handler.
  \<^item> Server\_Core: \<open>src/server/server_core.c\<close>, with the reachable states of a server as an inductive
    predicate: table invariant, out-of-bounds loops of small tables, undelivered trades,
    orderly stop, no leak in the set-up, termination of the accept loop.
  \<^item> Server\_Queue: the client table refines a first-in first-out queue (locale \<open>refines\<close>).
  \<^item> Server\_Threads: \<open>stop_server\<close> against a client handler thread in the scheduler of Locking: a deadlock.
  \<^item> Client: \<open>src/client/client.c\<close> with the receiver thread and the reachable states of a client; the
    locale \<open>client_op\<close> is what every call of the library keeps.
  \<^item> Client\_Threads: the calls of the application and of the receivers interpret \<open>thread_program\<close>, so a
    client never deadlocks.
  \<^item> Client\_Session: the application and the receivers as steps on the shared context, with
    \<open>disconnect_from_server\<close> cut at its \<open>pthread_join\<close>: one receiver at a time, a disconnect returns, a
    reconnect leaks a descriptor.
  \<^item> Utils: the helpers of \<open>src/common/utils.c\<close>.
  \<^item> Server\_Program: \<open>src/server/main.c\<close>: the process ends after a signal, every socket closed once.
  \<^item> Client\_Program: \<open>src/client/main.c\<close>: what a session at the prompt sends, how the program ends.
  \<^item> Examples: the programs under \<open>examples/\<close>.
  \<^item> This theory: an order and a market-data request from the client through the server.

  \<^bold>\<open>Bounds and fuel.\<close> Loops over arrays recurse over the array or over the number of iterations left.
  The loops that may run forever (\<open>accept_loop\<close>, \<open>handle_client_loop\<close>, \<open>message_receiver_thread\<close>,
  \<open>prompt_loop\<close>, \<open>wait_loop\<close>) are cut off after \<open>n\<close> turns and return \<^term>\<open>Inl\<close> with the state reached when
  they are still running, so the bound is visible in the result; \<open>start_server_returns\<close>,
  \<open>server_main_exits\<close> and \<open>client_main_session\<close> say how many turns are enough. All other functions are total.

  \<^bold>\<open>Idealisations.\<close> A call of an operation is atomic with respect to the memory other threads change
  (the relations \<open>server_reach\<close>, \<open>client_reach\<close>, \<open>table_step\<close>, \<open>session_step\<close>); only \<open>disconnect_from_server\<close> is
  cut where it blocks. The scheduler of Locking is finer: threads alternate at every call, but each
  operation of a thread may find any context. Signals are delivered when \<open>server_running\<close> is read. Only
  the calls listed in \<open>sets_errno\<close> set \<open>errno\<close>. Callbacks are calls that do not call the library back.
  Arguments and initialisers are evaluated from left to right. Log lines omit the source location and
  assume that \<open>localtime\<close> knows the present; \<open>user_data\<close> is left out. The layout is that of x86-64 Linux. In the two end-to-end theorems a packet
  arrives whole, alone or with others behind it, which is stated as a hypothesis on the replies to \<open>recv\<close>.

  \<^bold>\<open>Not modelled.\<close> The functions \<open>utils.h\<close> declares and no file defines; the order-book and position
  structures of \<open>server_types.h\<close> and the constants next to them, which no function touches; the tests; the
  Makefile and the scripts.
\<close>

section \<open>A packet at the server\<close>

lemma handle_client_iter_packet:
  fixes os v ctx t
  defines "slot \<equiv> clients ctx ! t_slot t"
  assumes "t_slot t < length (clients ctx)" "wf_thread t" "payload_len ty = Some (length p)"
    and "os (trace v) (SysRecv (c_socket slot) BUFFER_SIZE)
           = \<lparr>ret = int (length (frame ty p @ rest)), err = e, rbytes = frame ty p @ rest\<rparr>"
    and "length (frame ty p @ rest) \<le> BUFFER_SIZE"
  shows "\<exists>t' now w1. t_msg t' = (t_msg t)\<lparr>msg_type := ty, msg_data := p @ drop (length p) (msg_data (t_msg t))\<rparr>
    \<and> sends w1 = sends v
    \<and> handle_client_iter os pow10 pad t ctx v =
        map_option (\<lambda>(ctx2, w2). (True, t', ctx2, w2))
          (dispatch os pow10 pad (c_id slot) (t_msg t')
             (ctx\<lparr>clients := (clients ctx)[t_slot t := slot\<lparr>c_messages_received := c_messages_received slot + 1,
                c_last_heartbeat := now\<rparr>]\<rparr>) w1)"
proof -
  let ?b = "t_buffer t"
  define bs where "bs = frame ty p @ rest"
  have len: "20 + length p \<le> length bs" "length bs \<le> 4096"
    using assms(6) by (simp_all add: BUFFER_SIZE_def bs_def)
  have wf: "length ?b = 4096" "wf_Message (t_msg t)"
    using assms(3) by (simp_all add: wf_thread_def BUFFER_SIZE_def)
  have st: "store_at 0 bs ?b = Some (bs @ drop (length bs) ?b)" using len wf by (simp add: store_at_def)
  define m where "m = (t_msg t)\<lparr>msg_type := ty, msg_data := p @ drop (length p) (msg_data (t_msg t))\<rparr>"
  have des: "deserialize_message (Some (bs @ drop (length bs) ?b)) (length bs) (Some (t_msg t)) = Some (0, Some m)"
    unfolding m_def using deserialize_frame [OF assms(4) len(1) wf(2), of "rest @ drop (length bs) ?b"] by (simp add: bs_def)
  have pos: "0 < int (length bs)" using len(1) by linarith
  let ?w1 = "docall os (SysRecv (c_socket slot) BUFFER_SIZE) v"
  show ?thesis
  proof (intro exI conjI)
    show "t_msg (t\<lparr>t_buffer := bs @ drop (length bs) ?b, t_msg := m\<rparr>)
        = (t_msg t)\<lparr>msg_type := ty, msg_data := p @ drop (length p) (msg_data (t_msg t))\<rparr>" by (simp add: m_def)
    show "sends (snd (get_time os ?w1)) = sends v" by (simp add: docall_projections)
    show "handle_client_iter os pow10 pad t ctx v =
        map_option (\<lambda>(ctx2, w2). (True, t\<lparr>t_buffer := bs @ drop (length bs) ?b, t_msg := m\<rparr>, ctx2, w2))
          (dispatch os pow10 pad (c_id slot) (t_msg (t\<lparr>t_buffer := bs @ drop (length bs) ?b, t_msg := m\<rparr>))
             (ctx\<lparr>clients := (clients ctx)[t_slot t := slot\<lparr>c_messages_received := c_messages_received slot + 1,
                c_last_heartbeat := fst (get_time os ?w1)\<rparr>]\<rparr>) (snd (get_time os ?w1)))"
      using assms(2) assms(5) [folded bs_def] pos st des
      by (simp add: handle_client_iter_def slot_def [symmetric] sys_pair Let_def case_prod_unfold map_conv_bind_option comp_def)
  qed
qed

text \<open>A new order reaches \<open>process_order\<close>; market data reaches \<open>broadcast_market_data\<close>.\<close>

lemma dispatch_order:
  assumes "msg_type m = MessageType_val MSG_ORDER_NEW" "data_order m = ord" "terminated cid" "wf_Order ord"
    and "quantity ord \<noteq> 0" "quantity ord \<le> 1000000" "terminated (client_id ord)"
    and "MAX_CLIENTS \<le> length (clients ctx)" "ids_terminated (clients ctx)"
    and "improved_price pow10 pad ctx ord \<noteq> None"
  shows "\<exists>w'. dispatch os pow10 pad cid m ctx w = Some (snd (next_sequence_num ctx), w') \<and> sends w' = sends w"
proof -
  obtain w1 where w1: "log_message os LOG_INFO ''Processing order type %d from client %s''
      [LInt (sint (msg_type m)), LStr cid] w = Some w1" "quiet w w1"
    using log_message_quiet_total [of "[LInt (sint (msg_type m)), LStr cid]" LOG_INFO os _ w] assms(3) by auto
  have "find_client_socket (snd (next_sequence_num ctx)) (client_id ord) \<noteq> None"
    using find_client_socket_spec [of "snd (next_sequence_num ctx)"] assms(7-9) by (simp add: next_sequence_num_def)
  then obtain w2 where w2: "process_order os pow10 pad ctx ord w1
      = Some (code_of ERROR_SERIALIZATION, snd (next_sequence_num ctx), w2)" "quiet w1 w2"
    using process_order_accepted [OF assms(5,6,4), of os pow10 pad ctx w1] assms(10) by auto
  have "sends w2 = sends w" using quiet_projections(1) [OF w1(2)] quiet_projections(1) [OF w2(2)] by simp
  moreover have "dispatch os pow10 pad cid m ctx w = Some (snd (next_sequence_num ctx), w2)"
    using assms(1,2) w1(1) w2(1) by (simp add: dispatch_def MessageType_of_def)
  ultimately show ?thesis by blast
qed

lemma dispatch_market_data:
  assumes "msg_type m = MessageType_val MSG_MARKET_DATA" "data_market_data m = md" "wf_MarketData md"
    and "terminated (md_symbol md)" "MAX_CLIENTS \<le> length (clients ctx)"
  shows "\<exists>w'. dispatch os pow10 pad cid m ctx w = Some (snd (next_sequence_num ctx), w')
    \<and> sends w' = sends w @ map (\<lambda>s. (s, frame 6 (enc_MarketData md))) (live (take MAX_CLIENTS (clients ctx)))"
proof -
  obtain w1 where w1: "log_message os LOG_DEBUG ''Market data update for %s'' [LStr (md_symbol md)] w = Some w1" "quiet w w1"
    using log_message_quiet_total [of "[LStr (md_symbol md)]" LOG_DEBUG os _ w] assms(4) by auto
  obtain w2 where "broadcast_market_data os ctx md w1 = Some (code_of SUCCESS, snd (next_sequence_num ctx), w2)"
    "sends w2 = sends w1 @ map (\<lambda>s. (s, frame 6 (enc_MarketData md))) (live (take MAX_CLIENTS (clients ctx)))"
    using broadcast_market_data_cases [OF assms(3), of ctx os w1] assms(5) by (auto split: if_splits)
  then show ?thesis
    using assms(1,2) w1(1) quiet_projections(1) [OF w1(2)] by (simp add: dispatch_def MessageType_of_def)
qed

lemma live_same_sockets: "map c_socket cs = map c_socket cs' \<Longrightarrow> live (take n cs) = live (take n cs')"
  by (simp add: live_def take_map [symmetric])

text \<open>A packet that carries an order, and one that carries market data.\<close>

lemma order_at_server:
  assumes "wf_Order ord" "quantity ord \<noteq> 0" "quantity ord \<le> 1000000" "terminated (client_id ord)"
    and "os (trace v) (SysRecv (c_socket (clients ctx ! t_slot t)) BUFFER_SIZE)
           = \<lparr>ret = int (length (frame 2 (enc_Order ord) @ rest)), err = e, rbytes = frame 2 (enc_Order ord) @ rest\<rparr>"
    and "length rest \<le> 3948"
    and "ids_terminated (clients ctx)" "MAX_CLIENTS \<le> length (clients ctx)"
    and "t_slot t < length (clients ctx)" "wf_thread t" "improved_price pow10 pad ctx ord \<noteq> None"
  shows "\<exists>t' ctx' v'. handle_client_iter os pow10 pad t ctx v = Some (True, t', ctx', v')
    \<and> data_order (t_msg t') = ord \<and> msg_type (t_msg t') = 2
    \<and> c_messages_received (clients ctx' ! t_slot t) = c_messages_received (clients ctx ! t_slot t) + 1
    \<and> ctx_sequence_num ctx' = ctx_sequence_num ctx + 1
    \<and> map c_socket (clients ctx') = map c_socket (clients ctx) \<and> client_count ctx' = client_count ctx
    \<and> sends v' = sends v"
proof -
  let ?slot = "clients ctx ! t_slot t"
  have len: "length (enc_Order ord) = 128" using order_codec.enc_length [OF assms(1)] by (simp add: sizeof_defs)
  then have pl: "payload_len 2 = Some (length (enc_Order ord))" by (simp add: payload_len_def)
  obtain t' now w1 where p: "t_msg t' = (t_msg t)\<lparr>msg_type := 2, msg_data := enc_Order ord @ drop 128 (msg_data (t_msg t))\<rparr>"
    "sends w1 = sends v"
    and it: "handle_client_iter os pow10 pad t ctx v = map_option (\<lambda>(ctx2, w2). (True, t', ctx2, w2))
      (dispatch os pow10 pad (c_id ?slot) (t_msg t') (ctx\<lparr>clients := (clients ctx)[t_slot t :=
         ?slot\<lparr>c_messages_received := c_messages_received ?slot + 1, c_last_heartbeat := now\<rparr>]\<rparr>) w1)"
    using handle_client_iter_packet [OF assms(9,10) pl, of os v rest e pow10 pad] assms(5,6) by (auto simp: len BUFFER_SIZE_def)
  define ctx1 where "ctx1 = ctx\<lparr>clients := (clients ctx)[t_slot t :=
         ?slot\<lparr>c_messages_received := c_messages_received ?slot + 1, c_last_heartbeat := now\<rparr>]\<rparr>"
  have o: "data_order (t_msg t') = ord"
    using order_codec.dec_prefix [OF assms(1)] by (simp add: data_order_def p(1))
  have "terminated (c_id ?slot)" "ids_terminated (clients ctx1)" "MAX_CLIENTS \<le> length (clients ctx1)"
    using assms(7-9) by (auto simp: ids_terminated_def list_all_length ctx1_def nth_list_update)
  moreover have "improved_price pow10 pad ctx1 ord = improved_price pow10 pad ctx ord"
    by (simp add: improved_price_def get_market_data_def)
  ultimately obtain w2 where "dispatch os pow10 pad (c_id ?slot) (t_msg t') ctx1 w1
      = Some (snd (next_sequence_num ctx1), w2)" "sends w2 = sends w1"
    using dispatch_order [of "t_msg t'" ord "c_id ?slot" ctx1 pow10 pad os w1] p(1) o assms(1-4,11) by auto
  moreover have "map c_socket (clients ctx1) = map c_socket (clients ctx)"
    using assms(9) by (intro nth_equalityI) (auto simp: ctx1_def nth_list_update)
  ultimately show ?thesis
    using it p o assms(9) by (auto simp: ctx1_def [symmetric] next_sequence_num_def) (simp add: ctx1_def)+
qed

lemma market_data_at_server:
  assumes "wf_MarketData md" "terminated (md_symbol md)"
    and "os (trace v) (SysRecv (c_socket (clients ctx ! t_slot t)) BUFFER_SIZE)
           = \<lparr>ret = int (length (frame 6 (enc_MarketData md) @ rest)), err = e, rbytes = frame 6 (enc_MarketData md) @ rest\<rparr>"
    and "length rest \<le> 3972"
    and "MAX_CLIENTS \<le> length (clients ctx)" "t_slot t < length (clients ctx)" "wf_thread t"
  shows "\<exists>t' ctx' v'. handle_client_iter os pow10 pad t ctx v = Some (True, t', ctx', v')
    \<and> sends v' = sends v @ map (\<lambda>s. (s, frame 6 (enc_MarketData md))) (live (take MAX_CLIENTS (clients ctx)))"
proof -
  let ?slot = "clients ctx ! t_slot t"
  have len: "length (enc_MarketData md) = 104" using market_data_codec.enc_length [OF assms(1)] by (simp add: sizeof_defs)
  then have pl: "payload_len 6 = Some (length (enc_MarketData md))" by (simp add: payload_len_def)
  obtain t' now w1 where p: "t_msg t' = (t_msg t)\<lparr>msg_type := 6, msg_data := enc_MarketData md @ drop 104 (msg_data (t_msg t))\<rparr>"
    "sends w1 = sends v"
    and it: "handle_client_iter os pow10 pad t ctx v = map_option (\<lambda>(ctx2, w2). (True, t', ctx2, w2))
      (dispatch os pow10 pad (c_id ?slot) (t_msg t') (ctx\<lparr>clients := (clients ctx)[t_slot t :=
         ?slot\<lparr>c_messages_received := c_messages_received ?slot + 1, c_last_heartbeat := now\<rparr>]\<rparr>) w1)"
    using handle_client_iter_packet [OF assms(6,7) pl, of os v rest e pow10 pad] assms(3,4) by (auto simp: len BUFFER_SIZE_def)
  define ctx1 where "ctx1 = ctx\<lparr>clients := (clients ctx)[t_slot t :=
         ?slot\<lparr>c_messages_received := c_messages_received ?slot + 1, c_last_heartbeat := now\<rparr>]\<rparr>"
  have "data_market_data (t_msg t') = md"
    using market_data_codec.dec_prefix [OF assms(1)] by (simp add: data_market_data_def p(1))
  then obtain w2 where "dispatch os pow10 pad (c_id ?slot) (t_msg t') ctx1 w1 = Some (snd (next_sequence_num ctx1), w2)"
    "sends w2 = sends w1 @ map (\<lambda>s. (s, frame 6 (enc_MarketData md))) (live (take MAX_CLIENTS (clients ctx1)))"
    using dispatch_market_data [of "t_msg t'" md ctx1 os pow10 pad "c_id ?slot" w1] assms(1,2,5) p(1)
    by (auto simp: ctx1_def)
  moreover have "live (take MAX_CLIENTS (clients ctx1)) = live (take MAX_CLIENTS (clients ctx))"
    using assms(6) by (intro live_same_sockets nth_equalityI) (auto simp: ctx1_def nth_list_update)
  ultimately show ?thesis using it p(2) by (auto simp: ctx1_def [symmetric])
qed

lemma market_data_at_client:
  assumes "wf_MarketData md"
    and "os (trace u) (SysRecv (cl_socket d) BUFFER_SIZE)
           = \<lparr>ret = int (length (frame 6 (enc_MarketData md) @ rest)), err = e, rbytes = frame 6 (enc_MarketData md) @ rest\<rparr>"
    and "length rest \<le> 3972"
    and "length buffer = BUFFER_SIZE" "wf_Message m0" "on_market_data (cl_callbacks d)"
  shows "\<exists>buf m d' u'. receiver_iter os buffer m0 d u = Some (True, buf, m, d', u')
    \<and> callbacks_made u' = callbacks_made u @ [(''on_market_data'', enc_MarketData md)]"
proof -
  let ?p = "enc_MarketData md"
  let ?bs = "frame 6 ?p @ rest" and ?m = "m0\<lparr>msg_type := 6, msg_data := ?p @ drop 104 (msg_data m0)\<rparr>"
  have len: "length ?p = 104" using market_data_codec.enc_length [OF assms(1)] by (simp add: sizeof_defs)
  then have pl: "payload_len 6 = Some (length ?p)" by (simp add: payload_len_def)
  let ?b = "?bs @ drop (length ?bs) buffer"
  have st: "store_at 0 (take (nat (int (length ?bs))) ?bs) buffer = Some ?b"
    using assms(3,4) len by (simp add: store_at_def BUFFER_SIZE_def del: of_nat_add)
  have des: "deserialize_message (Some ?b) (nat (int (length ?bs))) (Some m0) = Some (0, Some ?m)"
    using deserialize_frame [OF pl _ assms(5), of "length ?bs" "rest @ drop (length ?bs) buffer"] len
    by (simp del: of_nat_add)
  from receiver_iter_message [of os u d, OF assms(2), of buffer ?b m0 ?m] st des
  obtain d' u' where "receiver_iter os buffer m0 d u = Some (True, ?b, ?m, d', u')"
    "callbacks_made u' = callbacks_made u @ triggers (cl_callbacks d) ?m" by auto
  moreover have "data_market_data ?m = md"
    using market_data_codec.dec_prefix [OF assms(1)] by (simp add: data_market_data_def)
  ultimately show ?thesis using assms(6) by (auto simp: triggers_def)
qed

section \<open>Properties across components\<close>

text \<open>C7. An order end to end. A client's \<open>send_order\<close> succeeds; the server's client thread receives the bytes it
  sent in one read, perhaps with more behind them. Then the thread parses exactly that order, counts one
  message in its slot and passes the order to \<open>process_order\<close> (the sequence counter advances by one), the
  table is otherwise unchanged, and no byte goes back to anyone: the order is lost without an answer, and
  whatever else came in the same read, such as a second order, is dropped unseen.\<close>

theorem order_end_to_end:
  assumes "wf_Order ord" "quantity ord \<noteq> 0" "quantity ord \<le> 1000000" "terminated (client_id ord)"
    and "send_order os (Some c) (Some ord) w = Some (code_of SUCCESS, Some c', w')"
    and "sends w' = sends w @ [(cl_socket c, bs)]"
    and "os' (trace v) (SysRecv (c_socket (clients ctx ! t_slot t)) BUFFER_SIZE)
           = \<lparr>ret = int (length (bs @ rest)), err = 0, rbytes = bs @ rest\<rparr>" "length (bs @ rest) \<le> BUFFER_SIZE"
    and "table_inv cfg ctx" "int MAX_CLIENTS \<le> max_clients cfg" "t_slot t < length (clients ctx)" "wf_thread t"
    and "improved_price pow10 pad ctx ord \<noteq> None"
  shows "\<exists>t' ctx' v'. handle_client_iter os' pow10 pad t ctx v = Some (True, t', ctx', v')
    \<and> data_order (t_msg t') = ord \<and> msg_type (t_msg t') = MessageType_val MSG_ORDER_NEW
    \<and> c_messages_received (clients ctx' ! t_slot t) = c_messages_received (clients ctx ! t_slot t) + 1
    \<and> ctx_sequence_num ctx' = ctx_sequence_num ctx + 1
    \<and> map c_socket (clients ctx') = map c_socket (clients ctx) \<and> client_count ctx' = client_count ctx
    \<and> sends v' = sends v"
proof -
  have "cl_state c = CLIENT_CONNECTED" using assms(5) by (auto simp: send_order_def split: if_splits)
  from send_order_cases [OF assms(1) this, of os w] assms(5,6)
  have bs: "bs = frame 2 (enc_Order ord)" by (auto simp: sends_docall split: if_splits)
  have "MAX_CLIENTS \<le> length (clients ctx)" using assms(9,10) by (simp add: table_inv_def)
  moreover have "length rest \<le> 3948"
    using assms(8) order_codec.enc_length [OF assms(1)] by (simp add: bs sizeof_defs BUFFER_SIZE_def)
  ultimately show ?thesis
    using order_at_server [where os = os' and v = v, OF assms(1-4) assms(7) [unfolded bs] _ table_inv_ids [OF assms(9)] _
        assms(11-13)] by simp
qed

text \<open>A network that takes and hands out one packet, an order, a message buffer and a fresh server.\<close>

definition packet_os :: "byte list \<Rightarrow> os" where
  "packet_os bs h c = \<lparr>ret = int (length bs), err = 0, rbytes = bs\<rparr>"

definition sample_order :: Order where
  "sample_order = zero_Order\<lparr>order_type := OrderType_val ORDER_TYPE_MARKET, quantity := 100\<rparr>"

definition sample_thread :: client_thread where
  "sample_thread = \<lparr>t_slot = 0, t_buffer = replicate 4096 0, t_msg = blank_msg\<rparr>"

lemma sample_order_facts:
  "wf_Order sample_order" "terminated (client_id sample_order)" "quantity sample_order = 100" "order_type sample_order = 1"
  "length (frame 2 (enc_Order sample_order)) = 148"
proof -
  show wf: "wf_Order sample_order" using wf_zero_structs by (simp add: sample_order_def wf_Order_def)
  then show "length (frame 2 (enc_Order sample_order)) = 148"
    using order_codec.enc_length [OF wf] by (simp add: sizeof_defs)
  show "terminated (client_id sample_order)" "quantity sample_order = 100" "order_type sample_order = 1"
    by (simp_all add: sample_order_def zero_Order_def dec_Order_def sizeof_defs slice_def terminated_def)
qed

lemma sample_thread_facts: "t_slot sample_thread = 0" "wf_thread sample_thread" "wf_Message blank_msg"
  by (simp_all add: sample_thread_def wf_thread_def blank_msg_def wf_Message_def sizeof_defs BUFFER_SIZE_def)

lemma fresh_server_facts:
  "table_inv (sample_config 100) (fresh_context (sample_config 100) 100)"
  "length (clients (fresh_context (sample_config 100) 100)) = 100" "max_clients (sample_config 100) = 100"
  "clients (fresh_context (sample_config 100) 100) \<noteq> []"
  by (simp_all add: table_inv_def fresh_context_def sample_config_def blank_def zero_ClientConnection_def list_all_iff)

theorem order_end_to_end_witness:
  "\<exists>c' w' t' ctx' v'. send_order (packet_os (frame 2 (enc_Order sample_order))) (Some sample_client) (Some sample_order) fresh_world
        = Some (0, Some c', w')
    \<and> handle_client_iter (packet_os (frame 2 (enc_Order sample_order) @ frame 2 (enc_Order sample_order))) pow10_rn 0 sample_thread
          (fresh_context (sample_config 100) 100) fresh_world = Some (True, t', ctx', v')
    \<and> data_order (t_msg t') = sample_order \<and> ctx_sequence_num ctx' = 2 \<and> sends v' = []"
proof -
  let ?bs = "frame 2 (enc_Order sample_order)" and ?ctx = "fresh_context (sample_config 100) 100"
  have conn: "cl_state sample_client = CLIENT_CONNECTED" by (simp add: sample_client_def)
  obtain c' w' where so: "send_order (packet_os ?bs) (Some sample_client) (Some sample_order) fresh_world
      = Some (code_of SUCCESS, Some c', w')" "sends w' = sends fresh_world @ [(cl_socket sample_client, ?bs)]"
    using send_order_cases [OF sample_order_facts(1) conn, of "packet_os ?bs" fresh_world] sample_order_facts(5)
    by (simp add: packet_os_def sends_docall del: length_frame)
  have imp: "improved_price pow10_rn 0 ?ctx sample_order \<noteq> None" by (simp add: improved_price_def sample_order_facts)
  have "\<exists>t' ctx' v'. handle_client_iter (packet_os (?bs @ ?bs)) pow10_rn 0 sample_thread ?ctx fresh_world = Some (True, t', ctx', v')
    \<and> data_order (t_msg t') = sample_order \<and> ctx_sequence_num ctx' = ctx_sequence_num ?ctx + 1 \<and> sends v' = sends fresh_world"
    using order_end_to_end [OF sample_order_facts(1) _ _ sample_order_facts(2) so, of "packet_os (?bs @ ?bs)" fresh_world ?ctx
        sample_thread ?bs "sample_config 100" pow10_rn 0] fresh_server_facts imp sample_order_facts(3,5) sample_thread_facts
    by (auto simp: packet_os_def MAX_CLIENTS_def BUFFER_SIZE_def simp del: length_frame)
  moreover have "ctx_sequence_num ?ctx + 1 = 2" "sends fresh_world = []"
    by (simp_all add: fresh_context_def fresh_world_def sends_def)
  ultimately show ?thesis using so(1) by auto
qed

text \<open>C8. A market-data request end to end. A client's request for a symbol, at the start of what the server reads
  at once, is sent on unchanged to every client whose slot has a socket, the requester included; every
  client with a market-data callback that reads this packet first has the callback called once, with the
  requested symbol and nothing but zeros as the market data, whatever follows in the same read.\<close>

theorem market_data_request_end_to_end:
  assumes "terminated symb"
    and "request_market_data os (Some c) (Some symb) w = Some (code_of SUCCESS, Some c', w')"
    and "sends w' = sends w @ [(cl_socket c, bs)]"
    and "os' (trace v) (SysRecv (c_socket (clients ctx ! t_slot t)) BUFFER_SIZE)
           = \<lparr>ret = int (length (bs @ rest)), err = 0, rbytes = bs @ rest\<rparr>" "length (bs @ rest) \<le> BUFFER_SIZE"
    and "MAX_CLIENTS \<le> length (clients ctx)" "t_slot t < length (clients ctx)" "wf_thread t"
    and "os'' (trace u) (SysRecv (cl_socket d) BUFFER_SIZE)
           = \<lparr>ret = int (length (bs @ rest')), err = 0, rbytes = bs @ rest'\<rparr>" "length (bs @ rest') \<le> BUFFER_SIZE"
    and "length buffer = BUFFER_SIZE" "wf_Message m0" "on_market_data (cl_callbacks d)"
  shows "(\<exists>t' ctx' v'. handle_client_iter os' pow10 pad t ctx v = Some (True, t', ctx', v')
      \<and> sends v' = sends v @ map (\<lambda>s. (s, bs)) (live (take MAX_CLIENTS (clients ctx))))
    \<and> (\<exists>buf m d' u'. receiver_iter os'' buffer m0 d u = Some (True, buf, m, d', u')
      \<and> callbacks_made u' = callbacks_made u @
          [(''on_market_data'', take 15 (c_str symb) @ replicate (104 - min 15 (length (c_str symb))) 0)])"
proof -
  have "cl_state c = CLIENT_CONNECTED" using assms(2) by (auto simp: request_market_data_def split: if_splits)
  from request_market_data_cases [OF assms(1) this, of os w] assms(2,3)
  have bs: "bs = frame 6 (enc_MarketData (request_payload symb))"
    by (auto simp: sends_docall dest!: quiet_projections(1) split: if_splits)
  have "terminated (md_symbol (request_payload symb))" by (simp add: request_payload_def terminated_def)
  moreover have "length rest \<le> 3972" "length rest' \<le> 3972"
    using assms(5,10) market_data_codec.enc_length [OF wf_request_payload, of symb] by (simp_all add: bs sizeof_defs BUFFER_SIZE_def)
  ultimately show ?thesis
    using market_data_at_server [where os = os' and v = v, OF wf_request_payload _ assms(4) [unfolded bs] _ assms(6-8)]
      market_data_at_client [where os = os'' and u = u, OF wf_request_payload assms(9) [unfolded bs] _ assms(11-13)]
      enc_request_payload [of symb] by (simp add: bs)
qed

theorem market_data_request_end_to_end_witness:
  "\<exists>bs c' w' t' ctx' v' buf m d' u'.
      request_market_data (packet_os bs) (Some sample_client) (Some (lit ''AAPL'')) fresh_world = Some (0, Some c', w')
    \<and> handle_client_iter (packet_os bs) pow10_rn 0 sample_thread (fresh_context (sample_config 100) 100) fresh_world
        = Some (True, t', ctx', v')
    \<and> receiver_iter (packet_os bs) (replicate 4096 0) blank_msg sample_client fresh_world = Some (True, buf, m, d', u')
    \<and> map fst (callbacks_made u') = [''on_market_data'']"
proof -
  let ?s = "lit ''AAPL''" and ?ctx = "fresh_context (sample_config 100) 100"
  let ?bs = "frame 6 (enc_MarketData (request_payload ?s))"
  have conn: "cl_state sample_client = CLIENT_CONNECTED" "on_market_data (cl_callbacks sample_client)"
    by (simp_all add: sample_client_def)
  obtain c' w' where rm: "request_market_data (packet_os ?bs) (Some sample_client) (Some ?s) fresh_world
      = Some (code_of SUCCESS, Some c', w')" "sends w' = sends fresh_world @ [(cl_socket sample_client, ?bs)]"
    using request_market_data_cases [OF terminated_lit [of "''AAPL''"] conn(1), of "packet_os ?bs" fresh_world]
    by (auto simp: packet_os_def sends_docall dest!: quiet_projections(1))
  have "callbacks_made fresh_world = []" by (simp add: fresh_world_def callbacks_made_def)
  then show ?thesis
    using market_data_request_end_to_end [OF terminated_lit rm, of "packet_os ?bs" fresh_world ?ctx sample_thread "[]"
        "packet_os ?bs" fresh_world sample_client "[]" "replicate 4096 0" blank_msg pow10_rn 0]
      rm(1) conn(2) fresh_server_facts sample_thread_facts market_data_codec.enc_length [OF wf_request_payload, of ?s]
    by (intro exI [of _ ?bs] exI [of _ c'] exI [of _ w']) (auto simp: packet_os_def MAX_CLIENTS_def BUFFER_SIZE_def sizeof_defs)
qed

end
